(* ===== verification/Prelude.thy ===== *)
theory Prelude
  imports Main "HOL-Library.Word"
begin

section \<open>Prelude: shared types, status codes and library lemmas\<close>

text \<open>
  What the component theories share:
  \<^item> the fixed-width integers of \<^verbatim>\<open>nvtypes.h\<close> as words;
  \<^item> the status codes \<^verbatim>\<open>NV_STATUS\<close> that the modelled code returns, as a datatype;
  \<^item> the operations of the kernel's \<^verbatim>\<open>list.h\<close> on lists of object identities;
  \<^item> the collections \<open>request_defs\<close>, \<open>hook_defs\<close> and \<open>list_defs\<close>, and the generic lemmas
    on words and lists that the component proofs use.
\<close>

subsection \<open>Types\<close>

type_synonym NvU8 = "8 word"
type_synonym NvU16 = "16 word"
type_synonym NvU32 = "32 word"
type_synonym NvU64 = "64 word"
type_synonym NvS64 = "64 word"
type_synonym NvHandle = "32 word"

text \<open>
  \<^typ>\<open>NvS64\<close> is the same bit pattern as \<^typ>\<open>NvU64\<close>; the code that compares
  it as a signed value is modelled with \<open>sint\<close>.
\<close>

datatype NV_STATUS =
    NV_OK
  | NV_ERR_NO_MEMORY
  | NV_ERR_INVALID_ARGUMENT
  | NV_ERR_INVALID_STATE
  | NV_ERR_INVALID_OBJECT
  | NV_ERR_NOT_SUPPORTED
  | NV_ERR_BUSY_RETRY
  | NV_ERR_IN_USE
  | NV_ERR_UVM_ADDRESS_IN_USE
  | NV_ERR_OBJECT_NOT_FOUND
  | NV_ERR_BUFFER_TOO_SMALL
  | NV_ERR_INSUFFICIENT_PERMISSIONS
  | NV_ERR_INSUFFICIENT_RESOURCES
  | NV_ERR_INVALID_LOCK_STATE
  | NV_ERR_BUSY
  | NV_ERR_MORE_PROCESSING_REQUIRED
  | NV_ERR_INVALID_POINTER
  | NV_ERR_INVALID_CHANNEL
  | NV_ERR_GENERIC
  | NV_ERR_OUT_OF_RANGE
  | NV_ERR_MORE_DATA_AVAILABLE
  | NV_WARN_NOTHING_TO_DO
  | NV_STATUS_OTHER NvU32

text \<open>
  \<^const>\<open>NV_STATUS_OTHER\<close> stands for every other code of
  \<^verbatim>\<open>nvstatuscodes.h\<close>: a status that code outside the model (firmware, the resource
  server, the operating system) hands back.
\<close>

subsection \<open>Kernel lists\<close>

text \<open>
  A \<^verbatim>\<open>struct list_head\<close> chain is the list of the identities linked into it, in order
  from the head. \<open>list_del\<close> unlinks an entry, \<open>list_add\<close> links one at the head and
  \<open>list_add_tail\<close> at the tail of a whole list; \<open>list_insert_before\<close> and
  \<open>list_insert_after\<close> are \<^verbatim>\<open>list_add_tail\<close> and
  \<^verbatim>\<open>list_add\<close> relative to an entry that is linked into the list.
\<close>

definition list_del :: "'a \<Rightarrow> 'a list \<Rightarrow> 'a list" where
  "list_del x xs = removeAll x xs"

definition list_add :: "'a \<Rightarrow> 'a list \<Rightarrow> 'a list" where
  "list_add x xs = x # xs"

definition list_add_tail :: "'a \<Rightarrow> 'a list \<Rightarrow> 'a list" where
  "list_add_tail x xs = xs @ [x]"

fun list_insert_before :: "'a \<Rightarrow> 'a \<Rightarrow> 'a list \<Rightarrow> 'a list" where
  "list_insert_before x p [] = []"
| "list_insert_before x p (y # ys) = (if y = p then x # y # ys else y # list_insert_before x p ys)"

fun list_insert_after :: "'a \<Rightarrow> 'a \<Rightarrow> 'a list \<Rightarrow> 'a list" where
  "list_insert_after x p [] = []"
| "list_insert_after x p (y # ys) = (if y = p then y # x # ys else y # list_insert_after x p ys)"

text \<open>The entry after and the entry before a linked one; \<open>None\<close> at the end of the list.\<close>

fun list_next :: "'a \<Rightarrow> 'a list \<Rightarrow> 'a option" where
  "list_next p [] = None"
| "list_next p (y # ys) = (if y = p then (case ys of [] \<Rightarrow> None | z # _ \<Rightarrow> Some z) else list_next p ys)"

definition list_prev :: "'a \<Rightarrow> 'a list \<Rightarrow> 'a option" where
  "list_prev p xs = list_next p (rev xs)"

definition list_first :: "'a list \<Rightarrow> 'a option" where
  "list_first xs = (case xs of [] \<Rightarrow> None | x # _ \<Rightarrow> Some x)"

definition list_last :: "'a list \<Rightarrow> 'a option" where
  "list_last xs = (if xs = [] then None else Some (last xs))"

subsection \<open>Atomic compare-and-exchange\<close>

text \<open>
  \<^verbatim>\<open>cmpxchg(&x, old, new)\<close>: the value read, and the value \<open>x\<close> has afterwards.
\<close>

definition cmpxchg :: "'a \<Rightarrow> 'a \<Rightarrow> 'a \<Rightarrow> 'a \<times> 'a" where
  "cmpxchg cur old new = (cur, if cur = old then new else cur)"

subsection \<open>Loops that may be left early\<close>

text \<open>
  A loop over a list whose body may leave it (\<^verbatim>\<open>break\<close>, \<^verbatim>\<open>goto\<close> or
  \<^verbatim>\<open>return\<close> with a value): \<open>None\<close> goes on with the next element.
\<close>

fun fold_exit :: "('a \<Rightarrow> 's \<Rightarrow> 'e option \<times> 's) \<Rightarrow> 'a list \<Rightarrow> 's \<Rightarrow> 'e option \<times> 's" where
  "fold_exit f [] s = (None, s)"
| "fold_exit f (x # xs) s =
     (case f x s of
        (Some e, s') \<Rightarrow> (Some e, s')
      | (None, s') \<Rightarrow> fold_exit f xs s')"

subsection \<open>Logarithms of the kernel library\<close>

fun ilog2 :: "nat \<Rightarrow> nat" where
  "ilog2 n = (if n \<le> 1 then 0 else Suc (ilog2 (n div 2)))"

declare ilog2.simps [simp del]

definition roundup_pow_of_two :: "nat \<Rightarrow> nat" where
  "roundup_pow_of_two n = 2 ^ (if n \<le> 1 then 0 else Suc (ilog2 (n - 1)))"

subsection \<open>Invariants of a system of steps\<close>

text \<open>What a component shows of its steps, and what its users get: the invariant holds in every run.\<close>

locale step_invariant =
  fixes initial :: "'s \<Rightarrow> bool" and step :: "'s \<Rightarrow> 's \<Rightarrow> bool" and inv :: "'s \<Rightarrow> bool"
  assumes initial_inv: "initial s \<Longrightarrow> inv s"
    and step_inv: "inv s \<Longrightarrow> step s t \<Longrightarrow> inv t"
begin

lemma reachable_inv: "rtranclp step s t \<Longrightarrow> initial s \<Longrightarrow> inv t"
  by (induction rule: rtranclp_induct) (auto intro: initial_inv step_inv)

end

subsection \<open>Collections\<close>

named_theorems request_defs \<open>definitions of the request records and their recording functions\<close>
named_theorems hook_defs \<open>definitions of the policy hooks\<close>
named_theorems list_defs \<open>definitions of the kernel list operations\<close>

lemmas kernel_list_defs [list_defs] =
  list_del_def list_add_def list_add_tail_def list_first_def list_last_def

subsection \<open>Lemmas on loops\<close>

lemma fold_exit_append:
  "fold_exit f (xs @ ys) s =
     (case fold_exit f xs s of
        (Some e, s') \<Rightarrow> (Some e, s')
      | (None, s') \<Rightarrow> fold_exit f ys s')"
  by (induction xs arbitrary: s) (auto split: prod.splits option.splits)

text \<open>A loop whose bodies are loops is one loop; elements that the body passes over do not matter.\<close>

lemma fold_exit_concat:
  assumes "\<And>x s. x \<in> set xs \<Longrightarrow> f x s = fold_exit g (h x) s"
  shows "fold_exit f xs s = fold_exit g (concat (map h xs)) s"
  using assms by (induction xs arbitrary: s) (auto simp: fold_exit_append split: prod.splits option.splits)

lemma fold_exit_filter:
  assumes "\<And>x s. x \<in> set xs \<Longrightarrow> \<not> P x \<Longrightarrow> f x s = (None, s)"
  shows "fold_exit f xs s = fold_exit f (filter P xs) s"
  using assms by (induction xs arbitrary: s) (auto split: prod.splits option.splits)

lemma fold_exit_map: "fold_exit f (map h xs) s = fold_exit (f \<circ> h) xs s"
  by (induction xs arbitrary: s) (auto split: prod.splits option.splits)

lemma fold_exit_cong:
  assumes "\<And>x s. x \<in> set xs \<Longrightarrow> f x s = g x s"
  shows "fold_exit f xs s = fold_exit g xs s"
  using assms by (induction xs arbitrary: s) (auto split: prod.splits option.splits)

lemma fold_exit_inv:
  assumes "\<And>x s r s'. x \<in> set xs \<Longrightarrow> I s \<Longrightarrow> f x s = (r, s') \<Longrightarrow> I s' \<and> (\<forall>e. r = Some e \<longrightarrow> Q e s')"
  shows "I s \<Longrightarrow> fold_exit f xs s = (r, s') \<Longrightarrow> I s' \<and> (\<forall>e. r = Some e \<longrightarrow> Q e s')"
  using assms
proof (induction xs arbitrary: s)
  case (Cons x xs)
  obtain r1 s1 where f: "f x s = (r1, s1)" by fastforce
  have I1: "I s1 \<and> (\<forall>e. r1 = Some e \<longrightarrow> Q e s1)" using Cons.prems(3) [OF _ Cons.prems(1) f] by simp
  show ?case
  proof (cases r1)
    case None
    then have rest: "fold_exit f xs s1 = (r, s')" using Cons.prems(2) f by simp
    show ?thesis
    proof (rule Cons.IH [OF _ rest])
      show "I s1" using I1 by simp
      show "I t \<and> (\<forall>e. q = Some e \<longrightarrow> Q e t)" if "y \<in> set xs" "I u" "f y u = (q, t)" for y u q t
        using Cons.prems(3) [OF _ that(2,3)] that(1) by simp
    qed
  next
    case (Some e)
    then show ?thesis using Cons.prems(2) f I1 by simp
  qed
qed simp

subsection \<open>Lemmas on lists\<close>

lemma set_list_del [simp]: "set (list_del x xs) = set xs - {x}"
  by (auto simp: list_del_def)

lemma set_list_add [simp]: "set (list_add x xs) = insert x (set xs)"
  by (simp add: list_add_def)

lemma set_list_add_tail [simp]: "set (list_add_tail x xs) = insert x (set xs)"
  by (auto simp: list_add_tail_def)

lemma distinct_list_del [intro, simp]: "distinct xs \<Longrightarrow> distinct (list_del x xs)"
  by (simp add: list_del_def distinct_removeAll)

lemma distinct_list_add [simp]: "distinct (list_add x xs) = (x \<notin> set xs \<and> distinct xs)"
  by (simp add: list_add_def)

lemma distinct_list_add_tail [simp]: "distinct (list_add_tail x xs) = (x \<notin> set xs \<and> distinct xs)"
  by (auto simp: list_add_tail_def)

lemma option_eqI: "(\<And>x. a = Some x \<longleftrightarrow> b = Some x) \<Longrightarrow> a = b"
  by (cases a; cases b) auto

lemma list_del_notin [simp]: "x \<notin> set xs \<Longrightarrow> list_del x xs = xs"
  by (simp add: list_del_def)

lemma list_insert_before_split:
  assumes "p \<notin> set us"
  shows "list_insert_before x p (us @ p # vs) = us @ x # p # vs"
  using assms by (induction us) auto

lemma list_insert_after_split:
  assumes "p \<notin> set us"
  shows "list_insert_after x p (us @ p # vs) = us @ p # x # vs"
  using assms by (induction us) auto

lemma list_next_split:
  assumes "p \<notin> set us"
  shows "list_next p (us @ p # vs) = list_first vs"
  using assms by (induction us) (auto simp: list_first_def split: list.splits)

lemma list_next_notin [simp]: "p \<notin> set xs \<Longrightarrow> list_next p xs = None"
  by (induction xs) auto

lemma list_prev_split:
  assumes "p \<notin> set vs"
  shows "list_prev p (us @ p # vs) = list_last us"
  using list_next_split [of p "rev vs" "rev us"] assms
  by (cases us rule: rev_cases) (auto simp: list_prev_def list_first_def list_last_def)

lemma list_del_split:
  assumes "distinct (us @ x # vs)"
  shows "list_del x (us @ x # vs) = us @ vs"
  using assms by (simp add: list_del_def)

subsection \<open>Lemmas on words\<close>

lemma word_le_minus_one [simp]:
  fixes a b :: "'a::len word"
  assumes "b \<noteq> 0"
  shows "a \<le> b - 1 \<longleftrightarrow> a < b"
  using assms unat_gt_0 [of b] by (simp add: word_le_nat_alt word_less_nat_alt unat_minus_one) arith

text \<open>The guard \<^verbatim>\<open>b > ~0 - a\<close> before an addition is the overflow condition.\<close>

lemma word_add_overflow_iff:
  fixes a b :: "'a::len word"
  shows "- 1 - a < b \<longleftrightarrow> 2 ^ LENGTH('a) \<le> uint a + uint b"
proof -
  have "uint (- 1 - a) = 2 ^ LENGTH('a) - 1 - uint a"
    using uint_lt2p [of a] by (simp add: uint_sub_if' unsigned_minus_1_eq_mask mask_eq_exp_minus_1)
  then show ?thesis by (simp add: word_less_def) linarith
qed

lemma count_list_distinct:
  "distinct xs \<Longrightarrow> count_list xs x = (if x \<in> set xs then 1 else 0)"
  by (induction xs) (auto simp: count_list_0_iff)

lemma length_removeAll_distinct:
  "distinct xs \<Longrightarrow> x \<in> set xs \<Longrightarrow> length xs = Suc (length (removeAll x xs))"
  by (induction xs) (auto simp: removeAll_id)

lemma word_le_2_cases:
  fixes x :: NvU32
  assumes "x \<le> 2"
  shows "x = 0 \<or> x = 1 \<or> x = 2"
proof -
  have "unat x \<le> 2" using assms by (simp add: word_le_nat_alt)
  then have "unat x = 0 \<or> unat x = 1 \<or> unat x = 2" by arith
  then have "x = of_nat 0 \<or> x = of_nat 1 \<or> x = of_nat 2" by (metis of_nat_unat ucast_id)
  then show ?thesis by simp
qed

lemma unat_Suc_less: "unat (x + 1) = Suc (unat x)" if "(x :: 'a::len word) < y"
proof -
  have "Suc (unat x) \<le> unat y" using that by (simp add: word_less_nat_alt)
  also have "\<dots> < 2 ^ LENGTH('a)" by (rule unsigned_less)
  finally show ?thesis by (simp add: unat_word_ariths)
qed

unbundle bit_operations_syntax

lemma and_not_mask_eq:
  fixes x :: "'a::len word"
  shows "x AND NOT (2 ^ k - 1) = push_bit k (drop_bit k x)"
proof (rule bit_word_eqI)
  fix n assume n: "n < LENGTH('a)"
  have "(2::'a word) ^ k - 1 = mask k" by (simp add: mask_eq_exp_minus_1)
  then show "bit (x AND NOT (2 ^ k - 1)) n = bit (push_bit k (drop_bit k x)) n"
    using n by (simp add: bit_and_iff bit_not_iff bit_mask_iff bit_push_bit_iff bit_drop_bit_eq)
      (auto simp: not_less)
qed

lemma unat_and_not_mask:
  fixes x :: "'a::len word"
  shows "unat (x AND NOT (2 ^ k - 1)) = unat x div 2 ^ k * 2 ^ k"
proof -
  have "unat x div 2 ^ k * 2 ^ k \<le> unat x" by simp
  also have "\<dots> < 2 ^ LENGTH('a)" by (rule unsigned_less)
  finally have "take_bit LENGTH('a) (push_bit k (drop_bit k (unat x))) = unat x div 2 ^ k * 2 ^ k"
    by (simp add: push_bit_eq_mult drop_bit_eq_div take_bit_nat_eq_self)
  moreover have "take_bit LENGTH('a) (unat x) = unat x"
    using unsigned_less [of x, where 'a = nat] by (simp add: take_bit_nat_eq_self)
  ultimately show ?thesis
    by (simp add: and_not_mask_eq unsigned_push_bit_eq unsigned_drop_bit_eq)
qed

lemma unat16_less: "unat (w :: NvU16) < 65536"
proof -
  have "unat w < 2 ^ LENGTH(16)" by (rule unsigned_less)
  then show ?thesis by simp
qed

lemma unat_of_nat16: "n < 65536 \<Longrightarrow> unat (of_nat n :: NvU16) = n"
  by (simp add: unat_of_nat take_bit_nat_eq_self)

lemma of_nat_word_eq_0:
  assumes "n < 2 ^ LENGTH('a)"
  shows "(of_nat n :: 'a :: len word) = 0 \<longleftrightarrow> n = 0"
proof -
  have "(of_nat n :: 'a word) = 0 \<longleftrightarrow> 2 ^ LENGTH('a) dvd n" by (simp add: word_of_nat_eq_0_iff)
  then show ?thesis using assms by (auto dest: dvd_imp_le)
qed

subsection \<open>Lemmas on logarithms\<close>

lemma ilog2_power [simp]: "ilog2 (2 ^ k) = k"
proof (induction k)
  case (Suc k)
  have "\<not> (2::nat) ^ Suc k \<le> 1" using one_less_power [of "2::nat" "Suc k"] by simp
  then have "ilog2 (2 ^ Suc k) = Suc (ilog2 (2 ^ Suc k div 2))" by (subst ilog2.simps) simp
  then show ?case using Suc by simp
qed (simp add: ilog2.simps)

lemma ilog2_bounds: "0 < n \<Longrightarrow> 2 ^ ilog2 n \<le> n \<and> n < 2 ^ Suc (ilog2 n)"
proof (induction n rule: ilog2.induct)
  case (1 n)
  show ?case
  proof (cases "n \<le> 1")
    case True
    then have "n = 1" using "1.prems" by simp
    then show ?thesis by (simp add: ilog2.simps)
  next
    case False
    then have "2 ^ ilog2 (n div 2) \<le> n div 2 \<and> n div 2 < 2 ^ Suc (ilog2 (n div 2))"
      by (intro "1.IH") auto
    moreover have "ilog2 n = Suc (ilog2 (n div 2))" using False by (subst ilog2.simps) simp
    ultimately show ?thesis by auto
  qed
qed

lemma ilog2_roundup: "ilog2 (roundup_pow_of_two n) = (if n \<le> 1 then 0 else Suc (ilog2 (n - 1)))"
  by (simp only: roundup_pow_of_two_def ilog2_power)

lemma roundup_pow_of_two_bounds:
  assumes "0 < n"
  shows "n \<le> roundup_pow_of_two n" "roundup_pow_of_two n < 2 * n"
proof -
  have "n = 1 \<or> (1 < n \<and> 2 ^ ilog2 (n - 1) \<le> n - 1 \<and> n - 1 < 2 ^ Suc (ilog2 (n - 1)))"
    using assms ilog2_bounds [of "n - 1"] by (cases "n = 1") auto
  then show "n \<le> roundup_pow_of_two n" "roundup_pow_of_two n < 2 * n"
    by (auto simp: roundup_pow_of_two_def)
qed

end
