(* ===== verification/Transition_Validator.thy ===== *)
theory Transition_Validator
  imports Prelude
begin

section \<open>The transition validator\<close>

text \<open>
  The model of \<^verbatim>\<open>kernel-open/common/inc/nv-gpu-transition-validator.h\<close> and
  \<^verbatim>\<open>nv-gpu-timeslice-control.h\<close>: the requests a policy callback records, and the checks that
  decide whether a recorded request is applied. An output parameter of a C function is a
  component of the model's result.

  Every recording function follows one protocol (the first request is kept, an equal one is a
  repeat, a different one is a conflict that no later request undoes). The locale
  \<open>request_protocol\<close> states it; the four recording functions are its interpretations.
\<close>

subsection \<open>Data\<close>

datatype nv_gpu_transition_result =
    NV_GPU_TRANSITION_APPLY
  | NV_GPU_TRANSITION_NOOP_DEFAULT
  | NV_GPU_TRANSITION_NOOP_REPEAT
  | NV_GPU_TRANSITION_NOOP_STALE
  | NV_GPU_TRANSITION_NOOP_CONFLICT
  | NV_GPU_TRANSITION_REJECT_ACTION
  | NV_GPU_TRANSITION_REJECT_RANGE
  | NV_GPU_TRANSITION_REJECT_IDENTITY

text \<open>The value of the enumerator, which the callable kernel functions hand to the policy.\<close>

fun transition_code :: "nv_gpu_transition_result \<Rightarrow> int" where
  "transition_code NV_GPU_TRANSITION_APPLY = 0"
| "transition_code NV_GPU_TRANSITION_NOOP_DEFAULT = 1"
| "transition_code NV_GPU_TRANSITION_NOOP_REPEAT = 2"
| "transition_code NV_GPU_TRANSITION_NOOP_STALE = 3"
| "transition_code NV_GPU_TRANSITION_NOOP_CONFLICT = 4"
| "transition_code NV_GPU_TRANSITION_REJECT_ACTION = 5"
| "transition_code NV_GPU_TRANSITION_REJECT_RANGE = 6"
| "transition_code NV_GPU_TRANSITION_REJECT_IDENTITY = 7"

abbreviation (input) NV_GPU_TRANSITION_ACTION_DEFAULT :: int where
  "NV_GPU_TRANSITION_ACTION_DEFAULT \<equiv> 0"

abbreviation (input) NV_GPU_TRANSITION_ACTION_BYPASS :: int where
  "NV_GPU_TRANSITION_ACTION_BYPASS \<equiv> 1"

abbreviation (input) NV_GPU_TRANSITION_ACTION_ENTER_LOOP :: int where
  "NV_GPU_TRANSITION_ACTION_ENTER_LOOP \<equiv> 2"

abbreviation (input) NV_GPU_PMM_DESTINATION_USED :: NvU64 where
  "NV_GPU_PMM_DESTINATION_USED \<equiv> 1"

abbreviation (input) NV_GPU_PMM_DESTINATION_UNUSED :: NvU64 where
  "NV_GPU_PMM_DESTINATION_UNUSED \<equiv> 2"

abbreviation (input) NV_GPU_PMM_POSITION_HEAD :: NvU64 where
  "NV_GPU_PMM_POSITION_HEAD \<equiv> 1"

abbreviation (input) NV_GPU_PMM_POSITION_TAIL :: NvU64 where
  "NV_GPU_PMM_POSITION_TAIL \<equiv> 2"

datatype nv_gpu_pmm_access_effect =
    NV_GPU_PMM_ACCESS_NATIVE
  | NV_GPU_PMM_ACCESS_PRESERVE
  | NV_GPU_PMM_ACCESS_COMMIT

datatype nv_gpu_prefetch_initial_effect =
    NV_GPU_PREFETCH_INITIAL_NATIVE
  | NV_GPU_PREFETCH_INITIAL_BYPASS
  | NV_GPU_PREFETCH_INITIAL_ITERATE

datatype nv_gpu_prefetch_iterator_effect =
    NV_GPU_PREFETCH_ITERATOR_IGNORE
  | NV_GPU_PREFETCH_ITERATOR_COMMIT

record nv_gpu_transition_u64_request_t =
  u64_attempted :: bool
  u64_conflict :: bool
  u64_value :: NvU64

record nv_gpu_transition_u32_request_t =
  u32_attempted :: bool
  u32_conflict :: bool
  u32_value :: NvU32

record nv_gpu_task_init_ctx =
  ti_tsg_id :: NvU64
  ti_engine_type :: NvU32
  ti_default_timeslice :: NvU64
  ti_default_interleave :: NvU32
  ti_runlist_id :: NvU32

record nv_gpu_task_init_decision_ctx =
  ti_input :: nv_gpu_task_init_ctx
  timeslice_request :: nv_gpu_transition_u64_request_t
  interleave_request :: nv_gpu_transition_u32_request_t

record nv_gpu_scheduler_snapshot_t =
  ss_tsg_id :: NvU64
  ss_runlist_id :: NvU32
  ss_phase :: NvU32

record nv_gpu_scheduler_validation_t =
  timeslice_result :: nv_gpu_transition_result
  interleave_result :: nv_gpu_transition_result
  sv_timeslice :: NvU64
  sv_interleave :: NvU32

record nv_gpu_prefetch_decision_t =
  pf_attempted :: bool
  pf_conflict :: bool
  pf_first :: NvU64
  pf_outer :: NvU64

record nv_gpu_transition_region_t =
  tr_first :: NvU64
  tr_outer :: NvU64

record nv_gpu_pmm_request_t =
  pmm_attempted :: bool
  pmm_conflict :: bool
  pmm_destination :: NvU64
  pmm_position :: NvU64

record nv_gpu_pmm_snapshot_t =
  owner_id :: NvU64
  root_id :: NvU64
  generation :: NvU64
  "source" :: NvU32

text \<open>The zero-initialised request records (\<^verbatim>\<open>= {0}\<close>).\<close>

definition u64_request_init :: nv_gpu_transition_u64_request_t where [request_defs]:
  "u64_request_init = \<lparr>u64_attempted = False, u64_conflict = False, u64_value = 0\<rparr>"

definition u32_request_init :: nv_gpu_transition_u32_request_t where [request_defs]:
  "u32_request_init = \<lparr>u32_attempted = False, u32_conflict = False, u32_value = 0\<rparr>"

definition prefetch_decision_init :: nv_gpu_prefetch_decision_t where [request_defs]:
  "prefetch_decision_init =
     \<lparr>pf_attempted = False, pf_conflict = False, pf_first = 0, pf_outer = 0\<rparr>"

definition pmm_request_init :: nv_gpu_pmm_request_t where [request_defs]:
  "pmm_request_init =
     \<lparr>pmm_attempted = False, pmm_conflict = False, pmm_destination = 0, pmm_position = 0\<rparr>"

definition transition_region_zero :: nv_gpu_transition_region_t where
  "transition_region_zero = \<lparr>tr_first = 0, tr_outer = 0\<rparr>"

subsection \<open>Recording requests\<close>

definition nv_gpu_transition_record_u64 ::
  "nv_gpu_transition_u64_request_t \<Rightarrow> NvU64 \<Rightarrow>
     nv_gpu_transition_result \<times> nv_gpu_transition_u64_request_t" where
  "nv_gpu_transition_record_u64 request v =
     (if \<not> u64_attempted request then
        (NV_GPU_TRANSITION_APPLY, request\<lparr>u64_attempted := True, u64_value := v\<rparr>)
      else if u64_conflict request then (NV_GPU_TRANSITION_NOOP_CONFLICT, request)
      else if u64_value request = v then (NV_GPU_TRANSITION_NOOP_REPEAT, request)
      else (NV_GPU_TRANSITION_NOOP_CONFLICT, request\<lparr>u64_conflict := True\<rparr>))"

definition nv_gpu_transition_record_u32 ::
  "nv_gpu_transition_u32_request_t \<Rightarrow> NvU32 \<Rightarrow>
     nv_gpu_transition_result \<times> nv_gpu_transition_u32_request_t" where
  "nv_gpu_transition_record_u32 request v =
     (if \<not> u32_attempted request then
        (NV_GPU_TRANSITION_APPLY, request\<lparr>u32_attempted := True, u32_value := v\<rparr>)
      else if u32_conflict request then (NV_GPU_TRANSITION_NOOP_CONFLICT, request)
      else if u32_value request = v then (NV_GPU_TRANSITION_NOOP_REPEAT, request)
      else (NV_GPU_TRANSITION_NOOP_CONFLICT, request\<lparr>u32_conflict := True\<rparr>))"

definition nv_gpu_transition_record_prefetch ::
  "nv_gpu_prefetch_decision_t \<Rightarrow> NvU64 \<Rightarrow> NvU64 \<Rightarrow>
     nv_gpu_transition_result \<times> nv_gpu_prefetch_decision_t" where
  "nv_gpu_transition_record_prefetch decision first outer =
     (if \<not> pf_attempted decision then
        (NV_GPU_TRANSITION_APPLY,
         decision\<lparr>pf_attempted := True, pf_first := first, pf_outer := outer\<rparr>)
      else if pf_conflict decision then (NV_GPU_TRANSITION_NOOP_CONFLICT, decision)
      else if pf_first decision = first \<and> pf_outer decision = outer
        then (NV_GPU_TRANSITION_NOOP_REPEAT, decision)
      else (NV_GPU_TRANSITION_NOOP_CONFLICT, decision\<lparr>pf_conflict := True\<rparr>))"

definition nv_gpu_transition_record_pmm ::
  "nv_gpu_pmm_request_t \<Rightarrow> NvU64 \<Rightarrow> NvU64 \<Rightarrow>
     nv_gpu_transition_result \<times> nv_gpu_pmm_request_t" where
  "nv_gpu_transition_record_pmm request destination position =
     (if \<not> pmm_attempted request then
        (NV_GPU_TRANSITION_APPLY,
         request\<lparr>pmm_attempted := True, pmm_destination := destination, pmm_position := position\<rparr>)
      else if pmm_conflict request then (NV_GPU_TRANSITION_NOOP_CONFLICT, request)
      else if pmm_destination request = destination \<and> pmm_position request = position
        then (NV_GPU_TRANSITION_NOOP_REPEAT, request)
      else (NV_GPU_TRANSITION_NOOP_CONFLICT, request\<lparr>pmm_conflict := True\<rparr>))"

subsection \<open>Scheduler validation\<close>

definition nv_gpu_transition_validate_snapshot ::
  "nv_gpu_scheduler_snapshot_t \<Rightarrow> nv_gpu_scheduler_snapshot_t \<Rightarrow> nv_gpu_transition_result" where
  "nv_gpu_transition_validate_snapshot expected observed =
     (if ss_tsg_id expected \<noteq> ss_tsg_id observed \<or> ss_runlist_id expected \<noteq> ss_runlist_id observed
        then NV_GPU_TRANSITION_REJECT_IDENTITY
      else if ss_phase expected \<noteq> ss_phase observed then NV_GPU_TRANSITION_NOOP_STALE
      else NV_GPU_TRANSITION_APPLY)"

definition nv_gpu_transition_validate_scheduler ::
  "nv_gpu_scheduler_snapshot_t \<Rightarrow> nv_gpu_scheduler_snapshot_t \<Rightarrow> NvU64 \<Rightarrow> NvU32 \<Rightarrow> NvU64 \<Rightarrow>
     nv_gpu_transition_u64_request_t \<Rightarrow> nv_gpu_transition_u32_request_t \<Rightarrow>
     nv_gpu_scheduler_validation_t" where
  "nv_gpu_transition_validate_scheduler expected observed native_timeslice native_interleave
       minimum_timeslice ts_request il_request =
     (let validation =
            \<lparr>timeslice_result = NV_GPU_TRANSITION_NOOP_DEFAULT,
             interleave_result = NV_GPU_TRANSITION_NOOP_DEFAULT,
             sv_timeslice = native_timeslice,
             sv_interleave = native_interleave\<rparr>;
          snapshot_result = nv_gpu_transition_validate_snapshot expected observed
      in if snapshot_result \<noteq> NV_GPU_TRANSITION_APPLY then
           validation\<lparr>timeslice_result := snapshot_result, interleave_result := snapshot_result\<rparr>
         else
           (let validation =
                  (if u64_conflict ts_request
                     then validation\<lparr>timeslice_result := NV_GPU_TRANSITION_NOOP_CONFLICT\<rparr>
                   else if u64_attempted ts_request then
                     (if u64_value ts_request < minimum_timeslice
                        then validation\<lparr>timeslice_result := NV_GPU_TRANSITION_REJECT_RANGE\<rparr>
                      else validation\<lparr>timeslice_result := NV_GPU_TRANSITION_APPLY,
                                      sv_timeslice := u64_value ts_request\<rparr>)
                   else validation)
            in if u32_conflict il_request
                 then validation\<lparr>interleave_result := NV_GPU_TRANSITION_NOOP_CONFLICT\<rparr>
               else if u32_attempted il_request then
                 (if u32_value il_request > 2
                    then validation\<lparr>interleave_result := NV_GPU_TRANSITION_REJECT_RANGE\<rparr>
                  else validation\<lparr>interleave_result := NV_GPU_TRANSITION_APPLY,
                                  sv_interleave := u32_value il_request\<rparr>)
               else validation))"

subsection \<open>Prefetch validation\<close>

definition nv_gpu_transition_validate_initial_action ::
  "NvS64 \<Rightarrow> nv_gpu_transition_result \<times> NvU32" where
  "nv_gpu_transition_validate_initial_action raw_action =
     (if sint raw_action < NV_GPU_TRANSITION_ACTION_DEFAULT \<or>
         sint raw_action > NV_GPU_TRANSITION_ACTION_ENTER_LOOP
        then (NV_GPU_TRANSITION_REJECT_ACTION, 0)
      else (NV_GPU_TRANSITION_APPLY, ucast raw_action))"

definition nv_gpu_transition_validate_iterator_action ::
  "NvS64 \<Rightarrow> nv_gpu_transition_result \<times> NvU32" where
  "nv_gpu_transition_validate_iterator_action raw_action =
     (if sint raw_action \<noteq> NV_GPU_TRANSITION_ACTION_DEFAULT \<and>
         sint raw_action \<noteq> NV_GPU_TRANSITION_ACTION_BYPASS
        then (NV_GPU_TRANSITION_REJECT_ACTION, 0)
      else (NV_GPU_TRANSITION_APPLY, ucast raw_action))"

definition nv_gpu_transition_prefetch_initial_effect ::
  "NvS64 \<Rightarrow> nv_gpu_transition_result \<Rightarrow> nv_gpu_prefetch_initial_effect" where
  "nv_gpu_transition_prefetch_initial_effect raw_action region_result =
     (case nv_gpu_transition_validate_initial_action raw_action of (result, action) \<Rightarrow>
        if result \<noteq> NV_GPU_TRANSITION_APPLY then NV_GPU_PREFETCH_INITIAL_NATIVE
        else if uint action = NV_GPU_TRANSITION_ACTION_ENTER_LOOP
          then NV_GPU_PREFETCH_INITIAL_ITERATE
        else if uint action = NV_GPU_TRANSITION_ACTION_BYPASS \<and>
                region_result = NV_GPU_TRANSITION_APPLY
          then NV_GPU_PREFETCH_INITIAL_BYPASS
        else NV_GPU_PREFETCH_INITIAL_NATIVE)"

definition nv_gpu_transition_prefetch_iterator_effect ::
  "NvS64 \<Rightarrow> nv_gpu_transition_result \<Rightarrow> nv_gpu_prefetch_iterator_effect" where
  "nv_gpu_transition_prefetch_iterator_effect raw_action region_result =
     (case nv_gpu_transition_validate_iterator_action raw_action of (result, action) \<Rightarrow>
        if result \<noteq> NV_GPU_TRANSITION_APPLY then NV_GPU_PREFETCH_ITERATOR_IGNORE
        else if uint action = NV_GPU_TRANSITION_ACTION_BYPASS \<and>
                region_result = NV_GPU_TRANSITION_APPLY
          then NV_GPU_PREFETCH_ITERATOR_COMMIT
        else NV_GPU_PREFETCH_ITERATOR_IGNORE)"

definition nv_gpu_transition_validate_region ::
  "nv_gpu_prefetch_decision_t \<Rightarrow> NvU64 \<Rightarrow> NvU64 \<Rightarrow> NvU64 \<Rightarrow> NvU64 \<Rightarrow>
     nv_gpu_transition_result \<times> nv_gpu_transition_region_t" where
  "nv_gpu_transition_validate_region decision max_first max_outer block_outer type_outer =
     (if pf_conflict decision then (NV_GPU_TRANSITION_NOOP_CONFLICT, transition_region_zero)
      else if \<not> pf_attempted decision
        then (NV_GPU_TRANSITION_NOOP_DEFAULT, transition_region_zero)
      else if pf_first decision = 0 \<and> pf_outer decision = 0
        then (NV_GPU_TRANSITION_APPLY, transition_region_zero)
      else if max_first > max_outer \<or> max_outer > block_outer \<or> max_outer > type_outer
        then (NV_GPU_TRANSITION_REJECT_RANGE, transition_region_zero)
      else if pf_first decision \<ge> pf_outer decision \<or>
              pf_first decision < max_first \<or>
              pf_outer decision > max_outer \<or>
              pf_first decision > block_outer \<or>
              pf_outer decision > block_outer \<or>
              pf_first decision > type_outer \<or>
              pf_outer decision > type_outer
        then (NV_GPU_TRANSITION_REJECT_RANGE, transition_region_zero)
      else (NV_GPU_TRANSITION_APPLY,
            \<lparr>tr_first = pf_first decision, tr_outer = pf_outer decision\<rparr>))"

definition nv_gpu_transition_translate_endpoint ::
  "NvU64 \<Rightarrow> NvU64 \<Rightarrow> NvU64 \<Rightarrow> NvU64 \<Rightarrow> NvU64 \<Rightarrow> NvU64 \<Rightarrow> nv_gpu_transition_result \<times> NvU64" where
  "nv_gpu_transition_translate_endpoint max_first relative_endpoint tree_offset max_outer
       block_outer type_outer =
     (if relative_endpoint > - 1 - max_first then (NV_GPU_TRANSITION_REJECT_RANGE, 0)
      else
        (let widened = max_first + relative_endpoint
         in if widened < tree_offset then (NV_GPU_TRANSITION_REJECT_RANGE, 0)
            else
              (let widened = widened - tree_offset
               in if widened < max_first \<or> widened > max_outer \<or>
                     widened > block_outer \<or> widened > type_outer
                    then (NV_GPU_TRANSITION_REJECT_RANGE, 0)
                  else (NV_GPU_TRANSITION_APPLY, widened))))"

definition nv_gpu_transition_translate_region ::
  "NvU64 \<Rightarrow> NvU64 \<Rightarrow> NvU64 \<Rightarrow> NvU64 \<Rightarrow> NvU64 \<Rightarrow> NvU64 \<Rightarrow> NvU64 \<Rightarrow>
     nv_gpu_transition_result \<times> nv_gpu_transition_region_t" where
  "nv_gpu_transition_translate_region max_first relative_first relative_outer tree_offset
       max_outer block_outer type_outer =
     (case nv_gpu_transition_translate_endpoint max_first relative_first tree_offset max_outer
             block_outer type_outer of (result, first) \<Rightarrow>
        if result \<noteq> NV_GPU_TRANSITION_APPLY then (result, \<lparr>tr_first = first, tr_outer = 0\<rparr>)
        else
          (case nv_gpu_transition_translate_endpoint max_first relative_outer tree_offset max_outer
                  block_outer type_outer of (result, outer) \<Rightarrow>
             if result \<noteq> NV_GPU_TRANSITION_APPLY then (result, \<lparr>tr_first = 0, tr_outer = outer\<rparr>)
             else if first \<ge> outer then (NV_GPU_TRANSITION_REJECT_RANGE, transition_region_zero)
             else (NV_GPU_TRANSITION_APPLY, \<lparr>tr_first = first, tr_outer = outer\<rparr>)))"

subsection \<open>Memory-manager validation\<close>

definition nv_gpu_transition_validate_pmm ::
  "nv_gpu_pmm_snapshot_t \<Rightarrow> nv_gpu_pmm_snapshot_t \<Rightarrow> nv_gpu_pmm_request_t \<Rightarrow>
     nv_gpu_transition_result" where
  "nv_gpu_transition_validate_pmm expected observed request =
     (if owner_id expected \<noteq> owner_id observed \<or> root_id expected \<noteq> root_id observed
        then NV_GPU_TRANSITION_REJECT_IDENTITY
      else if generation expected \<noteq> generation observed \<or> source expected \<noteq> source observed
        then NV_GPU_TRANSITION_NOOP_STALE
      else if pmm_conflict request then NV_GPU_TRANSITION_NOOP_CONFLICT
      else if \<not> pmm_attempted request then NV_GPU_TRANSITION_NOOP_DEFAULT
      else if (pmm_destination request \<noteq> NV_GPU_PMM_DESTINATION_USED \<and>
               pmm_destination request \<noteq> NV_GPU_PMM_DESTINATION_UNUSED) \<or>
              (pmm_position request \<noteq> NV_GPU_PMM_POSITION_HEAD \<and>
               pmm_position request \<noteq> NV_GPU_PMM_POSITION_TAIL)
        then NV_GPU_TRANSITION_REJECT_RANGE
      else NV_GPU_TRANSITION_APPLY)"

definition nv_gpu_transition_pmm_access_effect ::
  "NvS64 \<Rightarrow> nv_gpu_transition_result \<Rightarrow> nv_gpu_pmm_access_effect" where
  "nv_gpu_transition_pmm_access_effect raw_action request_result =
     (if sint raw_action \<noteq> NV_GPU_TRANSITION_ACTION_DEFAULT \<and>
         sint raw_action \<noteq> NV_GPU_TRANSITION_ACTION_BYPASS
        then NV_GPU_PMM_ACCESS_PRESERVE
      else if request_result = NV_GPU_TRANSITION_APPLY then NV_GPU_PMM_ACCESS_COMMIT
      else if request_result = NV_GPU_TRANSITION_NOOP_DEFAULT \<and>
              sint raw_action = NV_GPU_TRANSITION_ACTION_DEFAULT
        then NV_GPU_PMM_ACCESS_NATIVE
      else NV_GPU_PMM_ACCESS_PRESERVE)"

definition nv_gpu_transition_pmm_activate_effect ::
  "nv_gpu_transition_result \<Rightarrow> nv_gpu_pmm_access_effect" where
  "nv_gpu_transition_pmm_activate_effect request_result =
     (if request_result = NV_GPU_TRANSITION_APPLY then NV_GPU_PMM_ACCESS_COMMIT
      else NV_GPU_PMM_ACCESS_PRESERVE)"

subsection \<open>Timeslice control\<close>

abbreviation (input) NV_GPU_TIMESLICE_CONTROL_PHASE :: NvU32 where
  "NV_GPU_TIMESLICE_CONTROL_PHASE \<equiv> 1"

abbreviation (input) NV_GPU_TIMESLICE_CONTROL_MAX_US :: NvU64 where
  "NV_GPU_TIMESLICE_CONTROL_MAX_US \<equiv> 1000000"

record nv_gpu_timeslice_control_ctx =
  tc_tsg_id :: NvU64
  requested_timeslice_us :: NvU64
  tc_engine_type :: NvU32
  tc_runlist_id :: NvU32
  hclient :: NvU32
  htsg :: NvU32
  tc_gpu_instance :: NvU32
  tc_phase :: NvU32

record nv_gpu_timeslice_control_decision_ctx =
  tc_input :: nv_gpu_timeslice_control_ctx
  tc_request :: nv_gpu_transition_u64_request_t

definition nv_gpu_timeslice_control_eligible :: "NvU64 \<Rightarrow> NvU64 \<Rightarrow> bool" where
  "nv_gpu_timeslice_control_eligible v minimum \<longleftrightarrow>
     v \<ge> 1 \<and> v \<ge> minimum \<and> v \<le> NV_GPU_TIMESLICE_CONTROL_MAX_US"

definition nv_gpu_timeslice_control_record ::
  "nv_gpu_timeslice_control_decision_ctx \<Rightarrow> NvU64 \<Rightarrow>
     nv_gpu_transition_result \<times> nv_gpu_timeslice_control_decision_ctx" where
  "nv_gpu_timeslice_control_record decision v =
     (case nv_gpu_transition_record_u64 (tc_request decision) v of (result, request) \<Rightarrow>
        (if result = NV_GPU_TRANSITION_APPLY \<and> \<not> nv_gpu_timeslice_control_eligible v 0
           then NV_GPU_TRANSITION_REJECT_RANGE
         else result,
         decision\<lparr>tc_request := request\<rparr>))"

definition nv_gpu_timeslice_control_validate ::
  "nv_gpu_timeslice_control_ctx \<Rightarrow> nv_gpu_timeslice_control_ctx \<Rightarrow> NvU64 \<Rightarrow>
     nv_gpu_transition_u64_request_t \<Rightarrow> nv_gpu_transition_result \<times> NvU64" where
  "nv_gpu_timeslice_control_validate expected observed minimum request =
     (let effective = requested_timeslice_us expected
      in if tc_tsg_id expected \<noteq> tc_tsg_id observed \<or>
            tc_runlist_id expected \<noteq> tc_runlist_id observed \<or>
            tc_engine_type expected \<noteq> tc_engine_type observed \<or>
            hclient expected \<noteq> hclient observed \<or>
            htsg expected \<noteq> htsg observed \<or>
            tc_gpu_instance expected \<noteq> tc_gpu_instance observed \<or>
            requested_timeslice_us expected \<noteq> requested_timeslice_us observed \<or>
            hclient expected = 0 \<or> htsg expected = 0
           then (NV_GPU_TRANSITION_REJECT_IDENTITY, effective)
         else if tc_phase expected \<noteq> NV_GPU_TIMESLICE_CONTROL_PHASE \<or>
                 tc_phase expected \<noteq> tc_phase observed
           then (NV_GPU_TRANSITION_NOOP_STALE, effective)
         else if \<not> u64_attempted request then (NV_GPU_TRANSITION_NOOP_DEFAULT, effective)
         else if u64_conflict request then (NV_GPU_TRANSITION_NOOP_CONFLICT, effective)
         else if \<not> nv_gpu_timeslice_control_eligible (requested_timeslice_us expected) minimum \<or>
                 \<not> nv_gpu_timeslice_control_eligible (u64_value request) minimum
           then (NV_GPU_TRANSITION_REJECT_RANGE, effective)
         else (NV_GPU_TRANSITION_APPLY, u64_value request))"

subsection \<open>The request protocol\<close>

text \<open>
  What every recording function promises its callers. \<open>att\<close> and \<open>conf\<close> read the two
  flags of a request record and \<open>val\<close> the value that a first request stores.
\<close>

locale request_protocol =
  fixes rec :: "'r \<Rightarrow> 'v \<Rightarrow> nv_gpu_transition_result \<times> 'r"
    and att :: "'r \<Rightarrow> bool"
    and conf :: "'r \<Rightarrow> bool"
    and val :: "'r \<Rightarrow> 'v"
  assumes first_result: "\<not> att r \<Longrightarrow> fst (rec r v) = NV_GPU_TRANSITION_APPLY"
    and first_att: "\<not> att r \<Longrightarrow> att (snd (rec r v))"
    and first_conf: "\<not> att r \<Longrightarrow> conf (snd (rec r v)) = conf r"
    and first_val: "\<not> att r \<Longrightarrow> val (snd (rec r v)) = v"
    and repeated: "att r \<Longrightarrow> \<not> conf r \<Longrightarrow> val r = v \<Longrightarrow> rec r v = (NV_GPU_TRANSITION_NOOP_REPEAT, r)"
    and clash_result:
      "att r \<Longrightarrow> \<not> conf r \<Longrightarrow> val r \<noteq> v \<Longrightarrow> fst (rec r v) = NV_GPU_TRANSITION_NOOP_CONFLICT"
    and clash_state:
      "att r \<Longrightarrow> \<not> conf r \<Longrightarrow> val r \<noteq> v \<Longrightarrow>
         att (snd (rec r v)) \<and> conf (snd (rec r v)) \<and> val (snd (rec r v)) = val r"
    and stuck: "att r \<Longrightarrow> conf r \<Longrightarrow> rec r v = (NV_GPU_TRANSITION_NOOP_CONFLICT, r)"
begin

lemma record_att: "att (snd (rec r v))"
  by (cases "att r"; cases "conf r"; cases "val r = v")
    (simp_all add: first_att repeated clash_state stuck)

lemma record_keeps_val: "att r \<Longrightarrow> val (snd (rec r v)) = val r"
  by (cases "conf r"; cases "val r = v") (simp_all add: repeated clash_state stuck)

lemma record_conf: "att r \<Longrightarrow> conf (snd (rec r v)) \<longleftrightarrow> conf r \<or> val r \<noteq> v"
  by (cases "conf r"; cases "val r = v") (simp_all add: repeated clash_state stuck)

lemma fold_attempted:
  assumes "att r"
  shows "att (fold (\<lambda>v r. snd (rec r v)) vs r)
    \<and> val (fold (\<lambda>v r. snd (rec r v)) vs r) = val r
    \<and> (conf (fold (\<lambda>v r. snd (rec r v)) vs r) \<longleftrightarrow> conf r \<or> (\<exists>v \<in> set vs. v \<noteq> val r))"
  using assms
proof (induction vs arbitrary: r)
  case Nil
  then show ?case by simp
next
  case (Cons v vs)
  let ?r = "snd (rec r v)"
  have "att ?r" by (rule record_att)
  moreover have "val ?r = val r" using Cons.prems by (rule record_keeps_val)
  moreover have "conf ?r \<longleftrightarrow> conf r \<or> val r \<noteq> v" using Cons.prems by (rule record_conf)
  ultimately show ?case using Cons.IH [of ?r] by auto
qed

text \<open>
  The state after any sequence of requests from a fresh record: nothing is attempted exactly if
  there was no request, the first value is the recorded one, and there is a conflict exactly if
  some request differs from the first.
\<close>

lemma fold_fresh:
  assumes "\<not> att r" and "\<not> conf r"
  shows "fold (\<lambda>v r. snd (rec r v)) (v # vs) r = r' \<Longrightarrow>
    att r' \<and> val r' = v \<and> (conf r' \<longleftrightarrow> (\<exists>w \<in> set vs. w \<noteq> v))"
  using fold_attempted [OF first_att [OF assms(1), of v], of vs] assms
  by (auto simp: first_val first_conf)

lemma fold_conf_sticky:
  assumes "att r" and "conf r"
  shows "fold (\<lambda>v r. snd (rec r v)) vs r = r"
  using assms by (induction vs) (simp_all add: stuck)

end

interpretation rec_u64: request_protocol nv_gpu_transition_record_u64 u64_attempted u64_conflict u64_value
  by unfold_locales (auto simp: nv_gpu_transition_record_u64_def)

interpretation rec_u32: request_protocol nv_gpu_transition_record_u32 u32_attempted u32_conflict u32_value
  by unfold_locales (auto simp: nv_gpu_transition_record_u32_def)

interpretation rec_prefetch: request_protocol
  "\<lambda>d (first, outer). nv_gpu_transition_record_prefetch d first outer" pf_attempted pf_conflict
  "\<lambda>d. (pf_first d, pf_outer d)"
  by unfold_locales (auto simp: nv_gpu_transition_record_prefetch_def split: prod.splits)

interpretation rec_pmm: request_protocol
  "\<lambda>r (destination, position). nv_gpu_transition_record_pmm r destination position"
  pmm_attempted pmm_conflict "\<lambda>r. (pmm_destination r, pmm_position r)"
  by unfold_locales (auto simp: nv_gpu_transition_record_pmm_def split: prod.splits)

subsection \<open>Lemmas\<close>

lemma request_init_simps [simp]:
  "\<not> u64_attempted u64_request_init" "\<not> u64_conflict u64_request_init"
  "\<not> u32_attempted u32_request_init" "\<not> u32_conflict u32_request_init"
  "\<not> pf_attempted prefetch_decision_init" "\<not> pf_conflict prefetch_decision_init"
  "\<not> pmm_attempted pmm_request_init" "\<not> pmm_conflict pmm_request_init"
  by (simp_all add: request_defs)

lemma sint_small_action:
  fixes a :: NvS64
  assumes "0 \<le> sint a" and "sint a \<le> 2"
  shows "uint (ucast a :: NvU32) = sint a"
proof -
  have "sint a = 0 \<or> sint a = 1 \<or> sint a = 2" using assms by linarith
  then have "a = 0 \<or> a = 1 \<or> a = 2"
    by (metis of_int_0 of_int_1 of_int_numeral of_int_sint scast_id)
  then show ?thesis by auto
qed

text \<open>The effects of the two prefetch callbacks as tables over the signed action.\<close>

lemma prefetch_initial_effect_eq:
  "nv_gpu_transition_prefetch_initial_effect raw_action region_result =
     (if sint raw_action = 2 then NV_GPU_PREFETCH_INITIAL_ITERATE
      else if sint raw_action = 1 \<and> region_result = NV_GPU_TRANSITION_APPLY
        then NV_GPU_PREFETCH_INITIAL_BYPASS
      else NV_GPU_PREFETCH_INITIAL_NATIVE)"
  by (auto simp: nv_gpu_transition_prefetch_initial_effect_def
      nv_gpu_transition_validate_initial_action_def sint_small_action)

lemma prefetch_iterator_effect_eq:
  "nv_gpu_transition_prefetch_iterator_effect raw_action region_result =
     (if sint raw_action = 1 \<and> region_result = NV_GPU_TRANSITION_APPLY
        then NV_GPU_PREFETCH_ITERATOR_COMMIT
      else NV_GPU_PREFETCH_ITERATOR_IGNORE)"
  by (auto simp: nv_gpu_transition_prefetch_iterator_effect_def
      nv_gpu_transition_validate_iterator_action_def sint_small_action)

lemma validate_region_apply_iff:
  "nv_gpu_transition_validate_region d mf mo bo ty = (NV_GPU_TRANSITION_APPLY, r) \<longleftrightarrow>
     pf_attempted d \<and> \<not> pf_conflict d \<and>
     (if pf_first d = 0 \<and> pf_outer d = 0 then r = transition_region_zero
      else mf \<le> pf_first d \<and> pf_first d < pf_outer d \<and> pf_outer d \<le> mo \<and> mo \<le> bo \<and> mo \<le> ty \<and>
           r = \<lparr>tr_first = pf_first d, tr_outer = pf_outer d\<rparr>)"
  by (auto simp: nv_gpu_transition_validate_region_def)

lemma validate_region_not_apply:
  assumes "nv_gpu_transition_validate_region d mf mo bo ty = (result, r)"
    and "result \<noteq> NV_GPU_TRANSITION_APPLY"
  shows "r = transition_region_zero"
  using assms by (auto simp: nv_gpu_transition_validate_region_def split: if_splits)

text \<open>
  The endpoint translation computes over unbounded integers: the guard before the addition is
  exactly the overflow condition.
\<close>

lemma translate_endpoint_eq:
  "nv_gpu_transition_translate_endpoint mf rel off mo bo ty =
     (let e = uint mf + uint rel - uint off
      in if uint mf + uint rel < 2 ^ 64 \<and> uint mf \<le> e \<and> e \<le> uint mo \<and> e \<le> uint bo \<and> e \<le> uint ty
           then (NV_GPU_TRANSITION_APPLY, word_of_int e)
         else (NV_GPU_TRANSITION_REJECT_RANGE, 0))"
proof -
  have ovf: "rel > - 1 - mf \<longleftrightarrow> 2 ^ 64 \<le> uint mf + uint rel"
    using word_add_overflow_iff [of mf rel] by simp
  show ?thesis
  proof (cases "uint mf + uint rel < 2 ^ 64")
    case False
    then show ?thesis using ovf by (simp add: nv_gpu_transition_translate_endpoint_def)
  next
    case True
    then have sum: "uint (mf + rel) = uint mf + uint rel" by (simp add: uint_plus_if')
    show ?thesis
    proof (cases "uint off \<le> uint mf + uint rel")
      case False
      then have "\<not> uint off \<le> uint rel" using uint_ge_0 [of mf] by linarith
      then show ?thesis using False True ovf sum
        by (simp add: nv_gpu_transition_translate_endpoint_def word_less_def)
    next
      case off: True
      then have diff: "uint (mf + rel - off) = uint mf + uint rel - uint off"
        using sum by (simp add: uint_sub_if' [of "mf + rel" off])
      have "mf + rel - off = word_of_int (uint mf + uint rel - uint off)"
        by (metis diff word_of_int_uint)
      then show ?thesis using True off ovf sum diff
        by (simp add: nv_gpu_transition_translate_endpoint_def word_less_def not_less)
    qed
  qed
qed

lemma translate_region_apply:
  assumes "nv_gpu_transition_translate_region mf rf ro off mo bo ty = (NV_GPU_TRANSITION_APPLY, r)"
  shows "mf \<le> tr_first r \<and> tr_first r < tr_outer r \<and> tr_outer r \<le> mo \<and> tr_outer r \<le> bo \<and> tr_outer r \<le> ty
    \<and> uint (tr_first r) = uint mf + uint rf - uint off
    \<and> uint (tr_outer r) = uint mf + uint ro - uint off"
proof -
  have endpoint: "mf \<le> e \<and> e \<le> mo \<and> e \<le> bo \<and> e \<le> ty \<and> uint e = uint mf + uint x - uint off"
    if "nv_gpu_transition_translate_endpoint mf x off mo bo ty = (NV_GPU_TRANSITION_APPLY, e)" for x e
  proof -
    let ?e = "uint mf + uint x - uint off"
    from that have e: "e = word_of_int ?e" and lo: "uint mf \<le> ?e" and hi: "?e \<le> uint mo"
      "?e \<le> uint bo" "?e \<le> uint ty"
      by (auto simp: translate_endpoint_eq Let_def split: if_splits)
    have "0 \<le> ?e" using lo uint_ge_0 [of mf] by linarith
    moreover have "?e < 2 ^ 64" using hi(1) uint_lt2p [of mo] by simp
    moreover have "uint e = ?e mod 2 ^ LENGTH(64)" unfolding e by (rule uint_word_of_int)
    ultimately have "uint e = ?e" by simp
    then show ?thesis using lo hi by (simp add: word_le_def)
  qed
  obtain first outer where
    "nv_gpu_transition_translate_endpoint mf rf off mo bo ty = (NV_GPU_TRANSITION_APPLY, first)"
    "nv_gpu_transition_translate_endpoint mf ro off mo bo ty = (NV_GPU_TRANSITION_APPLY, outer)"
    "first < outer" "r = \<lparr>tr_first = first, tr_outer = outer\<rparr>"
    using assms
    by (auto simp: nv_gpu_transition_translate_region_def not_le split: prod.splits if_splits)
  then show ?thesis using endpoint by simp
qed

text \<open>The same for regions.\<close>

lemma translate_region_eq:
  "nv_gpu_transition_translate_region mf rf ro off mo bo ty =
     (let a = uint mf + uint rf - uint off; b = uint mf + uint ro - uint off;
          limit = min (uint mo) (min (uint bo) (uint ty))
      in if uint mf + uint rf < 2 ^ 64 \<and> uint mf + uint ro < 2 ^ 64 \<and>
            uint mf \<le> a \<and> a < b \<and> b \<le> limit
           then (NV_GPU_TRANSITION_APPLY, \<lparr>tr_first = word_of_int a, tr_outer = word_of_int b\<rparr>)
         else (NV_GPU_TRANSITION_REJECT_RANGE, transition_region_zero))"
proof -
  let ?a = "uint mf + uint rf - uint off" and ?b = "uint mf + uint ro - uint off"
  have less: "(word_of_int x :: NvU64) < word_of_int y \<longleftrightarrow> x < y"
    if "0 \<le> x" "x < 2 ^ 64" "0 \<le> y" "y < 2 ^ 64" for x y
    using that by (simp add: word_less_def uint_word_of_int)
  have mo: "uint mo < 2 ^ 64" using uint_lt2p [of mo] by simp
  have ordered: "(word_of_int ?a :: NvU64) < word_of_int ?b \<longleftrightarrow> ?a < ?b"
    if "uint mf \<le> ?a" "?a \<le> uint mo" "uint mf \<le> ?b" "?b \<le> uint mo"
  proof (rule less)
    show "0 \<le> ?a" "0 \<le> ?b" using that uint_ge_0 [of mf] by linarith+
    show "?a < 2 ^ 64" "?b < 2 ^ 64" using that mo by linarith+
  qed
  show ?thesis
    using ordered
    by (auto simp: nv_gpu_transition_translate_region_def translate_endpoint_eq transition_region_zero_def
        Let_def not_le)
qed

lemma translate_region_not_apply:
  assumes "nv_gpu_transition_translate_region mf rf ro off mo bo ty = (result, r)"
    and "result \<noteq> NV_GPU_TRANSITION_APPLY"
  shows "r = transition_region_zero"
  using assms
  by (auto simp: nv_gpu_transition_translate_region_def translate_endpoint_eq transition_region_zero_def
      Let_def split: prod.splits if_splits)

lemma validate_scheduler_timeslice:
  "timeslice_result (nv_gpu_transition_validate_scheduler e ob nt ni m ts il) =
     (if nv_gpu_transition_validate_snapshot e ob \<noteq> NV_GPU_TRANSITION_APPLY
        then nv_gpu_transition_validate_snapshot e ob
      else if u64_conflict ts then NV_GPU_TRANSITION_NOOP_CONFLICT
      else if \<not> u64_attempted ts then NV_GPU_TRANSITION_NOOP_DEFAULT
      else if u64_value ts < m then NV_GPU_TRANSITION_REJECT_RANGE
      else NV_GPU_TRANSITION_APPLY)"
  "sv_timeslice (nv_gpu_transition_validate_scheduler e ob nt ni m ts il) =
     (if timeslice_result (nv_gpu_transition_validate_scheduler e ob nt ni m ts il) =
           NV_GPU_TRANSITION_APPLY
        then u64_value ts else nt)"
  by (simp_all add: nv_gpu_transition_validate_scheduler_def Let_def)

lemma validate_scheduler_interleave:
  "interleave_result (nv_gpu_transition_validate_scheduler e ob nt ni m ts il) =
     (if nv_gpu_transition_validate_snapshot e ob \<noteq> NV_GPU_TRANSITION_APPLY
        then nv_gpu_transition_validate_snapshot e ob
      else if u32_conflict il then NV_GPU_TRANSITION_NOOP_CONFLICT
      else if \<not> u32_attempted il then NV_GPU_TRANSITION_NOOP_DEFAULT
      else if u32_value il > 2 then NV_GPU_TRANSITION_REJECT_RANGE
      else NV_GPU_TRANSITION_APPLY)"
  "sv_interleave (nv_gpu_transition_validate_scheduler e ob nt ni m ts il) =
     (if interleave_result (nv_gpu_transition_validate_scheduler e ob nt ni m ts il) =
           NV_GPU_TRANSITION_APPLY
        then u32_value il else ni)"
  by (simp_all add: nv_gpu_transition_validate_scheduler_def Let_def)

lemma validate_snapshot_refl [simp]:
  "nv_gpu_transition_validate_snapshot s s = NV_GPU_TRANSITION_APPLY"
  by (simp add: nv_gpu_transition_validate_snapshot_def)

lemma validate_pmm_apply_iff:
  "nv_gpu_transition_validate_pmm e ob req = NV_GPU_TRANSITION_APPLY \<longleftrightarrow>
     owner_id e = owner_id ob \<and> root_id e = root_id ob \<and>
     generation e = generation ob \<and> source e = source ob \<and>
     pmm_attempted req \<and> \<not> pmm_conflict req \<and>
     pmm_destination req \<in> {NV_GPU_PMM_DESTINATION_USED, NV_GPU_PMM_DESTINATION_UNUSED} \<and>
     pmm_position req \<in> {NV_GPU_PMM_POSITION_HEAD, NV_GPU_PMM_POSITION_TAIL}"
  by (auto simp: nv_gpu_transition_validate_pmm_def)

lemma timeslice_control_validate_apply:
  assumes "nv_gpu_timeslice_control_validate e ob m req = (NV_GPU_TRANSITION_APPLY, v)"
  shows "e = ob \<and> v = u64_value req \<and> u64_attempted req \<and> \<not> u64_conflict req \<and>
    nv_gpu_timeslice_control_eligible v m \<and>
    nv_gpu_timeslice_control_eligible (requested_timeslice_us e) m"
  using assms
  by (auto simp: nv_gpu_timeslice_control_validate_def Let_def split: if_splits
      intro: nv_gpu_timeslice_control_ctx.equality)

lemma timeslice_control_validate_not_apply:
  assumes "nv_gpu_timeslice_control_validate e ob m req = (result, v)"
    and "result \<noteq> NV_GPU_TRANSITION_APPLY"
  shows "v = requested_timeslice_us e"
  using assms by (auto simp: nv_gpu_timeslice_control_validate_def Let_def split: if_splits)

subsection \<open>Properties\<close>

text \<open>
  Whatever a policy requested, the region that the prefetch validation hands out is either empty
  or a non-empty region inside the maximum region, the block and the representable range, and it is
  non-empty only when the validation accepted the request.
\<close>

lemma validate_region_contained:
  "case nv_gpu_transition_validate_region d mf mo bo ty of (result, r) \<Rightarrow>
     r = transition_region_zero \<or>
     result = NV_GPU_TRANSITION_APPLY \<and> mf \<le> tr_first r \<and> tr_first r < tr_outer r \<and>
       tr_outer r \<le> mo \<and> tr_outer r \<le> bo \<and> tr_outer r \<le> ty"
  by (auto simp: nv_gpu_transition_validate_region_def split: prod.splits)

text \<open>
  C14: The translation of a region relative to the bitmap tree computes over the integers: it succeeds
  exactly if both sums fit into 64 bits and the translated endpoints are ordered and within all four
  bounds, the endpoints are then the exact ones, and otherwise the region is the empty one.
\<close>

theorem translate_region_exact:
  "nv_gpu_transition_translate_region mf rf ro off mo bo ty =
     (let a = uint mf + uint rf - uint off; b = uint mf + uint ro - uint off;
          limit = min (uint mo) (min (uint bo) (uint ty))
      in if uint mf + uint rf < 2 ^ 64 \<and> uint mf + uint ro < 2 ^ 64 \<and>
            uint mf \<le> a \<and> a < b \<and> b \<le> limit
           then (NV_GPU_TRANSITION_APPLY, \<lparr>tr_first = word_of_int a, tr_outer = word_of_int b\<rparr>)
         else (NV_GPU_TRANSITION_REJECT_RANGE, transition_region_zero))"
  by (rule translate_region_eq)

text \<open>
  C15: A request record remembers a run of requests faithfully: after any non-empty sequence of
  requests from a fresh record, the value is the first one requested and the conflict flag says
  exactly whether some later request differed.
\<close>

theorem record_u64_first_wins:
  "let r = fold (\<lambda>v r. snd (nv_gpu_transition_record_u64 r v)) (v # vs) u64_request_init
   in u64_attempted r \<and> u64_value r = v \<and> (u64_conflict r \<longleftrightarrow> (\<exists>w. w \<in> set vs \<and> w \<noteq> v))"
  using rec_u64.fold_fresh [OF _ _ refl, of u64_request_init v vs] by (auto simp: Let_def)

end
