(* ===== verification/Struct_Ops.thy ===== *)
theory Struct_Ops
  imports Prelude
begin

section \<open>The contract of a policy slot\<close>

text \<open>
  Both modules keep at most one policy, in a pointer that registration fills and unregistration
  clears with an atomic compare-and-exchange. The locale \<open>struct_ops_slot\<close> states what the two
  operations promise; the scheduler module and the memory module interpret it with their own.
  Since each operation is one atomic exchange, an interleaving of several clients is a sequence of
  events, and the locale's lemma speaks of every such sequence.
\<close>

abbreviation (input) EIO :: int where "EIO \<equiv> 5"
abbreviation (input) ENOMEM :: int where "ENOMEM \<equiv> 12"
abbreviation (input) EACCES :: int where "EACCES \<equiv> 13"
abbreviation (input) EFAULT :: int where "EFAULT \<equiv> 14"
abbreviation (input) EEXIST :: int where "EEXIST \<equiv> 17"
abbreviation (input) EINVAL :: int where "EINVAL \<equiv> 22"

datatype 'p slot_event = Reg 'p | Unreg 'p

text \<open>
  The slot and the clients that hold a registration: those whose last event was a registration
  that gave 0.
\<close>

fun slot_run ::
  "('p \<Rightarrow> 'p option \<Rightarrow> int \<times> 'p option) \<Rightarrow> ('p \<Rightarrow> 'p option \<Rightarrow> 'p option) \<Rightarrow>
     'p slot_event list \<Rightarrow> 'p option \<times> 'p set \<Rightarrow> 'p option \<times> 'p set" where
  "slot_run reg unreg [] st = st"
| "slot_run reg unreg (Reg p # es) (slot, holders) =
     (case reg p slot of (ret, slot') \<Rightarrow>
        slot_run reg unreg es (slot', if ret = 0 then insert p holders else holders))"
| "slot_run reg unreg (Unreg p # es) (slot, holders) =
     slot_run reg unreg es (unreg p slot, holders - {p})"

locale struct_ops_slot =
  fixes reg :: "'p \<Rightarrow> 'p option \<Rightarrow> int \<times> 'p option"
    and unreg :: "'p \<Rightarrow> 'p option \<Rightarrow> 'p option"
  assumes reg_free: "reg p None = (0, Some p)"
    and reg_taken: "reg p (Some q) = (- EEXIST, Some q)"
    and unreg_own: "unreg p (Some p) = None"
    and unreg_other: "s \<noteq> Some p \<Longrightarrow> unreg p s = s"
begin

lemma slot_is_holder:
  "slot_run reg unreg es (slot, set_option slot) = (slot', holders') \<Longrightarrow> holders' = set_option slot'"
proof (induction es arbitrary: slot)
  case Nil
  then show ?case by auto
next
  case (Cons e es)
  show ?case
  proof (cases e)
    case (Reg p)
    with Cons.prems have "slot_run reg unreg es (case slot of None \<Rightarrow> Some p | Some q \<Rightarrow> Some q,
        set_option (case slot of None \<Rightarrow> Some p | Some q \<Rightarrow> Some q)) = (slot', holders')"
      by (cases slot) (simp_all add: reg_free reg_taken)
    then show ?thesis by (rule Cons.IH)
  next
    case (Unreg p)
    with Cons.prems have "slot_run reg unreg es (if slot = Some p then None else slot,
        set_option (if slot = Some p then None else slot)) = (slot', holders')"
      by (cases slot) (auto simp: unreg_own unreg_other split: if_splits)
    then show ?thesis by (rule Cons.IH)
  qed
qed

lemma at_most_one_holder:
  assumes "slot_run reg unreg es (None, {}) = (slot, holders)"
  shows "holders = set_option slot" and "card holders \<le> 1"
proof -
  show "holders = set_option slot" using slot_is_holder [of es None] assms by simp
  then show "card holders \<le> 1" by (cases slot) simp_all
qed

end

end
