(* ===== verification/Sched_Hooks.thy ===== *)
theory Sched_Hooks
  imports Transition_Validator Struct_Ops
begin

section \<open>Scheduler policy hooks\<close>

text \<open>
  The model of \<^verbatim>\<open>kernel-open/nvidia/nv-gpu-sched-hooks.c\<close>: the slot that holds the one
  registered policy, the kernel functions a policy may call, and the hooks through which the
  resource manager consults it.

  A policy callback is a program of the BPF virtual machine that the verifier has accepted: it
  reads its context, calls kernel functions, sees their results, and ends. It is modelled as the
  tree of its interactions, so that every choice it can make from the values it sees is covered,
  and a callback that is not set (a null member of the operations table) is \<open>None\<close>.
\<close>

subsection \<open>Contexts\<close>

record nv_gpu_bind_ctx =
  bind_tsg_id :: NvU64
  bind_runlist_id :: NvU32
  channel_count :: NvU32
  bind_timeslice_us :: NvU64
  interleave_level :: NvU32
  allow :: NvU32

record nv_gpu_token_request_ctx =
  tok_channel_id :: NvU32
  tok_tsg_id :: NvU64
  tok_token :: NvU32

record nv_gpu_task_destroy_ctx =
  td_tsg_id :: NvU64
  td_runlist_id :: NvU32
  td_engine_type :: NvU32

subsection \<open>Policies\<close>

datatype init_policy =
    Init_Return int
  | Set_Timeslice NvU64 "int \<Rightarrow> init_policy"
  | Set_Interleave NvU32 "int \<Rightarrow> init_policy"

datatype bind_policy =
    Bind_Return int
  | Reject_Bind bind_policy

datatype control_policy =
    Control_Return int
  | Override_Timeslice NvU64 "int \<Rightarrow> control_policy"

record nv_gpu_sched_ops =
  on_task_init :: "(nv_gpu_task_init_ctx \<Rightarrow> init_policy) option"
  on_bind :: "(nv_gpu_bind_ctx \<Rightarrow> bind_policy) option"
  on_task_destroy :: "(nv_gpu_task_destroy_ctx \<Rightarrow> int) option"
  on_timeslice_control :: "(nv_gpu_timeslice_control_ctx \<Rightarrow> control_policy) option"

text \<open>
  \<^verbatim>\<open>nv_gpu_sched_bpf_ops\<close> is a pointer: \<open>None\<close> is null. What a pointer
  refers to is given by a function from addresses to operations tables.
\<close>

type_synonym sched_ops_slot = "NvU64 option"
type_synonym sched_ops_mem = "NvU64 \<Rightarrow> nv_gpu_sched_ops"

subsection \<open>Kernel functions callable from a policy\<close>

definition bpf_nv_gpu_override_timeslice ::
  "nv_gpu_timeslice_control_decision_ctx option \<Rightarrow> NvU64 \<Rightarrow>
     int \<times> nv_gpu_timeslice_control_decision_ctx option" where
  "bpf_nv_gpu_override_timeslice ctx timeslice_us =
     (case ctx of
        None \<Rightarrow> (transition_code NV_GPU_TRANSITION_REJECT_IDENTITY, None)
      | Some decision \<Rightarrow>
          (case nv_gpu_timeslice_control_record decision timeslice_us of (result, decision) \<Rightarrow>
             (transition_code result, Some decision)))"

definition bpf_nv_gpu_set_timeslice ::
  "nv_gpu_task_init_decision_ctx option \<Rightarrow> NvU64 \<Rightarrow> int \<times> nv_gpu_task_init_decision_ctx option" where
  "bpf_nv_gpu_set_timeslice ctx timeslice_us =
     (case ctx of
        None \<Rightarrow> (transition_code NV_GPU_TRANSITION_REJECT_IDENTITY, None)
      | Some decision \<Rightarrow>
          (case nv_gpu_transition_record_u64 (timeslice_request decision) timeslice_us of
             (result, request) \<Rightarrow>
               (transition_code result, Some (decision\<lparr>timeslice_request := request\<rparr>))))"

definition bpf_nv_gpu_set_interleave ::
  "nv_gpu_task_init_decision_ctx option \<Rightarrow> NvU32 \<Rightarrow> int \<times> nv_gpu_task_init_decision_ctx option" where
  "bpf_nv_gpu_set_interleave ctx level =
     (case ctx of
        None \<Rightarrow> (transition_code NV_GPU_TRANSITION_REJECT_IDENTITY, None)
      | Some decision \<Rightarrow>
          (case nv_gpu_transition_record_u32 (interleave_request decision) level of
             (result, request) \<Rightarrow>
               (transition_code result, Some (decision\<lparr>interleave_request := request\<rparr>))))"

definition bpf_nv_gpu_reject_bind :: "nv_gpu_bind_ctx option \<Rightarrow> nv_gpu_bind_ctx option" where
  "bpf_nv_gpu_reject_bind ctx = map_option (\<lambda>c. c\<lparr>allow := 0\<rparr>) ctx"

text \<open>
  Preemption from a sleepable policy. The allocation of the driver stack and the resource
  manager's control call are arguments: the first gives 0 on success, the second the status word.
\<close>

record nv_preempt_control =
  pc_hClient :: NvU32
  pc_hObject :: NvU32
  pc_cmd :: NvU32
  pc_bWait :: bool
  pc_bManualTimeout :: bool
  pc_timeoutUs :: NvU32
  pc_kernel_privilege :: bool
  pc_kernel_params :: bool

definition nv_gpu_sched_do_preempt ::
  "(nv_preempt_control \<Rightarrow> NvU32) \<Rightarrow> NvU32 \<Rightarrow> NvU32 \<Rightarrow> NvU32" where
  "nv_gpu_sched_do_preempt control hClient hTsg =
     control \<lparr>pc_hClient = hClient, pc_hObject = hTsg, pc_cmd = 0xa06c0105,
              pc_bWait = True, pc_bManualTimeout = True, pc_timeoutUs = 100000,
              pc_kernel_privilege = True, pc_kernel_params = True\<rparr>"

definition bpf_nv_gpu_preempt_tsg ::
  "int \<Rightarrow> (nv_preempt_control \<Rightarrow> NvU32) \<Rightarrow> NvU32 \<Rightarrow> NvU32 \<Rightarrow> int" where
  "bpf_nv_gpu_preempt_tsg alloc_stack control hClient hTsg =
     (if hClient = 0 \<or> hTsg = 0 then - EINVAL
      else if alloc_stack \<noteq> 0 then - ENOMEM
      else if nv_gpu_sched_do_preempt control hClient hTsg = 0 then 0
      else - EIO)"

subsection \<open>Running a policy\<close>

primrec run_init_policy ::
  "init_policy \<Rightarrow> nv_gpu_task_init_decision_ctx option \<Rightarrow> int \<times> nv_gpu_task_init_decision_ctx option" where
  "run_init_policy (Init_Return r) d = (r, d)"
| "run_init_policy (Set_Timeslice v k) d =
     run_init_policy (k (fst (bpf_nv_gpu_set_timeslice d v))) (snd (bpf_nv_gpu_set_timeslice d v))"
| "run_init_policy (Set_Interleave v k) d =
     run_init_policy (k (fst (bpf_nv_gpu_set_interleave d v))) (snd (bpf_nv_gpu_set_interleave d v))"

primrec run_bind_policy :: "bind_policy \<Rightarrow> nv_gpu_bind_ctx option \<Rightarrow> int \<times> nv_gpu_bind_ctx option" where
  "run_bind_policy (Bind_Return r) c = (r, c)"
| "run_bind_policy (Reject_Bind p) c = run_bind_policy p (bpf_nv_gpu_reject_bind c)"

primrec run_control_policy ::
  "control_policy \<Rightarrow> nv_gpu_timeslice_control_decision_ctx option \<Rightarrow>
     int \<times> nv_gpu_timeslice_control_decision_ctx option" where
  "run_control_policy (Control_Return r) d = (r, d)"
| "run_control_policy (Override_Timeslice v k) d =
     run_control_policy (k (fst (bpf_nv_gpu_override_timeslice d v)))
       (snd (bpf_nv_gpu_override_timeslice d v))"

subsection \<open>Verifier callbacks\<close>

datatype bpf_access_type = BPF_READ | BPF_WRITE

definition nv_gpu_sched_ops_is_valid_access ::
  "(int \<Rightarrow> int \<Rightarrow> bpf_access_type \<Rightarrow> bool) \<Rightarrow> int \<Rightarrow> int \<Rightarrow> bpf_access_type \<Rightarrow> bool" where
  "nv_gpu_sched_ops_is_valid_access bpf_tracing_btf_ctx_access off sz type =
     (if type = BPF_WRITE then False else bpf_tracing_btf_ctx_access off sz type)"

definition nv_gpu_sched_ops_btf_struct_access :: "int \<Rightarrow> int \<Rightarrow> int" where
  "nv_gpu_sched_ops_btf_struct_access off sz = - EACCES"

datatype 'p func_proto = Base_Proto 'p | Nv_Get_Current_Comm_Proto

definition nv_gpu_sched_ops_get_func_proto ::
  "(nat \<Rightarrow> 'p option) \<Rightarrow> nat \<Rightarrow> nat \<Rightarrow> 'p func_proto option" where
  "nv_gpu_sched_ops_get_func_proto bpf_base_func_proto BPF_FUNC_get_current_comm func_id =
     (case bpf_base_func_proto func_id of
        Some proto \<Rightarrow> Some (Base_Proto proto)
      | None \<Rightarrow>
          (if func_id = BPF_FUNC_get_current_comm then Some Nv_Get_Current_Comm_Proto else None))"

subsection \<open>Registration\<close>

definition nv_gpu_sched_ops_reg :: "NvU64 \<Rightarrow> sched_ops_slot \<Rightarrow> int \<times> sched_ops_slot" where
  "nv_gpu_sched_ops_reg kdata slot =
     (case cmpxchg slot None (Some kdata) of (old, slot) \<Rightarrow>
        if old \<noteq> None then (- EEXIST, slot) else (0, slot))"

definition nv_gpu_sched_ops_unreg :: "NvU64 \<Rightarrow> sched_ops_slot \<Rightarrow> sched_ops_slot" where
  "nv_gpu_sched_ops_unreg kdata slot = snd (cmpxchg slot (Some kdata) None)"

text \<open>
  Initialisation registers the two function sets and then the operations table; each registration
  is a call into the kernel that gives 0 or an error.
\<close>

definition nv_gpu_sched_struct_ops_init :: "int \<Rightarrow> int \<Rightarrow> int \<Rightarrow> int" where
  "nv_gpu_sched_struct_ops_init register_sched_kfuncs register_preempt_kfuncs register_struct_ops =
     (let ret = register_sched_kfuncs
      in if ret \<noteq> 0 then ret
         else
           (let ret = register_preempt_kfuncs
            in if ret \<noteq> 0 then ret
               else
                 (let ret = register_struct_ops
                  in if ret \<noteq> 0 then ret else 0)))"

subsection \<open>Hooks\<close>

definition nv_gpu_sched_bpf_on_task_init ::
  "sched_ops_mem \<Rightarrow> sched_ops_slot \<Rightarrow> nv_gpu_task_init_decision_ctx \<Rightarrow> nv_gpu_task_init_decision_ctx" where
  "nv_gpu_sched_bpf_on_task_init mem slot decision =
     (case slot of
        None \<Rightarrow> decision
      | Some ops \<Rightarrow>
          (case on_task_init (mem ops) of
             None \<Rightarrow> decision
           | Some callback \<Rightarrow>
               the (snd (run_init_policy (callback (ti_input decision)) (Some decision)))))"

definition nv_gpu_sched_bpf_on_bind ::
  "sched_ops_mem \<Rightarrow> sched_ops_slot \<Rightarrow> nv_gpu_bind_ctx \<Rightarrow> nv_gpu_bind_ctx" where
  "nv_gpu_sched_bpf_on_bind mem slot ctx =
     (case slot of
        None \<Rightarrow> ctx
      | Some ops \<Rightarrow>
          (case on_bind (mem ops) of
             None \<Rightarrow> ctx
           | Some callback \<Rightarrow> the (snd (run_bind_policy (callback ctx) (Some ctx)))))"

text \<open>The destroy callback cannot change the context; its result is ignored.\<close>

definition nv_gpu_sched_bpf_on_task_destroy ::
  "sched_ops_mem \<Rightarrow> sched_ops_slot \<Rightarrow> nv_gpu_task_destroy_ctx \<Rightarrow> int option" where
  "nv_gpu_sched_bpf_on_task_destroy mem slot ctx =
     (case slot of
        None \<Rightarrow> None
      | Some ops \<Rightarrow> map_option (\<lambda>callback. callback ctx) (on_task_destroy (mem ops)))"

definition nv_gpu_sched_timeslice_control ::
  "sched_ops_mem \<Rightarrow> sched_ops_slot \<Rightarrow> nv_gpu_timeslice_control_decision_ctx option \<Rightarrow>
     nv_gpu_timeslice_control_decision_ctx option" where
  "nv_gpu_sched_timeslice_control mem slot ctx =
     (case ctx of
        None \<Rightarrow> None
      | Some decision \<Rightarrow>
          (case slot of
             None \<Rightarrow> Some decision
           | Some ops \<Rightarrow>
               (case on_timeslice_control (mem ops) of
                  None \<Rightarrow> Some decision
                | Some callback \<Rightarrow>
                    snd (run_control_policy (callback (tc_input decision)) (Some decision)))))"

definition nv_gpu_sched_task_init ::
  "sched_ops_mem \<Rightarrow> sched_ops_slot \<Rightarrow> nv_gpu_task_init_decision_ctx option \<Rightarrow>
     nv_gpu_task_init_decision_ctx option" where
  "nv_gpu_sched_task_init mem slot ctx = map_option (nv_gpu_sched_bpf_on_task_init mem slot) ctx"

definition nv_gpu_sched_bind ::
  "sched_ops_mem \<Rightarrow> sched_ops_slot \<Rightarrow> nv_gpu_bind_ctx option \<Rightarrow> nv_gpu_bind_ctx option" where
  "nv_gpu_sched_bind mem slot ctx =
     map_option (\<lambda>c. nv_gpu_sched_bpf_on_bind mem slot (c\<lparr>allow := 1\<rparr>)) ctx"

definition nv_gpu_sched_task_destroy ::
  "sched_ops_mem \<Rightarrow> sched_ops_slot \<Rightarrow> nv_gpu_task_destroy_ctx option \<Rightarrow> int option" where
  "nv_gpu_sched_task_destroy mem slot ctx =
     (case ctx of None \<Rightarrow> None | Some c \<Rightarrow> nv_gpu_sched_bpf_on_task_destroy mem slot c)"

subsection \<open>The completion observation\<close>

record nv_gpu_gsp_control_complete_ctx =
  input_value :: NvU64
  gc_hClient :: NvU32
  gc_hObject :: NvU32
  gc_command :: NvU32
  input_size :: NvU32
  wire_size :: NvU32
  input_valid :: NvU32
  transport_status :: NvU32
  gsp_status :: NvU32
  gsp_status_valid :: NvU32

definition nv_gpu_gsp_observe_status ::
  "nv_gpu_gsp_control_complete_ctx \<Rightarrow> NvU32 \<Rightarrow> NvU32 \<Rightarrow> nv_gpu_gsp_control_complete_ctx" where
  "nv_gpu_gsp_observe_status observation transportStatus gspStatus =
     observation\<lparr>transport_status := transportStatus,
                 gsp_status_valid := (if transportStatus = 0 then 1 else 0),
                 gsp_status := (if transportStatus = 0 then gspStatus else - 1)\<rparr>"

subsection \<open>What a run of a policy records\<close>

text \<open>The values a run requests, in order; the results it sees depend on the decision so far.\<close>

primrec requested_timeslices ::
  "init_policy \<Rightarrow> nv_gpu_task_init_decision_ctx \<Rightarrow> NvU64 list" where
  "requested_timeslices (Init_Return r) d = []"
| "requested_timeslices (Set_Timeslice v k) d =
     v # requested_timeslices (k (fst (bpf_nv_gpu_set_timeslice (Some d) v)))
           (the (snd (bpf_nv_gpu_set_timeslice (Some d) v)))"
| "requested_timeslices (Set_Interleave v k) d =
     requested_timeslices (k (fst (bpf_nv_gpu_set_interleave (Some d) v)))
       (the (snd (bpf_nv_gpu_set_interleave (Some d) v)))"

primrec requested_interleaves ::
  "init_policy \<Rightarrow> nv_gpu_task_init_decision_ctx \<Rightarrow> NvU32 list" where
  "requested_interleaves (Init_Return r) d = []"
| "requested_interleaves (Set_Timeslice v k) d =
     requested_interleaves (k (fst (bpf_nv_gpu_set_timeslice (Some d) v)))
       (the (snd (bpf_nv_gpu_set_timeslice (Some d) v)))"
| "requested_interleaves (Set_Interleave v k) d =
     v # requested_interleaves (k (fst (bpf_nv_gpu_set_interleave (Some d) v)))
           (the (snd (bpf_nv_gpu_set_interleave (Some d) v)))"

primrec requested_overrides ::
  "control_policy \<Rightarrow> nv_gpu_timeslice_control_decision_ctx \<Rightarrow> NvU64 list" where
  "requested_overrides (Control_Return r) d = []"
| "requested_overrides (Override_Timeslice v k) d =
     v # requested_overrides (k (fst (bpf_nv_gpu_override_timeslice (Some d) v)))
           (the (snd (bpf_nv_gpu_override_timeslice (Some d) v)))"

primrec rejects_bind :: "bind_policy \<Rightarrow> bool" where
  "rejects_bind (Bind_Return r) = False"
| "rejects_bind (Reject_Bind p) = True"

subsection \<open>Registration keeps one policy\<close>

lemmas sched_reg_defs = nv_gpu_sched_ops_reg_def nv_gpu_sched_ops_unreg_def cmpxchg_def

interpretation sched_slot: struct_ops_slot nv_gpu_sched_ops_reg nv_gpu_sched_ops_unreg
  by unfold_locales (auto simp: sched_reg_defs)

subsection \<open>Lemmas on policy runs\<close>

lemma set_timeslice_Some:
  "bpf_nv_gpu_set_timeslice (Some d) v =
     (transition_code (fst (nv_gpu_transition_record_u64 (timeslice_request d) v)),
      Some (d\<lparr>timeslice_request := snd (nv_gpu_transition_record_u64 (timeslice_request d) v)\<rparr>))"
  by (simp add: bpf_nv_gpu_set_timeslice_def split: prod.splits)

lemma set_interleave_Some:
  "bpf_nv_gpu_set_interleave (Some d) v =
     (transition_code (fst (nv_gpu_transition_record_u32 (interleave_request d) v)),
      Some (d\<lparr>interleave_request := snd (nv_gpu_transition_record_u32 (interleave_request d) v)\<rparr>))"
  by (simp add: bpf_nv_gpu_set_interleave_def split: prod.splits)

lemma override_timeslice_Some:
  "snd (bpf_nv_gpu_override_timeslice (Some d) v) =
     Some (d\<lparr>tc_request := snd (nv_gpu_transition_record_u64 (tc_request d) v)\<rparr>)"
  by (simp add: bpf_nv_gpu_override_timeslice_def nv_gpu_timeslice_control_record_def
      split: prod.splits)

lemmas kfunc_Some = set_timeslice_Some set_interleave_Some override_timeslice_Some

lemma run_init_policy_Some:
  "snd (run_init_policy p (Some d)) =
     Some (d\<lparr>timeslice_request :=
               fold (\<lambda>v r. snd (nv_gpu_transition_record_u64 r v)) (requested_timeslices p d)
                 (timeslice_request d),
             interleave_request :=
               fold (\<lambda>v r. snd (nv_gpu_transition_record_u32 r v)) (requested_interleaves p d)
                 (interleave_request d)\<rparr>)"
proof (induction p arbitrary: d)
  case (Init_Return r)
  show ?case by simp
next
  case (Set_Timeslice v k)
  show ?case by (simp add: kfunc_Some Set_Timeslice [OF rangeI])
next
  case (Set_Interleave v k)
  show ?case by (simp add: kfunc_Some Set_Interleave [OF rangeI])
qed

lemma run_control_policy_Some:
  "snd (run_control_policy p (Some d)) =
     Some (d\<lparr>tc_request :=
               fold (\<lambda>v r. snd (nv_gpu_transition_record_u64 r v)) (requested_overrides p d)
                 (tc_request d)\<rparr>)"
proof (induction p arbitrary: d)
  case (Control_Return r)
  show ?case by simp
next
  case (Override_Timeslice v k)
  show ?case by (simp add: kfunc_Some Override_Timeslice [OF rangeI])
qed

lemma run_bind_policy_Some:
  "snd (run_bind_policy p (Some c)) = Some (if rejects_bind p then c\<lparr>allow := 0\<rparr> else c)"
proof (induction p arbitrary: c)
  case (Bind_Return r)
  show ?case by simp
next
  case (Reject_Bind p)
  then show ?case by (simp add: bpf_nv_gpu_reject_bind_def)
qed

subsection \<open>Properties\<close>

text \<open>
  C16: However registrations and unregistrations of scheduler policies interleave, at most one policy
  holds a registration, and it is the one in the slot that the hooks consult.
\<close>

theorem sched_one_policy:
  "case slot_run nv_gpu_sched_ops_reg nv_gpu_sched_ops_unreg es (None, {}) of (slot, holders) \<Rightarrow>
     holders = set_option slot \<and> card holders \<le> 1"
  using sched_slot.at_most_one_holder [of es] by (auto split: prod.splits)


end
