(* ===== verification/Channel_Group.thy ===== *)
theory Channel_Group
  imports Sched_Hooks
begin

section \<open>Channel groups\<close>

text \<open>
  The model of the channel group object (the time-slice group, TSG) of the resource manager, from
  \<^verbatim>\<open>src/nvidia/src/kernel/gpu/fifo\<close>: the group's own operations
  (\<^verbatim>\<open>kernel_channel_group.c\<close>), its channel list and timeslice
  (\<^verbatim>\<open>kernel_fifo.c\<close>), the runlist assignment
  (\<^verbatim>\<open>arch/maxwell/kernel_fifo_gm107.c\<close>) and the control commands of
  \<^verbatim>\<open>kernel_channel_group_api.c\<close> that consult the scheduler policy.

  Channels are objects in a store addressed by pointer, since the channel list, the reference count and the
  runlist of one channel are changed through different paths. What the rest of the resource manager
  contributes (the firmware's answer to a remote call, whether an allocation succeeds, the default runlist) is
  an argument of the operation that asks for it, and every remote call an operation issues is in the list it
  returns.
\<close>

subsection \<open>Engine types\<close>

definition RM_ENGINE_TYPE_IS_GR :: "NvU32 \<Rightarrow> bool" where
  "RM_ENGINE_TYPE_IS_GR i \<longleftrightarrow> i \<ge> 1 \<and> i < 1 + 8"

definition RM_ENGINE_TYPE_IS_VALID :: "NvU32 \<Rightarrow> bool" where
  "RM_ENGINE_TYPE_IS_VALID i \<longleftrightarrow> i > 0 \<and> i < 0x54"

subsection \<open>State\<close>

type_synonym chan_ptr = NvU64

record KernelChannel =
  kc_runlistId :: NvU32
  kc_runlist_set :: "nat \<Rightarrow> bool"
  kc_refCount :: NvU32
  kc_has_group :: bool
  kc_gfid_vf :: bool
  kc_gvas :: bool
  kc_externally_owned :: bool
  kc_engine_gr :: "bool option"
  kc_bIsContextBound :: bool

type_synonym chan_store = "chan_ptr \<Rightarrow> KernelChannel"

datatype group_resource =
  Res_Masks | Res_HwId | Res_ChanList | Res_EngCtxDesc | Res_SubctxIdHeap | Res_VaSpaceIdHeap |
  Res_MthdBuffers | Res_FaultBuffers | Res_Mapped nat

record KernelChannelGroup =
  grpID :: NvU32
  grp_runlistId :: NvU32
  engineType :: NvU32
  timesliceUs :: NvU64
  pInterleaveLevel :: "nat \<Rightarrow> NvU32"
  chanCount :: NvU32
  pChanList :: "chan_ptr list"
  bRunlistAssigned :: bool
  tsgUniqueId :: NvU32
  bLegacyMode :: bool
  pCtxBufPool :: bool
  pChannelBufPool :: bool
  bIsCallingContextVgpuPlugin :: bool
  held :: "group_resource set"

record OBJGPU =
  gpuInstance :: NvU32
  is_virtual :: bool
  is_gsp_client :: bool
  is_virtual_full_sriov :: bool
  is_amodel :: bool
  subdev_inst :: nat
  sli_subdevs :: "nat list"
  class_supported :: "NvU32 \<Rightarrow> bool"

record KernelChannelGroupApi =
  api_group :: "KernelChannelGroup option"
  api_hClient :: NvHandle
  api_hObject :: NvHandle
  api_externalClassId :: NvU32
  hKernelGraphicsContext :: NvHandle
  hLegacykCtxShareSync :: NvHandle
  hLegacykCtxShareAsync :: NvHandle
  api_bRpcFree :: bool
  gpreemptCreatorThreadId :: NvU64

text \<open>
  A call that leaves the CPU resource manager: a control forwarded to the firmware over the
  remote procedure call, with its parameter block, or a control on the physical resource manager.
\<close>

datatype ctrl_params =
  Timeslice_Params NvU64 | Interleave_Params NvU32 | Schedule_Params bool | Bind_Params NvU32

datatype rm_call =
    Rpc_Control NvHandle NvHandle NvU32 ctrl_params
  | Physical_Control NvHandle NvHandle NvU32 ctrl_params

abbreviation (input) INVALID_RUNLIST_ID :: NvU32 where
  "INVALID_RUNLIST_ID \<equiv> 0xFFFFFFFF"

abbreviation (input) NVA06C_CTRL_INTERLEAVE_LEVEL_LOW :: NvU32 where
  "NVA06C_CTRL_INTERLEAVE_LEVEL_LOW \<equiv> 0"

abbreviation (input) NVA06C_CTRL_INTERLEAVE_LEVEL_MEDIUM :: NvU32 where
  "NVA06C_CTRL_INTERLEAVE_LEVEL_MEDIUM \<equiv> 1"

abbreviation (input) NVA06C_CTRL_INTERLEAVE_LEVEL_HIGH :: NvU32 where
  "NVA06C_CTRL_INTERLEAVE_LEVEL_HIGH \<equiv> 2"

abbreviation (input) NVA06C_CTRL_CMD_SET_TIMESLICE :: NvU32 where
  "NVA06C_CTRL_CMD_SET_TIMESLICE \<equiv> 0xa06c0103"

abbreviation (input) NVA06C_CTRL_CMD_SET_INTERLEAVE_LEVEL :: NvU32 where
  "NVA06C_CTRL_CMD_SET_INTERLEAVE_LEVEL \<equiv> 0xa06c0107"

subsection \<open>Values fixed by the build\<close>

definition kfifoRunlistGetMinTimeSlice_HAL :: NvU64 where
  "kfifoRunlistGetMinTimeSlice_HAL = 0"

definition kfifoChannelGroupSetTimesliceSched :: NV_STATUS where
  "kfifoChannelGroupSetTimesliceSched = NV_OK"

definition kchangrpSetInterleaveLevelSched :: NV_STATUS where
  "kchangrpSetInterleaveLevelSched = NV_OK"

definition kfifoChannelGroupGetDefaultTimeslice_HAL :: NvU64 where
  "kfifoChannelGroupGetDefaultTimeslice_HAL = push_bit 3 0x80"

subsection \<open>The channel list\<close>

text \<open>The channel argument and the list are not null; the allocation of the node may fail.\<close>

definition kfifoChannelListAppend ::
  "bool \<Rightarrow> chan_ptr \<Rightarrow> chan_store \<Rightarrow> chan_ptr list \<Rightarrow> NV_STATUS \<times> chan_store \<times> chan_ptr list" where
  "kfifoChannelListAppend alloc_node kc store pList =
     (if \<not> alloc_node then (NV_ERR_NO_MEMORY, store, pList)
      else (NV_OK, store(kc := (store kc)\<lparr>kc_refCount := kc_refCount (store kc) + 1\<rparr>), pList @ [kc]))"

fun channel_list_remove_loop ::
  "chan_ptr \<Rightarrow> chan_ptr list \<Rightarrow> NvU32 \<Rightarrow> bool \<Rightarrow> NV_STATUS \<times> chan_ptr list \<times> NvU32 \<times> bool" where
  "channel_list_remove_loop kc [] refCount bFoundOnce = (NV_OK, [], refCount, bFoundOnce)"
| "channel_list_remove_loop kc (node # nodes) refCount bFoundOnce =
     (if kc \<noteq> node then
        (case channel_list_remove_loop kc nodes refCount bFoundOnce of (status, rest, refCount', found) \<Rightarrow>
           (status, node # rest, refCount', found))
      else if refCount = 0 then (NV_ERR_GENERIC, nodes, refCount, True)
      else channel_list_remove_loop kc nodes (refCount - 1) True)"

definition kfifoChannelListRemove ::
  "chan_ptr \<Rightarrow> chan_store \<Rightarrow> chan_ptr list \<Rightarrow> NV_STATUS \<times> chan_store \<times> chan_ptr list" where
  "kfifoChannelListRemove kc store pList =
     (case channel_list_remove_loop kc pList (kc_refCount (store kc)) False of
        (status, rest, refCount, bFoundOnce) \<Rightarrow>
          (if \<not> bFoundOnce then NV_ERR_INVALID_CHANNEL else status,
           store(kc := (store kc)\<lparr>kc_refCount := refCount\<rparr>), rest))"

subsection \<open>Timeslice and interleave level\<close>

definition kfifoChannelGroupSetTimeslice ::
  "KernelChannelGroup \<Rightarrow> NvU64 \<Rightarrow> NV_STATUS \<times> KernelChannelGroup" where
  "kfifoChannelGroupSetTimeslice grp ts =
     (if ts < kfifoRunlistGetMinTimeSlice_HAL then (NV_ERR_NOT_SUPPORTED, grp)
      else
        (let grp = grp\<lparr>timesliceUs := ts\<rparr>
         in if kfifoChannelGroupSetTimesliceSched \<noteq> NV_OK
              then (kfifoChannelGroupSetTimesliceSched, grp)
            else (NV_OK, grp)))"

definition kchangrpSetInterleaveLevel ::
  "OBJGPU \<Rightarrow> KernelChannelGroup \<Rightarrow> NvU32 \<Rightarrow> NV_STATUS \<times> KernelChannelGroup" where
  "kchangrpSetInterleaveLevel gpu grp v =
     (if v = NVA06C_CTRL_INTERLEAVE_LEVEL_LOW \<or> v = NVA06C_CTRL_INTERLEAVE_LEVEL_MEDIUM \<or>
         v = NVA06C_CTRL_INTERLEAVE_LEVEL_HIGH
        then
          (let grp = grp\<lparr>pInterleaveLevel :=
                           fold (\<lambda>subdevInst level. level(subdevInst := v)) (sli_subdevs gpu)
                             (pInterleaveLevel grp)\<rparr>
           in if kchangrpSetInterleaveLevelSched \<noteq> NV_OK
                then (kchangrpSetInterleaveLevelSched, grp)
              else (NV_OK, grp))
      else (NV_ERR_INVALID_ARGUMENT, grp))"

subsection \<open>Initialisation and destruction\<close>

text \<open>
  The answers of the allocators and of the other resource-manager objects during
  \<^verbatim>\<open>kchangrpInit_IMPL\<close> and \<^verbatim>\<open>kchangrpDestroy_IMPL\<close>.
\<close>

record kchangrp_env =
  ie_alloc_masks :: bool
  ie_default_runlist :: "NvU32 \<Rightarrow> NvU32"
  ie_per_runlist_chram :: bool
  ie_engine_xlate :: "NvU32 \<Rightarrow> NV_STATUS"
  ie_chid_mgr :: bool
  ie_alloc_hwid :: "NV_STATUS \<times> NvU32"
  ie_chan_list_create :: NV_STATUS
  ie_alloc_eng_ctx :: bool
  ie_alloc_subctx_heap :: bool
  ie_alloc_vaspace_heap :: bool
  ie_alloc_mthd_buffers :: bool
  ie_alloc_fault_buffers :: NV_STATUS
  ie_runqueues :: nat
  ie_map_fault_buffers :: "nat \<Rightarrow> NV_STATUS"
  ie_unique_id :: NvU32
  ie_in_tree :: bool
  ie_owns_fault_buffers :: bool

definition acquire_res :: "group_resource \<Rightarrow> KernelChannelGroup \<Rightarrow> KernelChannelGroup" where
  "acquire_res r grp = grp\<lparr>held := insert r (held grp)\<rparr>"

definition release_res :: "group_resource set \<Rightarrow> KernelChannelGroup \<Rightarrow> KernelChannelGroup" where
  "release_res rs grp = grp\<lparr>held := held grp - rs\<rparr>"

definition kchangrpInit_failed ::
  "bool \<Rightarrow> bool \<Rightarrow> nat \<Rightarrow> KernelChannelGroup \<Rightarrow> KernelChannelGroup" where
  "kchangrpInit_failed has_chid_mgr bMapFaultMthdBuffers runQueues grp =
     (let grp = release_res {Res_SubctxIdHeap, Res_VaSpaceIdHeap} grp;
          grp = release_res {Res_EngCtxDesc} grp;
          grp = release_res {Res_ChanList} grp;
          grp = (if Res_MthdBuffers \<in> held grp then
                   (let grp = (if bMapFaultMthdBuffers
                                 then release_res (set (map Res_Mapped [0..<runQueues])) grp
                               else grp)
                    in release_res {Res_FaultBuffers, Res_MthdBuffers} grp)
                 else grp);
          grp = (if has_chid_mgr then release_res {Res_HwId} grp else grp)
      in release_res {Res_Masks} grp)"

fun map_fault_method_buffers ::
  "(nat \<Rightarrow> NV_STATUS) \<Rightarrow> nat list \<Rightarrow> KernelChannelGroup \<Rightarrow> NV_STATUS \<times> KernelChannelGroup" where
  "map_fault_method_buffers map_buf [] grp = (NV_OK, grp)"
| "map_fault_method_buffers map_buf (i # is) grp =
     (if map_buf i \<noteq> NV_OK then (map_buf i, grp)
      else map_fault_method_buffers map_buf is (acquire_res (Res_Mapped i) grp))"

definition kchangrpInit_buffers ::
  "kchangrp_env \<Rightarrow> KernelChannelGroup \<Rightarrow> NV_STATUS \<times> KernelChannelGroup" where
  "kchangrpInit_buffers env grp =
     (if \<not> ie_alloc_mthd_buffers env
        then (NV_ERR_NO_MEMORY, kchangrpInit_failed (ie_chid_mgr env) False (ie_runqueues env) grp)
      else
        (let grp = acquire_res Res_MthdBuffers grp
         in if ie_alloc_fault_buffers env \<noteq> NV_OK
              then (ie_alloc_fault_buffers env,
                    kchangrpInit_failed (ie_chid_mgr env) False (ie_runqueues env) grp)
            else
              (case map_fault_method_buffers (ie_map_fault_buffers env) [0..<ie_runqueues env]
                      (acquire_res Res_FaultBuffers grp) of
                 (status, grp) \<Rightarrow>
                   if status \<noteq> NV_OK
                     then (status, kchangrpInit_failed (ie_chid_mgr env) True (ie_runqueues env) grp)
                   else (NV_OK, grp\<lparr>tsgUniqueId := ie_unique_id env\<rparr>))))"

definition kchangrpInit_heaps ::
  "kchangrp_env \<Rightarrow> KernelChannelGroup \<Rightarrow> NV_STATUS \<times> KernelChannelGroup" where
  "kchangrpInit_heaps env grp =
     (let failed = kchangrpInit_failed (ie_chid_mgr env) False (ie_runqueues env)
      in if ie_chan_list_create env \<noteq> NV_OK then (ie_chan_list_create env, failed grp)
         else
           (let grp = acquire_res Res_ChanList (grp\<lparr>pChanList := []\<rparr>)
            in if \<not> ie_alloc_eng_ctx env then (NV_ERR_NO_MEMORY, failed grp)
               else
                 (let grp = acquire_res Res_EngCtxDesc grp
                  in if \<not> ie_alloc_subctx_heap env then (NV_ERR_NO_MEMORY, failed grp)
                     else
                       (let grp = acquire_res Res_SubctxIdHeap grp
                        in if \<not> ie_alloc_vaspace_heap env then (NV_ERR_NO_MEMORY, failed grp)
                           else kchangrpInit_buffers env
                                  ((acquire_res Res_VaSpaceIdHeap grp)\<lparr>bLegacyMode := False\<rparr>)))))"

definition kchangrpInit ::
  "kchangrp_env \<Rightarrow> KernelChannelGroup \<Rightarrow> NV_STATUS \<times> KernelChannelGroup" where
  "kchangrpInit env grp =
     (if \<not> ie_alloc_masks env
        then (NV_ERR_NO_MEMORY, kchangrpInit_failed False False 0 grp)
      else
        (let grp = acquire_res Res_Masks (grp\<lparr>pInterleaveLevel := \<lambda>i. 0\<rparr>);
             grp = grp\<lparr>grp_runlistId := ie_default_runlist env (engineType grp)\<rparr>;
             xlate = (if ie_per_runlist_chram env then ie_engine_xlate env (engineType grp) else NV_OK)
         in if xlate \<noteq> NV_OK then (xlate, grp)
            else if fst (ie_alloc_hwid env) \<noteq> NV_OK then (fst (ie_alloc_hwid env), grp)
            else
              (let grp = acquire_res Res_HwId (grp\<lparr>grpID := snd (ie_alloc_hwid env)\<rparr>);
                   grp = grp\<lparr>timesliceUs := kfifoChannelGroupGetDefaultTimeslice_HAL\<rparr>
               in (case kfifoChannelGroupSetTimeslice grp (timesliceUs grp) of (status, grp) \<Rightarrow>
                     if status \<noteq> NV_OK
                       then (status, kchangrpInit_failed (ie_chid_mgr env) False (ie_runqueues env) grp)
                     else kchangrpInit_heaps env grp))))"

definition kchangrpDestroy ::
  "kchangrp_env \<Rightarrow> KernelChannelGroup \<Rightarrow> NV_STATUS \<times> KernelChannelGroup" where
  "kchangrpDestroy env grp =
     (let xlate = (if ie_per_runlist_chram env then ie_engine_xlate env (engineType grp) else NV_OK)
      in if xlate \<noteq> NV_OK then (xlate, grp)
         else
           (let grp = release_res {Res_SubctxIdHeap, Res_VaSpaceIdHeap} grp;
                grp = release_res {Res_EngCtxDesc} grp;
                grp = (release_res {Res_ChanList} grp)\<lparr>pChanList := []\<rparr>
            in if ie_chid_mgr env \<and> \<not> ie_in_tree env then (NV_ERR_OBJECT_NOT_FOUND, grp)
               else
                 (let grp = (if ie_chid_mgr env then release_res {Res_HwId} grp else grp);
                      grp = (if ie_owns_fault_buffers env \<and> Res_MthdBuffers \<in> held grp
                               then release_res {Res_FaultBuffers}
                                      (release_res (set (map Res_Mapped [0..<ie_runqueues env])) grp)
                             else grp)
                  in (NV_OK, release_res {Res_Masks} (release_res {Res_MthdBuffers} grp)))))"

definition kchangrpDestruct ::
  "sched_ops_mem \<Rightarrow> sched_ops_slot \<Rightarrow> KernelChannelGroup \<Rightarrow> int option" where
  "kchangrpDestruct mem slot grp =
     nv_gpu_sched_task_destroy mem slot
       (Some \<lparr>td_tsg_id = ucast (grpID grp), td_runlist_id = grp_runlistId grp,
              td_engine_type = engineType grp\<rparr>)"

subsection \<open>Channels of a group\<close>

definition kchannelIsRunlistSet :: "nat \<Rightarrow> KernelChannel \<Rightarrow> bool" where
  "kchannelIsRunlistSet subdevInst kc = kc_runlist_set kc subdevInst"

definition kchannelSetRunlistSet :: "nat \<Rightarrow> bool \<Rightarrow> KernelChannel \<Rightarrow> KernelChannel" where
  "kchannelSetRunlistSet subdevInst b kc =
     kc\<lparr>kc_runlist_set := (kc_runlist_set kc)(subdevInst := b)\<rparr>"

definition kchannelIsSchedulable :: "OBJGPU \<Rightarrow> KernelChannel \<Rightarrow> bool" where
  "kchannelIsSchedulable gpu kc =
     (if kc_gfid_vf kc then True
      else if \<not> (kc_gvas kc \<or> is_amodel gpu) then False
      else
        (case kc_engine_gr kc of
           None \<Rightarrow> False
         | Some isGr \<Rightarrow>
             (if kc_gvas kc \<and> kc_externally_owned kc \<and> isGr \<and> \<not> kc_bIsContextBound kc then False
              else True)))"

text \<open>
  \<open>has_ctx_share\<close> says that both pointers on the way to the share data of the channel's
  context share are set; the subcontext and address-space identifiers copied from it are not part
  of the model. The group and channel arguments are not null.
\<close>

definition kchangrpAddChannel ::
  "NvU32 \<Rightarrow> bool \<Rightarrow> bool \<Rightarrow> OBJGPU \<Rightarrow> chan_ptr \<Rightarrow> chan_store \<Rightarrow> KernelChannelGroup \<Rightarrow>
     NV_STATUS \<times> chan_store \<times> KernelChannelGroup" where
  "kchangrpAddChannel maxChanCount has_ctx_share alloc_node gpu kc store grp =
     (if chanCount grp = maxChanCount then (NV_ERR_INSUFFICIENT_RESOURCES, store, grp)
      else if \<not> has_ctx_share then (NV_ERR_INVALID_STATE, store, grp)
      else if kchannelIsRunlistSet (subdev_inst gpu) (store kc) \<and>
              grp_runlistId grp \<noteq> kc_runlistId (store kc) then (NV_ERR_INVALID_STATE, store, grp)
      else
        (case kfifoChannelListAppend alloc_node kc store (pChanList grp) of (status, store, chans) \<Rightarrow>
           if status \<noteq> NV_OK then (status, store, grp)
           else
             (let grp = grp\<lparr>pChanList := chans, chanCount := chanCount grp + 1\<rparr>
              in (case kchangrpSetInterleaveLevel gpu grp (pInterleaveLevel grp (subdev_inst gpu)) of
                    (status, grp) \<Rightarrow> (status, store, grp)))))"

definition kchangrpRemoveChannel ::
  "chan_ptr \<Rightarrow> chan_store \<Rightarrow> KernelChannelGroup \<Rightarrow> NV_STATUS \<times> chan_store \<times> KernelChannelGroup" where
  "kchangrpRemoveChannel kc store grp =
     (case kfifoChannelListRemove kc store (pChanList grp) of (status, store, chans) \<Rightarrow>
        (let grp = grp\<lparr>pChanList := chans\<rparr>
         in if status \<noteq> NV_OK then (status, store, grp)
            else if chanCount grp = 0 then (NV_ERR_INVALID_STATE, store, grp)
            else
              (let grp = grp\<lparr>chanCount := chanCount grp - 1\<rparr>
               in (NV_OK, store,
                   if chanCount grp = 0 then grp\<lparr>bRunlistAssigned := False\<rparr> else grp))))"

text \<open>
  The runlist of a channel is set on its group first. Every runlist of this build supports the
  group header (\<^verbatim>\<open>kfifoRunlistIsTsgHeaderSupported_88bc07\<close>), so that guard never fires.
\<close>

definition kfifoRunlistSetId ::
  "nat \<Rightarrow> chan_ptr \<Rightarrow> NvU32 \<Rightarrow> chan_store \<Rightarrow> KernelChannelGroup \<Rightarrow>
     NV_STATUS \<times> chan_store \<times> KernelChannelGroup" where
  "kfifoRunlistSetId subdevInst kc runlistId store grp =
     (let assign = store(kc := kchannelSetRunlistSet subdevInst True
                                 ((store kc)\<lparr>kc_runlistId := runlistId\<rparr>))
      in if runlistId \<noteq> kc_runlistId (store kc) \<and> kchannelIsRunlistSet subdevInst (store kc)
           then (NV_ERR_INVALID_STATE, store, grp)
         else if kc_has_group (store kc) then
           (if chanCount grp = 1 \<or> \<not> bRunlistAssigned grp
              then (NV_OK, assign, grp\<lparr>grp_runlistId := runlistId, bRunlistAssigned := True\<rparr>)
            else if grp_runlistId grp \<noteq> runlistId then (NV_ERR_INVALID_STATE, store, grp)
            else (NV_OK, assign, grp))
         else (NV_OK, assign, grp))"

fun find_runlist :: "nat \<Rightarrow> chan_store \<Rightarrow> chan_ptr list \<Rightarrow> NvU32 \<Rightarrow> NvU32" where
  "find_runlist subdevInst store [] runlistId = runlistId"
| "find_runlist subdevInst store (kc # kcs) runlistId =
     find_runlist subdevInst store kcs
       (if kchannelIsRunlistSet subdevInst (store kc) \<and> runlistId = INVALID_RUNLIST_ID
          then kc_runlistId (store kc) else runlistId)"

fun force_runlist ::
  "nat \<Rightarrow> NvU32 \<Rightarrow> chan_ptr list \<Rightarrow> chan_store \<Rightarrow> KernelChannelGroup \<Rightarrow>
     chan_store \<times> KernelChannelGroup" where
  "force_runlist subdevInst runlistId [] store grp = (store, grp)"
| "force_runlist subdevInst runlistId (kc # kcs) store grp =
     (if \<not> kchannelIsRunlistSet subdevInst (store kc)
        then (case kfifoRunlistSetId subdevInst kc runlistId store grp of (status, store, grp) \<Rightarrow>
                force_runlist subdevInst runlistId kcs store grp)
      else force_runlist subdevInst runlistId kcs store grp)"

definition schedule_subdevice ::
  "(NvU32 \<Rightarrow> NvU32) \<Rightarrow> nat \<Rightarrow> chan_store \<times> KernelChannelGroup \<Rightarrow> chan_store \<times> KernelChannelGroup" where
  "schedule_subdevice default_runlist subdevInst = (\<lambda>(store, grp).
     (let runlistId = find_runlist subdevInst store (pChanList grp) (grp_runlistId grp);
          runlistId = (if runlistId = INVALID_RUNLIST_ID then default_runlist (engineType grp)
                       else runlistId)
      in force_runlist subdevInst runlistId (pChanList grp) store (grp\<lparr>grp_runlistId := runlistId\<rparr>)))"

subsection \<open>Control commands\<close>

text \<open>
  The result of a control command: its status, the channel store, the object, and the remote
  calls issued, in order. \<open>call\<close> is the answer to a remote call.
\<close>

definition kchangrpapiCtrlCmdGpFifoSchedule ::
  "(rm_call \<Rightarrow> NV_STATUS) \<Rightarrow> (NvU32 \<Rightarrow> NvU32) \<Rightarrow> sched_ops_mem \<Rightarrow> sched_ops_slot \<Rightarrow> OBJGPU \<Rightarrow>
     chan_store \<Rightarrow> KernelChannelGroupApi \<Rightarrow> bool \<Rightarrow>
     NV_STATUS \<times> chan_store \<times> KernelChannelGroupApi \<times> rm_call list" where
  "kchangrpapiCtrlCmdGpFifoSchedule call default_runlist mem slot gpu store api bEnable =
     (case api_group api of
        None \<Rightarrow> (NV_ERR_INVALID_OBJECT, store, api, [])
      | Some grp \<Rightarrow>
          if \<not> class_supported gpu (api_externalClassId api)
            then (NV_ERR_NOT_SUPPORTED, store, api, [])
          else
            (let ctx = \<lparr>bind_tsg_id = ucast (grpID grp), bind_runlist_id = grp_runlistId grp,
                        channel_count = chanCount grp, bind_timeslice_us = timesliceUs grp,
                        interleave_level = pInterleaveLevel grp (subdev_inst gpu), allow = 1\<rparr>;
                 ctx = the (nv_gpu_sched_bind mem slot (Some ctx))
             in if allow ctx = 0 then (NV_ERR_BUSY_RETRY, store, api, [])
                else if \<not> list_all (\<lambda>kc. kchannelIsSchedulable gpu (store kc)) (pChanList grp)
                  then (NV_ERR_INVALID_STATE, store, api, [])
                else
                  (case fold (schedule_subdevice default_runlist) (sli_subdevs gpu) (store, grp) of
                     (store, grp) \<Rightarrow>
                       (let api = api\<lparr>api_group := Some grp\<rparr>;
                            c = (if is_virtual gpu \<or> is_gsp_client gpu
                                   then Rpc_Control (api_hClient api) (api_hObject api) 0xa06c0101
                                          (Schedule_Params bEnable)
                                 else Physical_Control (api_hClient api) (api_hObject api) 0xa06c0201
                                        (Schedule_Params bEnable))
                        in (call c, store, api, [c])))))"

definition kchangrpapiCtrlCmdGetTimeslice ::
  "KernelChannelGroupApi \<Rightarrow> NV_STATUS \<times> NvU64 option" where
  "kchangrpapiCtrlCmdGetTimeslice api =
     (case api_group api of
        None \<Rightarrow> (NV_ERR_INVALID_OBJECT, None)
      | Some grp \<Rightarrow> (NV_OK, Some (timesliceUs grp)))"

text \<open>
  The policy step of the timeslice command: \<open>Inl\<close> is the early return, \<open>Inr\<close> the
  timeslice that the remote call will carry. The parameter block that the command was called with is the one
  the remote call forwards.
\<close>

definition timeslice_policy_step ::
  "sched_ops_mem \<Rightarrow> sched_ops_slot \<Rightarrow> OBJGPU \<Rightarrow> KernelChannelGroupApi \<Rightarrow> KernelChannelGroup \<Rightarrow>
     NvU64 \<Rightarrow> NV_STATUS + NvU64" where
  "timeslice_policy_step mem slot gpu api grp ts =
     (if is_gsp_client gpu \<and> nv_gpu_timeslice_control_eligible ts kfifoRunlistGetMinTimeSlice_HAL
        then
          (let expected = \<lparr>tc_tsg_id = ucast (grpID grp), requested_timeslice_us = ts,
                           tc_engine_type = engineType grp, tc_runlist_id = grp_runlistId grp,
                           hclient = api_hClient api, htsg = api_hObject api,
                           tc_gpu_instance = gpuInstance gpu,
                           tc_phase = NV_GPU_TIMESLICE_CONTROL_PHASE\<rparr>;
               decision = \<lparr>tc_input = expected, tc_request = u64_request_init\<rparr>;
               decision = the (nv_gpu_sched_timeslice_control mem slot (Some decision))
           in if u64_attempted (tc_request decision)
                then (case nv_gpu_timeslice_control_validate expected (tc_input decision)
                             kfifoRunlistGetMinTimeSlice_HAL (tc_request decision) of
                        (result, effective) \<Rightarrow>
                          if result \<noteq> NV_GPU_TRANSITION_APPLY then Inl NV_ERR_INVALID_ARGUMENT
                          else Inr effective)
              else Inr ts)
      else Inr ts)"

definition kchangrpapiCtrlCmdSetTimeslice ::
  "(rm_call \<Rightarrow> NV_STATUS) \<Rightarrow> sched_ops_mem \<Rightarrow> sched_ops_slot \<Rightarrow> OBJGPU \<Rightarrow> KernelChannelGroupApi \<Rightarrow>
     NvU64 \<Rightarrow> NV_STATUS \<times> NvU64 \<times> KernelChannelGroupApi \<times> rm_call list" where
  "kchangrpapiCtrlCmdSetTimeslice call mem slot gpu api ts =
     (case api_group api of
        None \<Rightarrow> (NV_ERR_INVALID_OBJECT, ts, api, [])
      | Some grp \<Rightarrow>
          if \<not> class_supported gpu (api_externalClassId api) then (NV_ERR_NOT_SUPPORTED, ts, api, [])
          else if is_virtual gpu \<or> is_gsp_client gpu then
            (case timeslice_policy_step mem slot gpu api grp ts of
               Inl status \<Rightarrow> (status, ts, api, [])
             | Inr ts \<Rightarrow>
                 (let c = Rpc_Control (api_hClient api) (api_hObject api)
                            NVA06C_CTRL_CMD_SET_TIMESLICE (Timeslice_Params ts)
                  in (call c, ts,
                      if call c = NV_OK then api\<lparr>api_group := Some (grp\<lparr>timesliceUs := ts\<rparr>)\<rparr> else api,
                      [c])))
          else
            (let c = Physical_Control (api_hClient api) (api_hObject api) 0xa06c0202 (Timeslice_Params ts)
             in (call c, ts, api, [c])))"

definition kchangrpapiCtrlCmdGetInfo :: "KernelChannelGroupApi \<Rightarrow> NV_STATUS \<times> NvU32 option" where
  "kchangrpapiCtrlCmdGetInfo api =
     (case api_group api of
        None \<Rightarrow> (NV_ERR_INVALID_OBJECT, None)
      | Some grp \<Rightarrow> (NV_OK, Some (grpID grp)))"

text \<open>The interleave command does not test the group pointer; it is not null there.\<close>

definition kchangrpapiCtrlCmdSetInterleaveLevel ::
  "(rm_call \<Rightarrow> NV_STATUS) \<Rightarrow> OBJGPU \<Rightarrow> KernelChannelGroupApi \<Rightarrow> KernelChannelGroup \<Rightarrow> NvU32 \<Rightarrow>
     NV_STATUS \<times> KernelChannelGroup \<times> rm_call list" where
  "kchangrpapiCtrlCmdSetInterleaveLevel call gpu api grp level =
     (if \<not> class_supported gpu (api_externalClassId api) then (NV_ERR_NOT_SUPPORTED, grp, [])
      else
        (let remote = is_virtual gpu \<or> is_gsp_client gpu;
             c = Rpc_Control (api_hClient api) (api_hObject api)
                   NVA06C_CTRL_CMD_SET_INTERLEAVE_LEVEL (Interleave_Params level);
             calls = (if remote then [c] else [])
         in if remote \<and> call c \<noteq> NV_OK then (NV_ERR_NOT_SUPPORTED, grp, calls)
            else
              (case kchangrpSetInterleaveLevel gpu grp level of (status, grp) \<Rightarrow>
                 (status, grp, calls))))"

definition kchangrpapiCtrlCmdGetInterleaveLevel ::
  "OBJGPU \<Rightarrow> KernelChannelGroupApi \<Rightarrow> NV_STATUS \<times> NvU32 option" where
  "kchangrpapiCtrlCmdGetInterleaveLevel gpu api =
     (case api_group api of
        None \<Rightarrow> (NV_ERR_INVALID_OBJECT, None)
      | Some grp \<Rightarrow> (NV_OK, Some (pInterleaveLevel grp (subdev_inst gpu))))"

subsection \<open>Well-formed groups\<close>

text \<open>
  The invariant of a group's channels: no channel is listed twice, the list is no longer than the
  hardware limit, the count is its length, and each listed channel carries the one reference of the
  list.
\<close>

definition group_channels_wf :: "NvU32 \<Rightarrow> chan_store \<Rightarrow> KernelChannelGroup \<Rightarrow> bool" where
  "group_channels_wf maxChanCount store grp \<longleftrightarrow>
     distinct (pChanList grp) \<and> length (pChanList grp) \<le> unat maxChanCount \<and>
     chanCount grp = of_nat (length (pChanList grp)) \<and>
     list_all (\<lambda>kc. kc_refCount (store kc) = 1) (pChanList grp)"

text \<open>The channels that have a runlist have the group's.\<close>

definition runlists_agree :: "chan_store \<Rightarrow> KernelChannelGroup \<Rightarrow> bool" where
  "runlists_agree store grp \<longleftrightarrow>
     (\<forall>kc \<in> set (pChanList grp). \<forall>s. kchannelIsRunlistSet s (store kc) \<longrightarrow>
        grp_runlistId grp \<noteq> INVALID_RUNLIST_ID \<and> kc_runlistId (store kc) = grp_runlistId grp)"

definition policy_overrides ::
  "sched_ops_mem \<Rightarrow> sched_ops_slot \<Rightarrow> nv_gpu_timeslice_control_ctx \<Rightarrow> NvU64 list" where
  "policy_overrides mem slot input =
     (case slot of
        None \<Rightarrow> []
      | Some ops \<Rightarrow>
          (case on_timeslice_control (mem ops) of
             None \<Rightarrow> []
           | Some callback \<Rightarrow>
               requested_overrides (callback input)
                 \<lparr>tc_input = input, tc_request = u64_request_init\<rparr>))"

definition policy_rejects_bind :: "sched_ops_mem \<Rightarrow> sched_ops_slot \<Rightarrow> nv_gpu_bind_ctx \<Rightarrow> bool" where
  "policy_rejects_bind mem slot ctx =
     (case slot of
        None \<Rightarrow> False
      | Some ops \<Rightarrow>
          (case on_bind (mem ops) of None \<Rightarrow> False | Some callback \<Rightarrow> rejects_bind (callback ctx)))"

definition group_bind_ctx :: "OBJGPU \<Rightarrow> KernelChannelGroup \<Rightarrow> nv_gpu_bind_ctx" where
  "group_bind_ctx gpu grp =
     \<lparr>bind_tsg_id = ucast (grpID grp), bind_runlist_id = grp_runlistId grp,
      channel_count = chanCount grp, bind_timeslice_us = timesliceUs grp,
      interleave_level = pInterleaveLevel grp (subdev_inst gpu), allow = 1\<rparr>"

definition group_control_ctx ::
  "OBJGPU \<Rightarrow> KernelChannelGroupApi \<Rightarrow> KernelChannelGroup \<Rightarrow> NvU64 \<Rightarrow> nv_gpu_timeslice_control_ctx" where
  "group_control_ctx gpu api grp ts =
     \<lparr>tc_tsg_id = ucast (grpID grp), requested_timeslice_us = ts,
      tc_engine_type = engineType grp, tc_runlist_id = grp_runlistId grp,
      hclient = api_hClient api, htsg = api_hObject api,
      tc_gpu_instance = gpuInstance gpu, tc_phase = NV_GPU_TIMESLICE_CONTROL_PHASE\<rparr>"

text \<open>Everything an initialised group holds.\<close>

definition all_group_resources :: "nat \<Rightarrow> group_resource set" where
  "all_group_resources runQueues =
     {Res_Masks, Res_HwId, Res_ChanList, Res_EngCtxDesc, Res_SubctxIdHeap, Res_VaSpaceIdHeap,
      Res_MthdBuffers, Res_FaultBuffers} \<union> set (map Res_Mapped [0..<runQueues])"

subsection \<open>Sample objects\<close>

text \<open>
  A firmware client with one subdevice, a group with two channels that have no runlist yet, and a
  policy: it asks for 2000 microseconds twice, admits every bind of a group
  with fewer than three channels, and leaves new groups alone.
\<close>

definition sample_gpu :: OBJGPU where
  "sample_gpu = \<lparr>gpuInstance = 0, is_virtual = False, is_gsp_client = True,
     is_virtual_full_sriov = False, is_amodel = False, subdev_inst = 0, sli_subdevs = [0],
     class_supported = \<lambda>c. c = 0xa06c\<rparr>"

definition sample_channel :: KernelChannel where
  "sample_channel = \<lparr>kc_runlistId = INVALID_RUNLIST_ID, kc_runlist_set = \<lambda>s. False, kc_refCount = 1,
     kc_has_group = True, kc_gfid_vf = False, kc_gvas = True, kc_externally_owned = False,
     kc_engine_gr = Some True, kc_bIsContextBound = False\<rparr>"

definition sample_group :: KernelChannelGroup where
  "sample_group = \<lparr>grpID = 7, grp_runlistId = 3, engineType = 1, timesliceUs = 1024,
     pInterleaveLevel = \<lambda>i. 1, chanCount = 2, pChanList = [16, 32], bRunlistAssigned = True,
     tsgUniqueId = 1, bLegacyMode = False, pCtxBufPool = False, pChannelBufPool = False,
     bIsCallingContextVgpuPlugin = False, held = {}\<rparr>"

definition sample_api :: KernelChannelGroupApi where
  "sample_api = \<lparr>api_group = Some sample_group, api_hClient = 0xc1, api_hObject = 0xa1,
     api_externalClassId = 0xa06c, hKernelGraphicsContext = 0, hLegacykCtxShareSync = 0,
     hLegacykCtxShareAsync = 0, api_bRpcFree = False, gpreemptCreatorThreadId = 42\<rparr>"

definition sample_env :: kchangrp_env where
  "sample_env = \<lparr>ie_alloc_masks = True, ie_default_runlist = \<lambda>e. 3, ie_per_runlist_chram = True,
     ie_engine_xlate = \<lambda>e. NV_OK, ie_chid_mgr = True, ie_alloc_hwid = (NV_OK, 7),
     ie_chan_list_create = NV_OK, ie_alloc_eng_ctx = True, ie_alloc_subctx_heap = True,
     ie_alloc_vaspace_heap = True, ie_alloc_mthd_buffers = True, ie_alloc_fault_buffers = NV_OK,
     ie_runqueues = 2, ie_map_fault_buffers = \<lambda>i. NV_OK, ie_unique_id = 11, ie_in_tree = True,
     ie_owns_fault_buffers = True\<rparr>"

definition sample_ops :: nv_gpu_sched_ops where
  "sample_ops = \<lparr>on_task_init = None,
     on_bind = Some (\<lambda>ctx. if channel_count ctx < 3 then Bind_Return 0 else Reject_Bind (Bind_Return 0)),
     on_task_destroy = None,
     on_timeslice_control =
       Some (\<lambda>ctx. Override_Timeslice 2000 (\<lambda>r. Override_Timeslice 2000 (\<lambda>r. Control_Return 0)))\<rparr>"

subsection \<open>Lemmas\<close>

lemma timeslice_control_hook:
  "nv_gpu_sched_timeslice_control mem slot (Some \<lparr>tc_input = input, tc_request = u64_request_init\<rparr>) =
     Some \<lparr>tc_input = input,
           tc_request = fold (\<lambda>v r. snd (nv_gpu_transition_record_u64 r v))
                          (policy_overrides mem slot input) u64_request_init\<rparr>"
  by (auto simp: nv_gpu_sched_timeslice_control_def policy_overrides_def run_control_policy_Some
      split: option.splits)

lemma bind_hook:
  assumes "allow ctx = 1"
  shows "nv_gpu_sched_bind mem slot (Some ctx) =
    Some (if policy_rejects_bind mem slot ctx then ctx\<lparr>allow := 0\<rparr> else ctx)"
proof -
  have "ctx\<lparr>allow := 1\<rparr> = ctx" using assms by (cases ctx) simp
  then show ?thesis
    by (simp add: nv_gpu_sched_bind_def nv_gpu_sched_bpf_on_bind_def policy_rejects_bind_def
        run_bind_policy_Some split: option.splits)
qed

text \<open>The policy step as a table over the values the policy requests.\<close>

lemma timeslice_policy_step_eq:
  assumes "is_gsp_client gpu" and "nv_gpu_timeslice_control_eligible ts kfifoRunlistGetMinTimeSlice_HAL"
  shows "timeslice_policy_step mem slot gpu api grp ts =
    (case policy_overrides mem slot (group_control_ctx gpu api grp ts) of
       [] \<Rightarrow> Inr ts
     | v # vs \<Rightarrow>
         if api_hClient api \<noteq> 0 \<and> api_hObject api \<noteq> 0 \<and> list_all (\<lambda>w. w = v) vs \<and>
            nv_gpu_timeslice_control_eligible v kfifoRunlistGetMinTimeSlice_HAL
           then Inr v else Inl NV_ERR_INVALID_ARGUMENT)"
proof (cases "policy_overrides mem slot (group_control_ctx gpu api grp ts)")
  case Nil
  then show ?thesis using assms
    by (simp add: timeslice_policy_step_def group_control_ctx_def [symmetric] timeslice_control_hook Let_def)
next
  case (Cons v vs)
  let ?r = "fold (\<lambda>v r. snd (nv_gpu_transition_record_u64 r v)) (v # vs) u64_request_init"
  have "u64_attempted ?r \<and> u64_value ?r = v \<and> (u64_conflict ?r \<longleftrightarrow> (\<exists>w \<in> set vs. w \<noteq> v))"
    by (rule rec_u64.fold_fresh [OF _ _ refl]) simp_all
  then show ?thesis using assms Cons
    by (auto simp: timeslice_policy_step_def group_control_ctx_def [symmetric] timeslice_control_hook
        Let_def nv_gpu_timeslice_control_validate_def list_all_iff)
       (auto simp: group_control_ctx_def)
qed

lemma find_runlist_fixed:
  "r \<noteq> INVALID_RUNLIST_ID \<Longrightarrow> find_runlist s store kcs r = r"
  by (induction kcs) simp_all

lemma find_runlist_none_set:
  "\<forall>kc \<in> set kcs. \<not> kchannelIsRunlistSet s (store kc) \<Longrightarrow> find_runlist s store kcs r = r"
  by (induction kcs) simp_all

lemma force_runlist_frame:
  "grp_runlistId grp = r \<Longrightarrow> force_runlist s r kcs store grp = (store', grp') \<Longrightarrow>
     grp_runlistId grp' = r \<and> pChanList grp' = pChanList grp \<and> engineType grp' = engineType grp \<and>
     (\<forall>kc. store' kc = (if kc \<in> set kcs \<and> \<not> kchannelIsRunlistSet s (store kc)
                       then kchannelSetRunlistSet s True ((store kc)\<lparr>kc_runlistId := r\<rparr>)
                       else store kc))"
proof (induction kcs arbitrary: store grp)
  case Nil
  then show ?case by simp
next
  case (Cons kc kcs)
  show ?case
  proof (cases "kchannelIsRunlistSet s (store kc)")
    case True
    then show ?thesis using Cons.IH [OF Cons.prems(1)] Cons.prems(2) by auto
  next
    case False
    let ?store = "store(kc := kchannelSetRunlistSet s True ((store kc)\<lparr>kc_runlistId := r\<rparr>))"
    define grp1 where "grp1 = (if kc_has_group (store kc) \<and> (chanCount grp = 1 \<or> \<not> bRunlistAssigned grp)
      then grp\<lparr>grp_runlistId := r, bRunlistAssigned := True\<rparr> else grp)"
    have set_id: "kfifoRunlistSetId s kc r store grp = (NV_OK, ?store, grp1)"
      using False Cons.prems(1) by (auto simp: kfifoRunlistSetId_def grp1_def Let_def)
    have grp1: "grp_runlistId grp1 = r" "pChanList grp1 = pChanList grp" "engineType grp1 = engineType grp"
      using Cons.prems(1) by (simp_all add: grp1_def)
    have "force_runlist s r kcs ?store grp1 = (store', grp')"
      using Cons.prems(2) False set_id by simp
    from Cons.IH [OF grp1(1) this] grp1(2,3) False show ?thesis
      by (auto simp: kchannelIsRunlistSet_def kchannelSetRunlistSet_def)
  qed
qed

text \<open>
  One subdevice: afterwards every channel of the group has a runlist there, the runlists agree,
  and what was set on another subdevice stays set.
\<close>

lemma schedule_subdevice_agree:
  assumes agree: "runlists_agree store grp"
    and step: "schedule_subdevice dflt s (store, grp) = (store', grp')"
    and dflt: "dflt (engineType grp) \<noteq> INVALID_RUNLIST_ID"
  shows "runlists_agree store' grp' \<and> pChanList grp' = pChanList grp \<and> engineType grp' = engineType grp \<and>
    (\<forall>kc \<in> set (pChanList grp). kchannelIsRunlistSet s (store' kc) \<and>
       (\<forall>s'. kchannelIsRunlistSet s' (store kc) \<longrightarrow> kchannelIsRunlistSet s' (store' kc)))"
proof -
  define r0 where "r0 = find_runlist s store (pChanList grp) (grp_runlistId grp)"
  define r where "r = (if r0 = INVALID_RUNLIST_ID then dflt (engineType grp) else r0)"
  have r0: "r0 = grp_runlistId grp"
  proof (cases "grp_runlistId grp = INVALID_RUNLIST_ID")
    case True
    then show ?thesis using agree by (simp add: r0_def runlists_agree_def find_runlist_none_set)
  next
    case False
    then show ?thesis by (simp add: r0_def find_runlist_fixed)
  qed
  have r: "r \<noteq> INVALID_RUNLIST_ID" using dflt by (simp add: r_def)
  have "force_runlist s r (pChanList grp) store (grp\<lparr>grp_runlistId := r\<rparr>) = (store', grp')"
    using step by (simp only: schedule_subdevice_def r_def r0_def Let_def prod.case)
  from force_runlist_frame [OF _ this] have frame:
    "grp_runlistId grp' = r" "pChanList grp' = pChanList grp" "engineType grp' = engineType grp"
    "\<And>kc. store' kc = (if kc \<in> set (pChanList grp) \<and> \<not> kchannelIsRunlistSet s (store kc)
        then kchannelSetRunlistSet s True ((store kc)\<lparr>kc_runlistId := r\<rparr>) else store kc)"
    by simp_all
  have "kc_runlistId (store' kc) = r" if "kc \<in> set (pChanList grp)" for kc
    using that agree r0 frame(4) [of kc]
    by (auto simp: kchannelSetRunlistSet_def runlists_agree_def r_def)
  then show ?thesis using frame r
    by (auto simp: runlists_agree_def kchannelIsRunlistSet_def kchannelSetRunlistSet_def)
qed

lemma schedule_subdevices_agree:
  assumes "runlists_agree store grp"
    and "fold (schedule_subdevice dflt) ss (store, grp) = (store', grp')"
    and "dflt (engineType grp) \<noteq> INVALID_RUNLIST_ID"
  shows "runlists_agree store' grp' \<and> pChanList grp' = pChanList grp \<and>
    (\<forall>kc \<in> set (pChanList grp). (\<forall>s \<in> set ss. kchannelIsRunlistSet s (store' kc)) \<and>
       (\<forall>s'. kchannelIsRunlistSet s' (store kc) \<longrightarrow> kchannelIsRunlistSet s' (store' kc)))"
  using assms
proof (induction ss arbitrary: store grp)
  case Nil
  then show ?case by simp
next
  case (Cons s ss)
  obtain store1 grp1 where step: "schedule_subdevice dflt s (store, grp) = (store1, grp1)"
    by fastforce
  have rest: "fold (schedule_subdevice dflt) ss (store1, grp1) = (store', grp')"
    using Cons.prems(2) step by simp
  note one = schedule_subdevice_agree [OF Cons.prems(1) step Cons.prems(3)]
  have "dflt (engineType grp1) \<noteq> INVALID_RUNLIST_ID" using Cons.prems(3) one by simp
  from Cons.IH [OF _ rest this] one show ?case by auto
qed

lemma remove_loop_removeAll:
  "count_list nodes kc \<le> unat rc \<Longrightarrow>
     channel_list_remove_loop kc nodes rc found =
       (NV_OK, removeAll kc nodes, rc - of_nat (count_list nodes kc), found \<or> kc \<in> set nodes)"
proof (induction nodes arbitrary: rc found)
  case Nil
  then show ?case by simp
next
  case (Cons node nodes)
  show ?case
  proof (cases "kc = node")
    case False
    then show ?thesis using Cons by simp
  next
    case True
    then have "rc \<noteq> 0" using Cons.prems by auto
    then have "unat (rc - 1) = unat rc - 1" by (simp add: unat_minus_one)
    with True Cons.prems have "count_list nodes kc \<le> unat (rc - 1)" by simp
    from Cons.IH [OF this, of True] True \<open>rc \<noteq> 0\<close> show ?thesis by (simp add: algebra_simps)
  qed
qed

lemma set_timeslice_ok [simp]:
  "kfifoChannelGroupSetTimeslice grp ts = (NV_OK, grp\<lparr>timesliceUs := ts\<rparr>)"
  by (simp add: kfifoChannelGroupSetTimeslice_def kfifoRunlistGetMinTimeSlice_HAL_def
      kfifoChannelGroupSetTimesliceSched_def)

lemma map_fault_method_buffers_result:
  "map_fault_method_buffers f is grp = (st, grp') \<Longrightarrow>
     \<exists>m. m \<subseteq> Res_Mapped ` set is \<and> grp' = grp\<lparr>held := held grp \<union> m\<rparr> \<and>
       (st = NV_OK \<longrightarrow> m = Res_Mapped ` set is)"
proof (induction "is" arbitrary: grp)
  case Nil
  then show ?case by (intro exI [of _ "{}"]) simp
next
  case (Cons i "is")
  show ?case
  proof (cases "f i = NV_OK")
    case False
    then show ?thesis using Cons.prems by (intro exI [of _ "{}"]) auto
  next
    case True
    then have "map_fault_method_buffers f is (acquire_res (Res_Mapped i) grp) = (st, grp')"
      using Cons.prems by simp
    from Cons.IH [OF this] obtain m where m: "m \<subseteq> Res_Mapped ` set is"
      and grp': "grp' = grp\<lparr>held := insert (Res_Mapped i) (held grp \<union> m)\<rparr>"
      and ok: "st = NV_OK \<longrightarrow> m = Res_Mapped ` set is"
      by (auto simp: acquire_res_def)
    show ?thesis
    proof (intro exI [of _ "insert (Res_Mapped i) m"] conjI impI)
      show "insert (Res_Mapped i) m \<subseteq> Res_Mapped ` set (i # is)" using m by auto
      show "grp' = grp\<lparr>held := held grp \<union> insert (Res_Mapped i) m\<rparr>" using grp' by simp
      show "insert (Res_Mapped i) m = Res_Mapped ` set (i # is)" if "st = NV_OK" using ok that by simp
    qed
  qed
qed


lemma kchangrpInit_failed_held:
  "held (kchangrpInit_failed has_mgr b n grp) =
     held grp - {Res_SubctxIdHeap, Res_VaSpaceIdHeap, Res_EngCtxDesc, Res_ChanList, Res_Masks}
       - (if has_mgr then {Res_HwId} else {})
       - (if Res_MthdBuffers \<in> held grp
          then {Res_FaultBuffers, Res_MthdBuffers} \<union> (if b then set (map Res_Mapped [0..<n]) else {})
          else {})"
  by (simp add: kchangrpInit_failed_def release_res_def Let_def Diff_Un insert_Diff_if) blast

lemma kchangrpInit_buffers_held:
  assumes held: "held grp = {Res_Masks, Res_HwId, Res_ChanList, Res_EngCtxDesc, Res_SubctxIdHeap,
      Res_VaSpaceIdHeap}"
    and run: "kchangrpInit_buffers env grp = (st, grp')" and "ie_chid_mgr env"
  shows "held grp' = (if st = NV_OK then all_group_resources (ie_runqueues env) else {})"
proof -
  let ?g = "acquire_res Res_FaultBuffers (acquire_res Res_MthdBuffers grp)"
  obtain s1 g1 where m: "map_fault_method_buffers (ie_map_fault_buffers env) [0..<ie_runqueues env] ?g = (s1, g1)"
    by fastforce
  obtain mm where mm: "mm \<subseteq> Res_Mapped ` set [0..<ie_runqueues env]"
    "g1 = ?g\<lparr>held := held ?g \<union> mm\<rparr>" "s1 = NV_OK \<longrightarrow> mm = Res_Mapped ` set [0..<ie_runqueues env]"
    using map_fault_method_buffers_result [OF m] by blast
  have g1: "held g1 = insert Res_FaultBuffers (insert Res_MthdBuffers (held grp)) \<union> mm"
    using mm(2) by (simp add: acquire_res_def)
  consider "\<not> ie_alloc_mthd_buffers env" | "ie_alloc_mthd_buffers env" "ie_alloc_fault_buffers env \<noteq> NV_OK"
    | "ie_alloc_mthd_buffers env" "ie_alloc_fault_buffers env = NV_OK" "s1 \<noteq> NV_OK"
    | "ie_alloc_mthd_buffers env" "ie_alloc_fault_buffers env = NV_OK" "s1 = NV_OK"
    by blast
  then show ?thesis
  proof cases
    case 1
    with run assms(3) show ?thesis
      by (auto simp: kchangrpInit_buffers_def kchangrpInit_failed_held held)
  next
    case 2
    with run assms(3) show ?thesis
      by (auto simp: kchangrpInit_buffers_def kchangrpInit_failed_held acquire_res_def held Let_def)
  next
    case 3
    with run m have "st = s1" "grp' = kchangrpInit_failed (ie_chid_mgr env) True (ie_runqueues env) g1"
      by (simp_all add: kchangrpInit_buffers_def Let_def)
    with 3 mm(1) assms(3) show ?thesis by (auto simp: kchangrpInit_failed_held g1 held)
  next
    case 4
    with run m have "st = NV_OK" "grp' = g1\<lparr>tsgUniqueId := ie_unique_id env\<rparr>"
      by (simp_all add: kchangrpInit_buffers_def Let_def)
    with 4 mm(3) show ?thesis by (auto simp: g1 held all_group_resources_def)
  qed
qed

lemma kchangrpInit_heaps_held:
  assumes held: "held grp = {Res_Masks, Res_HwId}"
    and run: "kchangrpInit_heaps env grp = (st, grp')" and "ie_chid_mgr env"
  shows "held grp' = (if st = NV_OK then all_group_resources (ie_runqueues env) else {})"
proof -
  let ?g = "(acquire_res Res_VaSpaceIdHeap (acquire_res Res_SubctxIdHeap (acquire_res Res_EngCtxDesc
    (acquire_res Res_ChanList (grp\<lparr>pChanList := []\<rparr>)))))\<lparr>bLegacyMode := False\<rparr>"
  consider (ok) "ie_chan_list_create env = NV_OK" "ie_alloc_eng_ctx env" "ie_alloc_subctx_heap env"
      "ie_alloc_vaspace_heap env"
    | (list) "ie_chan_list_create env \<noteq> NV_OK"
    | (ctx) "ie_chan_list_create env = NV_OK" "\<not> ie_alloc_eng_ctx env"
    | (sub) "ie_chan_list_create env = NV_OK" "ie_alloc_eng_ctx env" "\<not> ie_alloc_subctx_heap env"
    | (vas) "ie_chan_list_create env = NV_OK" "ie_alloc_eng_ctx env" "ie_alloc_subctx_heap env"
        "\<not> ie_alloc_vaspace_heap env"
    by blast
  then show ?thesis
  proof cases
    case ok
    then have "kchangrpInit_buffers env ?g = (st, grp')"
      using run by (simp add: kchangrpInit_heaps_def Let_def)
    moreover have "held ?g = {Res_Masks, Res_HwId, Res_ChanList, Res_EngCtxDesc, Res_SubctxIdHeap,
        Res_VaSpaceIdHeap}"
      using held by (auto simp: acquire_res_def)
    ultimately show ?thesis using assms(3) by (intro kchangrpInit_buffers_held)
  qed (use run assms(3) in \<open>auto simp: kchangrpInit_heaps_def Let_def kchangrpInit_failed_held
      acquire_res_def held\<close>)
qed

lemma group_bind_allow:
  "allow (the (nv_gpu_sched_bind mem slot (Some (group_bind_ctx gpu grp)))) = 0 \<longleftrightarrow>
     policy_rejects_bind mem slot (group_bind_ctx gpu grp)"
proof -
  have "allow (group_bind_ctx gpu grp) = 1" by (simp add: group_bind_ctx_def)
  then show ?thesis by (simp add: bind_hook)
qed

lemma remove_distinct:
  assumes "group_channels_wf m store grp"
  shows "kfifoChannelListRemove kc store (pChanList grp) =
    (if kc \<in> set (pChanList grp)
     then (NV_OK, store(kc := (store kc)\<lparr>kc_refCount := 0\<rparr>), removeAll kc (pChanList grp))
     else (NV_ERR_INVALID_CHANNEL, store, pChanList grp))"
proof (cases "kc \<in> set (pChanList grp)")
  case True
  then have "count_list (pChanList grp) kc = 1" "kc_refCount (store kc) = 1"
    using assms by (simp_all add: group_channels_wf_def count_list_distinct list_all_iff)
  then show ?thesis using True by (simp add: kfifoChannelListRemove_def remove_loop_removeAll)
next
  case False
  then have "count_list (pChanList grp) kc = 0" by (simp add: count_list_0_iff)
  then show ?thesis using False by (simp add: kfifoChannelListRemove_def remove_loop_removeAll)
qed

subsection \<open>Properties\<close>

text \<open>
  C7: The timeslice command on a firmware client is a transaction. It issues at most one remote
  call; the value that call carries is the caller's, or a policy's replacement that lies, like the
  caller's value, within the bounded domain; the recorded timeslice changes exactly if the
  firmware accepted the call, and then to the value that was sent; without a call the command fails
  and changes nothing.
\<close>

theorem set_timeslice_transaction:
  assumes "api_group api = Some grp" and "is_gsp_client gpu"
    and "kchangrpapiCtrlCmdSetTimeslice call mem slot gpu api ts = (st, ts', api', calls)"
  shows "(calls = [] \<and> st \<noteq> NV_OK \<and> ts' = ts \<and> api' = api) \<or>
    (\<exists>c. calls = [c] \<and> st = call c \<and>
       c = Rpc_Control (api_hClient api) (api_hObject api) NVA06C_CTRL_CMD_SET_TIMESLICE
             (Timeslice_Params ts') \<and>
       (ts' = ts \<or> nv_gpu_timeslice_control_eligible ts kfifoRunlistGetMinTimeSlice_HAL \<and>
                   nv_gpu_timeslice_control_eligible ts' kfifoRunlistGetMinTimeSlice_HAL) \<and>
       api' = (if st = NV_OK then api\<lparr>api_group := Some (grp\<lparr>timesliceUs := ts'\<rparr>)\<rparr> else api))"
proof (cases "class_supported gpu (api_externalClassId api)")
  case False
  then show ?thesis using assms by (simp add: kchangrpapiCtrlCmdSetTimeslice_def)
next
  case True
  show ?thesis
  proof (cases "nv_gpu_timeslice_control_eligible ts kfifoRunlistGetMinTimeSlice_HAL")
    case False
    then have "timeslice_policy_step mem slot gpu api grp ts = Inr ts"
      by (simp add: timeslice_policy_step_def)
    then show ?thesis using assms True
      by (auto simp: kchangrpapiCtrlCmdSetTimeslice_def Let_def)
  next
    case eligible: True
    show ?thesis using assms True eligible
      by (auto simp: kchangrpapiCtrlCmdSetTimeslice_def timeslice_policy_step_eq Let_def
          split: list.splits if_splits)
  qed
qed

theorem set_timeslice_transaction_witness:
  "kchangrpapiCtrlCmdSetTimeslice (\<lambda>c. NV_OK) (\<lambda>p. sample_ops) (Some 1) sample_gpu sample_api 500 =
     (NV_OK, 2000, sample_api\<lparr>api_group := Some (sample_group\<lparr>timesliceUs := 2000\<rparr>)\<rparr>,
      [Rpc_Control 0xc1 0xa1 0xa06c0103 (Timeslice_Params 2000)]) \<and>
   nv_gpu_timeslice_control_eligible 2000 kfifoRunlistGetMinTimeSlice_HAL"
proof -
  have run: "kchangrpapiCtrlCmdSetTimeslice (\<lambda>c. NV_OK) (\<lambda>p. sample_ops) (Some 1) sample_gpu sample_api 500 =
     (NV_OK, 2000, sample_api\<lparr>api_group := Some (sample_group\<lparr>timesliceUs := 2000\<rparr>)\<rparr>,
      [Rpc_Control 0xc1 0xa1 0xa06c0103 (Timeslice_Params 2000)])"
    by (simp add: kchangrpapiCtrlCmdSetTimeslice_def timeslice_policy_step_eq policy_overrides_def
        sample_api_def sample_gpu_def sample_ops_def nv_gpu_timeslice_control_eligible_def
        kfifoRunlistGetMinTimeSlice_HAL_def Let_def)
  show ?thesis
    using set_timeslice_transaction [OF _ _ run, of sample_group] run
    by (simp add: sample_api_def sample_gpu_def)
qed

text \<open>
  C6: On a firmware client, for a request within the bounded domain, the timeslice command does what
  the registered policy asks for: no request leaves the caller's value; requests that all agree on an
  admissible value replace it; requests that disagree, or ask for a value outside the domain, fail the
  command before the firmware is called.
\<close>

theorem set_timeslice_follows_policy:
  assumes "api_group api = Some grp" and "is_gsp_client gpu"
    and "class_supported gpu (api_externalClassId api)"
    and "api_hClient api \<noteq> 0" and "api_hObject api \<noteq> 0"
    and "nv_gpu_timeslice_control_eligible ts kfifoRunlistGetMinTimeSlice_HAL"
  shows "fst (kchangrpapiCtrlCmdSetTimeslice call mem slot gpu api ts) =
      (case policy_overrides mem slot (group_control_ctx gpu api grp ts) of
         [] \<Rightarrow> call (Rpc_Control (api_hClient api) (api_hObject api) NVA06C_CTRL_CMD_SET_TIMESLICE
                     (Timeslice_Params ts))
       | v # vs \<Rightarrow>
           if list_all (\<lambda>w. w = v) vs \<and> 1 \<le> v \<and> v \<le> 1000000
           then call (Rpc_Control (api_hClient api) (api_hObject api) NVA06C_CTRL_CMD_SET_TIMESLICE
                        (Timeslice_Params v))
           else NV_ERR_INVALID_ARGUMENT)"
  using assms
  by (simp add: kchangrpapiCtrlCmdSetTimeslice_def timeslice_policy_step_eq Let_def
      nv_gpu_timeslice_control_eligible_def kfifoRunlistGetMinTimeSlice_HAL_def
      split: list.splits)

theorem set_timeslice_follows_policy_witness:
  "fst (kchangrpapiCtrlCmdSetTimeslice (\<lambda>c. NV_ERR_BUSY) (\<lambda>p. sample_ops) (Some 1) sample_gpu sample_api 500)
     = NV_ERR_BUSY \<and>
   fst (kchangrpapiCtrlCmdSetTimeslice (\<lambda>c. NV_OK) (\<lambda>p. sample_ops\<lparr>on_timeslice_control :=
          Some (\<lambda>ctx. Override_Timeslice 2000 (\<lambda>r. Override_Timeslice 3000 (\<lambda>r. Control_Return 0)))\<rparr>)
          (Some 1) sample_gpu sample_api 500) = NV_ERR_INVALID_ARGUMENT"
  by (subst (1 2) set_timeslice_follows_policy [where grp = sample_group])
    (simp_all add: policy_overrides_def sample_api_def sample_gpu_def sample_ops_def
      nv_gpu_timeslice_control_eligible_def kfifoRunlistGetMinTimeSlice_HAL_def)

text \<open>
  C8: Scheduling a group asks the policy first. A rejected bind gives the retry status, changes no
  channel and no group, and issues no call; an admitted one, with every channel schedulable, issues
  exactly one call and returns its status.
\<close>

theorem schedule_admission:
  assumes "api_group api = Some grp" and "class_supported gpu (api_externalClassId api)"
  shows "if policy_rejects_bind mem slot (group_bind_ctx gpu grp)
    then kchangrpapiCtrlCmdGpFifoSchedule call dflt mem slot gpu store api b =
           (NV_ERR_BUSY_RETRY, store, api, [])
    else if list_all (\<lambda>kc. kchannelIsSchedulable gpu (store kc)) (pChanList grp)
    then \<exists>store' api' c. kchangrpapiCtrlCmdGpFifoSchedule call dflt mem slot gpu store api b =
           (call c, store', api', [c])
    else kchangrpapiCtrlCmdGpFifoSchedule call dflt mem slot gpu store api b =
           (NV_ERR_INVALID_STATE, store, api, [])"
  using assms unfolding kchangrpapiCtrlCmdGpFifoSchedule_def Let_def group_bind_ctx_def [symmetric]
  by (auto simp: group_bind_allow split: prod.splits)

theorem schedule_admission_witness:
  "kchangrpapiCtrlCmdGpFifoSchedule (\<lambda>c. NV_OK) (\<lambda>e. 0) (\<lambda>p. sample_ops) (Some 1) sample_gpu
     (\<lambda>p. sample_channel) (sample_api\<lparr>api_group := Some (sample_group\<lparr>chanCount := 3\<rparr>)\<rparr>) True =
     (NV_ERR_BUSY_RETRY, \<lambda>p. sample_channel,
      sample_api\<lparr>api_group := Some (sample_group\<lparr>chanCount := 3\<rparr>)\<rparr>, [])"
  using schedule_admission [of "sample_api\<lparr>api_group := Some (sample_group\<lparr>chanCount := 3\<rparr>)\<rparr>"
      "sample_group\<lparr>chanCount := 3\<rparr>" sample_gpu "\<lambda>p. sample_ops" "Some 1"]
  by (simp add: sample_api_def sample_gpu_def policy_rejects_bind_def sample_ops_def group_bind_ctx_def)



text \<open>
  C10: Adding a channel that is in no group keeps the group well-formed whatever the outcome, and the
  channel is listed, with its reference taken, exactly if it was added.
\<close>

theorem add_channel_wf:
  assumes wf: "group_channels_wf maxc store grp"
    and new: "kc \<notin> set (pChanList grp)" "kc_refCount (store kc) = 0"
    and level: "pInterleaveLevel grp (subdev_inst gpu) \<le> 2"
    and run: "kchangrpAddChannel maxc has_share alloc_node gpu kc store grp = (st, store', grp')"
  shows "group_channels_wf maxc store' grp' \<and>
    (if st = NV_OK then pChanList grp' = pChanList grp @ [kc] \<and> chanCount grp' = chanCount grp + 1
     else store' = store \<and> grp' = grp)"
proof (cases "chanCount grp = maxc \<or> \<not> has_share \<or> \<not> alloc_node \<or>
    kchannelIsRunlistSet (subdev_inst gpu) (store kc) \<and> grp_runlistId grp \<noteq> kc_runlistId (store kc)")
  case True
  then show ?thesis using run wf
    by (auto simp: kchangrpAddChannel_def kfifoChannelListAppend_def split: if_splits)
next
  case False
  let ?store = "store(kc := (store kc)\<lparr>kc_refCount := kc_refCount (store kc) + 1\<rparr>)"
  let ?grp = "grp\<lparr>pChanList := pChanList grp @ [kc], chanCount := chanCount grp + 1\<rparr>"
  have "chanCount grp = of_nat (length (pChanList grp))" using wf by (simp add: group_channels_wf_def)
  with False have "length (pChanList grp) \<noteq> unat maxc" by auto
  then have len: "length (pChanList grp) < unat maxc" using wf by (simp add: group_channels_wf_def)
  have lv: "pInterleaveLevel grp (subdev_inst gpu) \<in> {0, 1, 2}"
    using word_le_2_cases [OF level] by simp
  then obtain lvl where "kchangrpSetInterleaveLevel gpu ?grp (pInterleaveLevel ?grp (subdev_inst gpu)) =
      (NV_OK, ?grp\<lparr>pInterleaveLevel := lvl\<rparr>)"
    by (auto simp: kchangrpSetInterleaveLevel_def kchangrpSetInterleaveLevelSched_def Let_def)
  with False run have post: "st = NV_OK" "store' = ?store" "grp' = ?grp\<lparr>pInterleaveLevel := lvl\<rparr>"
    by (auto simp: kchangrpAddChannel_def kfifoChannelListAppend_def Let_def)
  show ?thesis using wf new len by (auto simp: post group_channels_wf_def list_all_iff)
qed

theorem add_channel_wf_witness:
  "let (st, store', grp') = kchangrpAddChannel 64 True True sample_gpu 48
         ((\<lambda>p. sample_channel)(48 := sample_channel\<lparr>kc_refCount := 0\<rparr>)) sample_group
   in st = NV_OK \<and> group_channels_wf 64 store' grp' \<and> pChanList grp' = [16, 32, 48]"
proof -
  let ?store = "(\<lambda>p. sample_channel)(48 := sample_channel\<lparr>kc_refCount := 0\<rparr>)"
  obtain store' grp' where
    run: "kchangrpAddChannel 64 True True sample_gpu 48 ?store sample_group = (NV_OK, store', grp')"
    by (simp add: kchangrpAddChannel_def kfifoChannelListAppend_def kchangrpSetInterleaveLevel_def
        kchangrpSetInterleaveLevelSched_def kchannelIsRunlistSet_def sample_group_def sample_gpu_def
        sample_channel_def Let_def)
  have "group_channels_wf 64 ?store sample_group" "48 \<notin> set (pChanList sample_group)"
    "kc_refCount (?store 48) = 0" "pInterleaveLevel sample_group (subdev_inst sample_gpu) \<le> 2"
    by (simp_all add: group_channels_wf_def sample_group_def sample_channel_def)
  from add_channel_wf [OF this run] run show ?thesis by (simp add: sample_group_def)
qed

text \<open>
  C11: Removing a channel from a well-formed group succeeds exactly if the channel is listed; then it
  is listed no more, its reference is dropped, every other channel is untouched and the group stays
  well-formed, and otherwise nothing changes.
\<close>

theorem remove_channel_wf:
  assumes wf: "group_channels_wf maxc store grp"
    and run: "kchangrpRemoveChannel kc store grp = (st, store', grp')"
  shows "group_channels_wf maxc store' grp' \<and>
    (if kc \<in> set (pChanList grp)
     then st = NV_OK \<and> pChanList grp' = removeAll kc (pChanList grp) \<and>
       kc_refCount (store' kc) = 0 \<and> (\<forall>p. p \<noteq> kc \<longrightarrow> store' p = store p) \<and>
       (bRunlistAssigned grp' \<longleftrightarrow> bRunlistAssigned grp \<and> pChanList grp' \<noteq> [])
     else st = NV_ERR_INVALID_CHANNEL \<and> store' = store \<and> grp' = grp)"
proof (cases "kc \<in> set (pChanList grp)")
  case False
  then show ?thesis using run wf by (auto simp: kchangrpRemoveChannel_def remove_distinct Let_def)
next
  case True
  let ?l = "removeAll kc (pChanList grp)"
  have dist: "distinct (pChanList grp)" and cnt: "chanCount grp = of_nat (length (pChanList grp))"
    and len: "length (pChanList grp) \<le> unat maxc"
    using wf by (simp_all add: group_channels_wf_def)
  have l: "length (pChanList grp) = Suc (length ?l)"
    using True dist by (simp add: length_removeAll_distinct)
  have "unat maxc < 2 ^ LENGTH(32)" by (rule unsigned_less)
  then have bound: "length (pChanList grp) < 2 ^ LENGTH(32)" using len by simp
  have nz: "chanCount grp \<noteq> 0"
    using cnt l bound by (simp add: of_nat_word_eq_0 del: of_nat_Suc)
  have cnt': "chanCount grp - 1 = of_nat (length ?l)" using cnt l by simp
  have z: "chanCount grp - 1 = 0 \<longleftrightarrow> ?l = []"
    using cnt' l bound by (simp add: of_nat_word_eq_0 del: of_nat_Suc)
  have post: "st = NV_OK" "store' = store(kc := (store kc)\<lparr>kc_refCount := 0\<rparr>)"
    "grp' = (let g = grp\<lparr>pChanList := ?l, chanCount := chanCount grp - 1\<rparr>
             in if ?l = [] then g\<lparr>bRunlistAssigned := False\<rparr> else g)"
    using run wf True nz z by (auto simp: kchangrpRemoveChannel_def remove_distinct Let_def)
  show ?thesis using wf True dist l cnt'
    by (auto simp: post Let_def group_channels_wf_def list_all_iff distinct_removeAll)
qed

theorem remove_channel_wf_witness:
  "let (st, store', grp') = kchangrpRemoveChannel 32 (\<lambda>p. sample_channel) sample_group
   in st = NV_OK \<and> group_channels_wf 64 store' grp' \<and> pChanList grp' = [16] \<and> kc_refCount (store' 32) = 0"
proof -
  obtain st store' grp' where
    run: "kchangrpRemoveChannel 32 (\<lambda>p. sample_channel) sample_group = (st, store', grp')"
    by (metis prod_cases3)
  have "group_channels_wf 64 (\<lambda>p. sample_channel) sample_group"
    by (simp add: group_channels_wf_def sample_group_def sample_channel_def)
  from remove_channel_wf [OF this run] run show ?thesis by (simp add: sample_group_def)
qed

text \<open>
  C12: Initialising a group either succeeds and holds every resource of an initialised group, or
  fails; a failure leaves nothing behind, except that when the runlist translation or the allocation
  of the hardware identifier fails the four mask arrays stay allocated.
\<close>

theorem kchangrpInit_resources:
  assumes empty: "held grp = {}" and mgr: "ie_chid_mgr env"
    and run: "kchangrpInit env grp = (st, grp')"
  shows "held grp' =
    (if st = NV_OK then all_group_resources (ie_runqueues env)
     else if ie_alloc_masks env \<and>
       (ie_per_runlist_chram env \<and> ie_engine_xlate env (engineType grp) \<noteq> NV_OK \<or>
        fst (ie_alloc_hwid env) \<noteq> NV_OK) then {Res_Masks}
     else {})"
proof (cases "ie_alloc_masks env \<and> fst (ie_alloc_hwid env) = NV_OK \<and>
    (ie_per_runlist_chram env \<longrightarrow> ie_engine_xlate env (engineType grp) = NV_OK)")
  case False
  then show ?thesis using run empty
    by (auto simp: kchangrpInit_def Let_def acquire_res_def kchangrpInit_failed_held split: if_splits)
next
  case True
  let ?g = "(acquire_res Res_HwId ((acquire_res Res_Masks (grp\<lparr>pInterleaveLevel := \<lambda>i. 0\<rparr>))
    \<lparr>grp_runlistId := ie_default_runlist env (engineType grp), grpID := snd (ie_alloc_hwid env)\<rparr>))
    \<lparr>timesliceUs := kfifoChannelGroupGetDefaultTimeslice_HAL\<rparr>"
  have "held ?g = {Res_Masks, Res_HwId}" using empty by (auto simp: acquire_res_def)
  moreover have "kchangrpInit_heaps env ?g = (st, grp')"
    using run True by (cases "ie_per_runlist_chram env") (simp_all add: kchangrpInit_def Let_def acquire_res_def)
  ultimately have "held grp' = (if st = NV_OK then all_group_resources (ie_runqueues env) else {})"
    using mgr by (rule kchangrpInit_heaps_held)
  then show ?thesis using True by auto
qed

theorem kchangrpInit_resources_witness:
  "let (st, grp') = kchangrpInit (sample_env\<lparr>ie_alloc_hwid := (NV_ERR_INSUFFICIENT_RESOURCES, 0)\<rparr>) sample_group
   in st = NV_ERR_INSUFFICIENT_RESOURCES \<and> held grp' = {Res_Masks}"
proof -
  let ?env = "sample_env\<lparr>ie_alloc_hwid := (NV_ERR_INSUFFICIENT_RESOURCES, 0)\<rparr>"
  obtain st grp' where run: "kchangrpInit ?env sample_group = (st, grp')" by fastforce
  then have "st = NV_ERR_INSUFFICIENT_RESOURCES"
    by (auto simp: kchangrpInit_def sample_env_def Let_def)
  with kchangrpInit_resources [OF _ _ run] run show ?thesis
    by (simp add: sample_env_def sample_group_def)
qed



end
