(* ===== verification/Group_Construct.thy ===== *)
theory Group_Construct
  imports Channel_Group
begin

section \<open>Construction of a channel group object\<close>

text \<open>
  The model of \<^verbatim>\<open>kchangrpapiConstruct_IMPL\<close> in
  \<^verbatim>\<open>src/nvidia/src/kernel/gpu/fifo/kernel_channel_group_api.c\<close>. The constructor is a
  sequence of stages with two labels: a stage falls through, jumps to \<open>failed\<close> (release what was
  acquired and fail), jumps to \<open>done\<close> (give the locks back), or returns. Its local variables are
  the record \<open>ctor_state\<close>; everything it does to the outside (locks, shared objects, pools,
  remote calls, diagnostics) is an event appended to the trace in that record. The answers of the code it
  calls are gathered in one record per stage.

  The exit code after \<open>done\<close> can jump back to \<open>failed\<close> when the reservation of
  context buffers fails, so the exit is a loop; it is modelled with a bound on the number of passes, and two
  passes are shown to be enough.
\<close>

subsection \<open>Diagnostics\<close>

datatype nv_gpu_sched_init_diagnostic_phase =
    NV_GPU_SCHED_INIT_DIAGNOSTIC_VALIDATED
  | NV_GPU_SCHED_INIT_DIAGNOSTIC_NATIVE_RETURN
  | NV_GPU_SCHED_INIT_DIAGNOSTIC_CONSTRUCTOR_RETURN

datatype nv_gpu_sched_init_diagnostic_field =
    NV_GPU_SCHED_INIT_DIAGNOSTIC_FIELD_NONE
  | NV_GPU_SCHED_INIT_DIAGNOSTIC_FIELD_TIMESLICE
  | NV_GPU_SCHED_INIT_DIAGNOSTIC_FIELD_INTERLEAVE

text \<open>
  The diagnostic context, in three groups: who is being constructed, what the policy decided, and
  how far the construction came. A native status that was not observed (all ones in the code) is
  \<open>None\<close>. The version, size and padding words are constants and left out.
\<close>

record diag_identity =
  d_h_client :: NvU32
  d_h_resource :: NvU32
  d_gpu_instance :: NvU32
  d_subdevice_instance :: nat
  d_group_id :: NvU32
  d_runlist_id :: NvU32
  d_engine_type :: NvU32
  d_constructor_epoch :: NvU32

record diag_decision =
  d_default_timeslice :: NvU64
  d_minimum_timeslice :: NvU64
  d_default_interleave :: NvU32
  d_timeslice_request :: nv_gpu_transition_u64_request_t
  d_interleave_request :: nv_gpu_transition_u32_request_t
  d_timeslice_validation_result :: nv_gpu_transition_result
  d_interleave_validation_result :: nv_gpu_transition_result
  d_effective_timeslice :: NvU64
  d_effective_interleave :: NvU32

record nv_gpu_sched_init_diagnostic_ctx =
  diag_phase :: nv_gpu_sched_init_diagnostic_phase
  diag_field :: nv_gpu_sched_init_diagnostic_field
  diag_id :: diag_identity
  diag_dec :: diag_decision
  timeslice_native_status :: "NV_STATUS option"
  timeslice_post_value :: NvU64
  interleave_native_status :: "NV_STATUS option"
  interleave_post_value :: NvU32
  constructor_status :: NV_STATUS
  final_timeslice :: NvU64
  final_interleave :: NvU32
  final_snapshot_valid :: bool

subsection \<open>State and events\<close>

datatype ctor_event =
    Locks_Acquire
  | All_Locks_Acquire
  | Locks_Release
  | Buf_Info_Alloc
  | Buf_Info_Free
  | Share_Alloc
  | Share_Free
  | Ctx_Pool_Init
  | Ctx_Pool_Destroy
  | Channel_Pool_Init
  | Channel_Pool_Destroy
  | Group_Init
  | Group_Destroy
  | Graphics_Context_Alloc
  | Graphics_Context_Free NvHandle
  | Remote_Alloc NV_STATUS
  | Remote_Control ctrl_params
  | Remote_Free
  | Promote_Fault_Buffers
  | Pool_Reserve NvU32
  | Diagnostic nv_gpu_sched_init_diagnostic_ctx

record ctor_state =
  c_api :: KernelChannelGroupApi
  c_pShared :: bool
  c_rmStatus :: NV_STATUS
  c_rmEngineType :: NvU32
  bTsgAllocated :: bool
  bPolicyTimeslice :: bool
  bPolicyInterleave :: bool
  bPolicyRemoteAllocated :: bool
  bLockAcquired :: bool
  bReserveMem :: bool
  c_bufCount :: NvU32
  bSchedDiagnosticActive :: bool
  schedDiagnostic :: nv_gpu_sched_init_diagnostic_ctx
  c_trace :: "ctor_event list"

datatype ctor_label = Fall | Goto_failed | Goto_done | Return NV_STATUS

type_synonym ctor_stage = "ctor_state \<Rightarrow> ctor_label \<times> ctor_state"

definition emit :: "ctor_event \<Rightarrow> ctor_state \<Rightarrow> ctor_state" where
  "emit e s = s\<lparr>c_trace := c_trace s @ [e]\<rparr>"

definition the_group :: "ctor_state \<Rightarrow> KernelChannelGroup" where
  "the_group s = the (api_group (c_api s))"

definition put_group :: "KernelChannelGroup \<Rightarrow> ctor_state \<Rightarrow> ctor_state" where
  "put_group grp s = s\<lparr>c_api := (c_api s)\<lparr>api_group := Some grp\<rparr>\<rparr>"

text \<open>
  \<^verbatim>\<open>NV_ASSERT_OK_OR_GOTO(rmStatus, call, failed)\<close> and the plain
  \<^verbatim>\<open>goto failed\<close>.
\<close>

definition check_ok :: "NV_STATUS \<Rightarrow> ctor_state \<Rightarrow> ctor_label \<times> ctor_state" where
  "check_ok st s = (if st \<noteq> NV_OK then Goto_failed else Fall, s\<lparr>c_rmStatus := st\<rparr>)"

definition fail_with :: "NV_STATUS \<Rightarrow> ctor_state \<Rightarrow> ctor_label \<times> ctor_state" where
  "fail_with st s = (Goto_failed, s\<lparr>c_rmStatus := st\<rparr>)"

primrec run_stages :: "ctor_stage list \<Rightarrow> ctor_stage" where
  "run_stages [] s = (Fall, s)"
| "run_stages (f # fs) s =
     (case f s of (l, s') \<Rightarrow> if l = Fall then run_stages fs s' else (l, s'))"

subsection \<open>Answers of the code that the constructor calls\<close>

record ctor_params =
  p_hClient :: NvHandle
  p_hResource :: NvHandle
  p_externalClassId :: NvU32
  p_hVASpace :: NvHandle
  p_skip_rpc :: bool
  p_copy_ctor :: bool

record prologue_env =
  pe_thread_id :: NvU64
  pe_lock_owner :: bool
  pe_alloc_buf_info :: bool
  pe_locks :: NV_STATUS
  pe_copy :: "KernelChannelGroupApi \<Rightarrow> NV_STATUS \<times> KernelChannelGroupApi"

record lookup_env =
  le_share :: NV_STATUS
  le_new_group :: KernelChannelGroup
  le_client :: NV_STATUS
  le_device :: NV_STATUS
  le_engine_type :: NvU32
  le_per_runlist_hw :: bool
  le_mig_in_use :: bool
  le_mig_instance :: NV_STATUS
  le_mig_engine :: "NV_STATUS \<times> NvU32"
  le_multiple_vaspaces :: bool
  le_vaspace :: "NV_STATUS \<times> bool"
  le_sriov :: bool
  le_vgpu_plugin :: bool
  le_gfid :: NV_STATUS

record pool_env =
  po_internal_client :: bool
  po_ctx_pool :: "NV_STATUS \<times> bool"
  po_channel_pool :: "NV_STATUS \<times> bool"
  po_group :: kchangrp_env
  po_vaspace_ref :: NV_STATUS

record reserve_env =
  re_cc_enabled :: bool
  re_scrub_setup :: bool
  re_kernel_priv :: bool
  re_engine_in_instance :: bool
  re_gr_buffers :: NvU32
  re_xlate :: NV_STATUS
  re_falcon :: bool

record remote_env =
  rm_is_t234d :: bool
  rm_graphics :: "NV_STATUS \<times> NvHandle"
  rm_alloc :: NV_STATUS
  rm_control :: "ctrl_params \<Rightarrow> NV_STATUS"
  rm_promote :: NV_STATUS
  rm_free :: NV_STATUS
  rm_list_append :: bool
  rm_reserve :: NV_STATUS
  rm_relock :: NV_STATUS

subsection \<open>Stages\<close>

definition ctor_prologue :: "prologue_env \<Rightarrow> ctor_params \<Rightarrow> ctor_stage" where
  "ctor_prologue env params s =
     (let s = s\<lparr>c_api := (c_api s)\<lparr>gpreemptCreatorThreadId := pe_thread_id env\<rparr>\<rparr>
      in if p_copy_ctor params then
           (if pe_locks env \<noteq> NV_OK then (Goto_done, s\<lparr>c_rmStatus := pe_locks env\<rparr>)
            else
              (let s = (emit Locks_Acquire s)\<lparr>bLockAcquired := True\<rparr>
               in (case pe_copy env (c_api s) of (st, api) \<Rightarrow>
                     (Goto_done, s\<lparr>c_api := api, c_rmStatus := st\<rparr>))))
         else if pe_lock_owner env then (Return NV_ERR_INVALID_LOCK_STATE, s)
         else if \<not> pe_alloc_buf_info env then (Return NV_ERR_NO_MEMORY, s)
         else
           (let s = emit Buf_Info_Alloc s
            in if pe_locks env \<noteq> NV_OK then (Goto_done, s\<lparr>c_rmStatus := pe_locks env\<rparr>)
               else (Fall, (emit Locks_Acquire s)\<lparr>bLockAcquired := True, c_rmStatus := NV_OK\<rparr>)))"

definition ctor_share :: "lookup_env \<Rightarrow> ctor_stage" where
  "ctor_share env s =
     (if le_share env \<noteq> NV_OK then fail_with (le_share env) s
      else (Fall, (put_group (le_new_group env) (emit Share_Alloc s))\<lparr>c_pShared := True, c_rmStatus := NV_OK\<rparr>))"

definition ctor_client :: "lookup_env \<Rightarrow> OBJGPU \<Rightarrow> ctor_params \<Rightarrow> ctor_stage" where
  "ctor_client env gpu params s =
     (if \<not> class_supported gpu (p_externalClassId params) then fail_with NV_ERR_NOT_SUPPORTED s
      else if le_client env \<noteq> NV_OK then fail_with NV_ERR_INVALID_ARGUMENT s
      else if le_device env \<noteq> NV_OK then fail_with NV_ERR_INVALID_ARGUMENT s
      else (Fall, s\<lparr>c_rmStatus := NV_OK, c_rmEngineType := le_engine_type env\<rparr>))"

definition ctor_engine_type :: "lookup_env \<Rightarrow> ctor_stage" where
  "ctor_engine_type env s =
     (if le_per_runlist_hw env \<and> \<not> RM_ENGINE_TYPE_IS_VALID (c_rmEngineType s)
        then fail_with NV_ERR_INVALID_ARGUMENT s
      else
        (let s = (if le_per_runlist_hw env
                    then put_group ((the_group s)\<lparr>engineType := c_rmEngineType s\<rparr>) s else s)
         in if le_mig_in_use env then
              (if \<not> RM_ENGINE_TYPE_IS_VALID (engineType (the_group s)) then fail_with NV_ERR_INVALID_STATE s
               else if le_mig_instance env \<noteq> NV_OK then fail_with (le_mig_instance env) s
               else if fst (le_mig_engine env) \<noteq> NV_OK then fail_with (fst (le_mig_engine env)) s
               else (Fall, (put_group ((the_group s)\<lparr>engineType := snd (le_mig_engine env)\<rparr>) s)
                             \<lparr>c_rmEngineType := snd (le_mig_engine env), c_rmStatus := NV_OK\<rparr>))
            else if RM_ENGINE_TYPE_IS_GR (c_rmEngineType s) \<and> c_rmEngineType s \<noteq> 1
              then fail_with NV_ERR_INVALID_ARGUMENT s
            else (Fall, s)))"

definition ctor_vaspace :: "lookup_env \<Rightarrow> ctor_params \<Rightarrow> ctor_stage" where
  "ctor_vaspace env params s =
     (if (\<not> le_multiple_vaspaces env \<or> p_hVASpace params \<noteq> 0) \<and> fst (le_vaspace env) \<noteq> NV_OK
        then fail_with (fst (le_vaspace env)) s
      else if (\<not> le_multiple_vaspaces env \<or> p_hVASpace params \<noteq> 0) \<and> \<not> snd (le_vaspace env)
        then fail_with NV_ERR_INVALID_STATE s
      else
        (let s = (if le_sriov env
                    then put_group ((the_group s)\<lparr>bIsCallingContextVgpuPlugin := le_vgpu_plugin env\<rparr>) s
                  else s)
         in if bIsCallingContextVgpuPlugin (the_group s) then (Fall, s)
            else check_ok (le_gfid env) s))"

definition ctor_pools :: "pool_env \<Rightarrow> ctor_stage" where
  "ctor_pools env s =
     (if po_internal_client env then (Fall, s)
      else if fst (po_ctx_pool env) \<noteq> NV_OK then fail_with (fst (po_ctx_pool env)) s
      else
        (let s = (if snd (po_ctx_pool env) then emit Ctx_Pool_Init s else s);
             s = put_group ((the_group s)\<lparr>pCtxBufPool := snd (po_ctx_pool env)\<rparr>) s
         in if fst (po_channel_pool env) \<noteq> NV_OK then fail_with (fst (po_channel_pool env)) s
            else
              (let s = (if snd (po_channel_pool env) then emit Channel_Pool_Init s else s)
               in (Fall, (put_group ((the_group s)\<lparr>pChannelBufPool := snd (po_channel_pool env)\<rparr>) s)
                           \<lparr>c_rmStatus := NV_OK\<rparr>))))"

definition ctor_group_init :: "pool_env \<Rightarrow> OBJGPU \<Rightarrow> ctor_params \<Rightarrow> ctor_stage" where
  "ctor_group_init env gpu params s =
     (case kchangrpInit (po_group env) (the_group s) of (st, grp) \<Rightarrow>
        let s = put_group grp s
        in if st \<noteq> NV_OK then fail_with st s
           else
             (let s = (emit Group_Init s)\<lparr>bTsgAllocated := True, c_rmStatus := NV_OK\<rparr>;
                  s = s\<lparr>c_api := (c_api s)\<lparr>hLegacykCtxShareSync := 0, hLegacykCtxShareAsync := 0\<rparr>\<rparr>;
                  s = (if p_hVASpace params \<noteq> 0 then s\<lparr>c_rmStatus := po_vaspace_ref env\<rparr> else s)
              in (case kchangrpSetInterleaveLevel gpu (the_group s) NVA06C_CTRL_INTERLEAVE_LEVEL_MEDIUM of
                    (st, grp) \<Rightarrow> check_ok st (put_group grp s))))"

text \<open>
  The task-init policy: the decision context is filled from the native defaults, the policy runs, the
  requests are validated against the group as it is afterwards, and each accepted value is applied.
\<close>

abbreviation (input) NV_GPU_SCHED_PHASE_DEFAULTS_READY :: NvU32 where
  "NV_GPU_SCHED_PHASE_DEFAULTS_READY \<equiv> 1"

fun kchangrpapiPolicyValueApplies :: "nv_gpu_transition_result \<Rightarrow> bool" where
  "kchangrpapiPolicyValueApplies NV_GPU_TRANSITION_APPLY = True"
| "kchangrpapiPolicyValueApplies NV_GPU_TRANSITION_NOOP_DEFAULT = False"
| "kchangrpapiPolicyValueApplies NV_GPU_TRANSITION_NOOP_REPEAT = False"
| "kchangrpapiPolicyValueApplies NV_GPU_TRANSITION_NOOP_STALE = False"
| "kchangrpapiPolicyValueApplies NV_GPU_TRANSITION_NOOP_CONFLICT = False"
| "kchangrpapiPolicyValueApplies NV_GPU_TRANSITION_REJECT_ACTION = False"
| "kchangrpapiPolicyValueApplies NV_GPU_TRANSITION_REJECT_RANGE = False"
| "kchangrpapiPolicyValueApplies NV_GPU_TRANSITION_REJECT_IDENTITY = False"

definition group_snapshot :: "KernelChannelGroup \<Rightarrow> nv_gpu_scheduler_snapshot_t" where
  "group_snapshot grp =
     \<lparr>ss_tsg_id = ucast (grpID grp), ss_runlist_id = grp_runlistId grp,
      ss_phase = NV_GPU_SCHED_PHASE_DEFAULTS_READY\<rparr>"

definition group_task_init_ctx :: "OBJGPU \<Rightarrow> KernelChannelGroup \<Rightarrow> nv_gpu_task_init_ctx" where
  "group_task_init_ctx gpu grp =
     \<lparr>ti_tsg_id = ucast (grpID grp), ti_engine_type = engineType grp,
      default_timeslice = timesliceUs grp, default_interleave = pInterleaveLevel grp (subdev_inst gpu),
      ti_runlist_id = grp_runlistId grp\<rparr>"

definition ctor_decide ::
  "sched_ops_mem \<Rightarrow> sched_ops_slot \<Rightarrow> OBJGPU \<Rightarrow> KernelChannelGroup \<Rightarrow>
     nv_gpu_task_init_decision_ctx \<times> nv_gpu_scheduler_validation_t" where
  "ctor_decide mem slot gpu grp =
     (let expected = group_snapshot grp;
          decision = \<lparr>ti_input = group_task_init_ctx gpu grp, timeslice_request = u64_request_init,
                      interleave_request = u32_request_init\<rparr>;
          decision = the (nv_gpu_sched_task_init mem slot (Some decision));
          observed = group_snapshot grp
      in (decision,
          nv_gpu_transition_validate_scheduler expected observed (timesliceUs grp)
            (pInterleaveLevel grp (subdev_inst gpu)) kfifoRunlistGetMinTimeSlice_HAL
            (timeslice_request decision) (interleave_request decision)))"

definition ctor_validated ::
  "OBJGPU \<Rightarrow> ctor_params \<Rightarrow> nv_gpu_task_init_decision_ctx \<Rightarrow> nv_gpu_scheduler_validation_t \<Rightarrow>
     ctor_state \<Rightarrow> ctor_state" where
  "ctor_validated gpu params decision validation s =
     (let grp = the_group s;
          diag = (schedDiagnostic s)
            \<lparr>diag_id := \<lparr>d_h_client = p_hClient params, d_h_resource = p_hResource params,
                d_gpu_instance = gpuInstance gpu, d_subdevice_instance = subdev_inst gpu,
                d_group_id = grpID grp, d_runlist_id = grp_runlistId grp,
                d_engine_type = engineType grp, d_constructor_epoch = tsgUniqueId grp\<rparr>,
             diag_dec := \<lparr>d_default_timeslice = timesliceUs grp,
                d_minimum_timeslice = kfifoRunlistGetMinTimeSlice_HAL,
                d_default_interleave = pInterleaveLevel grp (subdev_inst gpu),
                d_timeslice_request = timeslice_request decision,
                d_interleave_request = interleave_request decision,
                d_timeslice_validation_result = timeslice_result validation,
                d_interleave_validation_result = interleave_result validation,
                d_effective_timeslice = sv_timeslice validation,
                d_effective_interleave = sv_interleave validation\<rparr>,
             diag_phase := NV_GPU_SCHED_INIT_DIAGNOSTIC_VALIDATED,
             diag_field := NV_GPU_SCHED_INIT_DIAGNOSTIC_FIELD_NONE\<rparr>
      in emit (Diagnostic diag) (s\<lparr>bSchedDiagnosticActive := True, schedDiagnostic := diag\<rparr>))"

definition ctor_apply_timeslice :: "nv_gpu_scheduler_validation_t \<Rightarrow> ctor_stage" where
  "ctor_apply_timeslice validation s =
     (if kchangrpapiPolicyValueApplies (timeslice_result validation) then
        (case kfifoChannelGroupSetTimeslice (the_group s) (sv_timeslice validation) of (st, grp) \<Rightarrow>
           let s = put_group grp s;
               diag = (schedDiagnostic s)
                 \<lparr>timeslice_native_status := Some st, timeslice_post_value := timesliceUs grp,
                  diag_phase := NV_GPU_SCHED_INIT_DIAGNOSTIC_NATIVE_RETURN,
                  diag_field := NV_GPU_SCHED_INIT_DIAGNOSTIC_FIELD_TIMESLICE\<rparr>;
               s = emit (Diagnostic diag) (s\<lparr>schedDiagnostic := diag\<rparr>)
           in if st \<noteq> NV_OK then fail_with st s
              else (Fall, s\<lparr>c_rmStatus := st, bPolicyTimeslice := True\<rparr>))
      else (Fall, s))"

definition ctor_apply_interleave :: "OBJGPU \<Rightarrow> nv_gpu_scheduler_validation_t \<Rightarrow> ctor_stage" where
  "ctor_apply_interleave gpu validation s =
     (if kchangrpapiPolicyValueApplies (interleave_result validation) then
        (case kchangrpSetInterleaveLevel gpu (the_group s) (sv_interleave validation) of (st, grp) \<Rightarrow>
           let s = put_group grp s;
               diag = (schedDiagnostic s)
                 \<lparr>interleave_native_status := Some st,
                  interleave_post_value := pInterleaveLevel grp (subdev_inst gpu),
                  diag_phase := NV_GPU_SCHED_INIT_DIAGNOSTIC_NATIVE_RETURN,
                  diag_field := NV_GPU_SCHED_INIT_DIAGNOSTIC_FIELD_INTERLEAVE\<rparr>;
               s = emit (Diagnostic diag) (s\<lparr>schedDiagnostic := diag\<rparr>)
           in if st \<noteq> NV_OK then fail_with st s
              else (Fall, s\<lparr>c_rmStatus := st, bPolicyInterleave := True\<rparr>))
      else (Fall, s))"

definition ctor_policy :: "sched_ops_mem \<Rightarrow> sched_ops_slot \<Rightarrow> OBJGPU \<Rightarrow> ctor_params \<Rightarrow> ctor_stage" where
  "ctor_policy mem slot gpu params s =
     (case ctor_decide mem slot gpu (the_group s) of (decision, validation) \<Rightarrow>
        run_stages [ctor_apply_timeslice validation, ctor_apply_interleave gpu validation]
          (ctor_validated gpu params decision validation s))"

text \<open>
  The scrubber exemption of confidential computing, and the size of the context-buffer reservation:
  \<open>c_bufCount\<close> counts the buffers described; their sizes are not part of the model.
\<close>

definition ctor_reserve_size :: "reserve_env \<Rightarrow> lookup_env \<Rightarrow> OBJGPU \<Rightarrow> ctor_stage" where
  "ctor_reserve_size env lookup gpu s =
     (if re_cc_enabled env \<and> re_scrub_setup env \<and> pChannelBufPool (the_group s) \<and>
         pCtxBufPool (the_group s) \<and> \<not> re_kernel_priv env
        then fail_with NV_ERR_INVALID_ARGUMENT s
      else if pCtxBufPool (the_group s) \<and> (\<not> le_mig_in_use lookup \<or> re_engine_in_instance env) then
        (if RM_ENGINE_TYPE_IS_GR (engineType (the_group s))
           then (Fall, s\<lparr>c_bufCount := re_gr_buffers env, bReserveMem := True\<rparr>)
         else if is_gsp_client gpu \<and> re_xlate env \<noteq> NV_OK then fail_with (re_xlate env) s
         else
           (let s = (if is_gsp_client gpu then s\<lparr>c_rmStatus := NV_OK\<rparr> else s)
            in if is_gsp_client gpu \<and> re_falcon env
                 then (Fall, s\<lparr>bReserveMem := True, c_bufCount := c_bufCount s + 1\<rparr>)
               else (Fall, s)))
      else (Fall, s))"

definition ctor_graphics :: "remote_env \<Rightarrow> lookup_env \<Rightarrow> ctor_stage" where
  "ctor_graphics env lookup s =
     (if (\<not> le_mig_in_use lookup \<or> RM_ENGINE_TYPE_IS_GR (engineType (the_group s))) \<and> \<not> rm_is_t234d env
        then
          (if fst (rm_graphics env) \<noteq> NV_OK then fail_with (fst (rm_graphics env)) s
           else (Fall, (emit Graphics_Context_Alloc s)
                         \<lparr>c_api := (c_api s)\<lparr>hKernelGraphicsContext := snd (rm_graphics env)\<rparr>,
                          c_rmStatus := NV_OK\<rparr>))
      else (Fall, s))"

definition ctor_remote_alloc :: "remote_env \<Rightarrow> OBJGPU \<Rightarrow> ctor_stage" where
  "ctor_remote_alloc env gpu s =
     (let s = emit (Remote_Alloc (rm_alloc env)) s;
          s = s\<lparr>c_api := (c_api s)\<lparr>api_bRpcFree := True\<rparr>\<rparr>
      in if rm_alloc env \<noteq> NV_OK then fail_with (rm_alloc env) s
         else (Fall, s\<lparr>c_rmStatus := NV_OK,
                       bPolicyRemoteAllocated :=
                         is_gsp_client gpu \<and> (bPolicyTimeslice s \<or> bPolicyInterleave s)\<rparr>))"

definition ctor_replay_timeslice :: "remote_env \<Rightarrow> OBJGPU \<Rightarrow> ctor_stage" where
  "ctor_replay_timeslice env gpu s =
     (if is_gsp_client gpu \<and> bPolicyTimeslice s then
        (let c = Timeslice_Params (timesliceUs (the_group s))
         in check_ok (rm_control env c) (emit (Remote_Control c) s))
      else (Fall, s))"

definition ctor_replay_interleave :: "remote_env \<Rightarrow> OBJGPU \<Rightarrow> ctor_stage" where
  "ctor_replay_interleave env gpu s =
     (if is_gsp_client gpu \<and> bPolicyInterleave s then
        (let c = Interleave_Params (pInterleaveLevel (the_group s) (subdev_inst gpu))
         in check_ok (rm_control env c) (emit (Remote_Control c) s))
      else (Fall, s))"

definition ctor_promote :: "remote_env \<Rightarrow> OBJGPU \<Rightarrow> ctor_stage" where
  "ctor_promote env gpu s =
     (if is_virtual_full_sriov gpu \<or> is_gsp_client gpu
        then check_ok (rm_promote env) (emit Promote_Fault_Buffers s)
      else (Fall, s))"

definition ctor_remote :: "remote_env \<Rightarrow> OBJGPU \<Rightarrow> ctor_params \<Rightarrow> ctor_stage" where
  "ctor_remote env gpu params s =
     (if (is_virtual gpu \<or> is_gsp_client gpu) \<and> \<not> p_skip_rpc params
        then run_stages [ctor_remote_alloc env gpu, ctor_replay_timeslice env gpu,
               ctor_replay_interleave env gpu, ctor_promote env gpu] s
      else (Fall, s))"

definition ctor_append :: "remote_env \<Rightarrow> ctor_stage" where
  "ctor_append env s =
     (if \<not> rm_list_append env then fail_with NV_ERR_INSUFFICIENT_RESOURCES s else (Fall, s))"

definition constructor_return :: "NV_STATUS \<Rightarrow> ctor_state \<Rightarrow> ctor_state" where
  "constructor_return st s =
     (let diag = (schedDiagnostic s)
            \<lparr>constructor_status := st,
             diag_phase := NV_GPU_SCHED_INIT_DIAGNOSTIC_CONSTRUCTOR_RETURN,
             diag_field := NV_GPU_SCHED_INIT_DIAGNOSTIC_FIELD_NONE\<rparr>
      in emit (Diagnostic diag) (s\<lparr>schedDiagnostic := diag\<rparr>))"

definition failed_diagnostic :: "ctor_state \<Rightarrow> ctor_state" where
  "failed_diagnostic s =
     (if bSchedDiagnosticActive s then
        (let subdevInst = d_subdevice_instance (diag_id (schedDiagnostic s));
             s = s\<lparr>schedDiagnostic := (schedDiagnostic s)\<lparr>constructor_status := c_rmStatus s\<rparr>\<rparr>;
             s = (case api_group (c_api s) of
                    None \<Rightarrow> s
                  | Some grp \<Rightarrow>
                      s\<lparr>schedDiagnostic := (schedDiagnostic s)
                          \<lparr>final_timeslice := timesliceUs grp,
                           final_interleave := pInterleaveLevel grp subdevInst,
                           final_snapshot_valid := True\<rparr>\<rparr>)
         in if c_rmStatus s \<noteq> NV_OK
              then (constructor_return (c_rmStatus s) s)\<lparr>bSchedDiagnosticActive := False\<rparr>
            else s)
      else s)"

definition failed_rollback :: "remote_env \<Rightarrow> ctor_state \<Rightarrow> ctor_state" where
  "failed_rollback env s =
     (if bPolicyRemoteAllocated s then
        (let s = emit Remote_Free s
         in if rm_free env = NV_OK then s\<lparr>c_api := (c_api s)\<lparr>api_bRpcFree := False\<rparr>\<rparr> else s)
      else s)"

definition failed_teardown :: "pool_env \<Rightarrow> ctor_state \<Rightarrow> ctor_state" where
  "failed_teardown env s =
     (let s = (if hKernelGraphicsContext (c_api s) \<noteq> 0
                 then emit (Graphics_Context_Free (hKernelGraphicsContext (c_api s))) s else s);
          s = (if api_group (c_api s) \<noteq> None then
                 (let s = (if bTsgAllocated s
                             then put_group (snd (kchangrpDestroy (po_group env) (the_group s)))
                                    (emit Group_Destroy s)
                           else s);
                      s = (if pCtxBufPool (the_group s)
                             then put_group ((the_group s)\<lparr>pCtxBufPool := False\<rparr>) (emit Ctx_Pool_Destroy s)
                           else s)
                  in if pChannelBufPool (the_group s)
                       then put_group ((the_group s)\<lparr>pChannelBufPool := False\<rparr>) (emit Channel_Pool_Destroy s)
                     else s)
               else s)
      in if c_pShared s then emit Share_Free s else s)"

definition ctor_failed :: "pool_env \<Rightarrow> remote_env \<Rightarrow> ctor_state \<Rightarrow> ctor_state" where
  "ctor_failed pools env s =
     (let s = failed_diagnostic s
      in if c_rmStatus s \<noteq> NV_OK then failed_teardown pools (failed_rollback env s) else s)"

text \<open>
  The code after \<open>done\<close>: it returns a status, or the reservation failed and control goes back to
  \<open>failed\<close> with the locks of all GPUs held.
\<close>

definition done_unlock :: "ctor_state \<Rightarrow> ctor_state" where
  "done_unlock s = (if bLockAcquired s then emit Locks_Release s else s)"

definition done_finish :: "ctor_params \<Rightarrow> ctor_state \<Rightarrow> ctor_state" where
  "done_finish params s =
     (let s = (if p_copy_ctor params then s else emit Buf_Info_Free s)
      in if bSchedDiagnosticActive s then constructor_return (c_rmStatus s) s else s)"

definition done_reserve_failed :: "remote_env \<Rightarrow> ctor_state \<Rightarrow> NV_STATUS option \<times> ctor_state" where
  "done_reserve_failed env s =
     (if rm_relock env \<noteq> NV_OK then
        (Some (rm_relock env),
         if bSchedDiagnosticActive s
           then (constructor_return (rm_relock env) s)\<lparr>bSchedDiagnosticActive := False\<rparr>
         else s)
      else (None, (emit All_Locks_Acquire s)\<lparr>bLockAcquired := True\<rparr>))"

definition ctor_done :: "remote_env \<Rightarrow> ctor_params \<Rightarrow> ctor_state \<Rightarrow> NV_STATUS option \<times> ctor_state" where
  "ctor_done env params s =
     (let s = done_unlock s
      in if c_rmStatus s = NV_OK \<and> bReserveMem s then
           (let s = (emit (Pool_Reserve (c_bufCount s)) s)\<lparr>c_rmStatus := rm_reserve env\<rparr>
            in if c_rmStatus s \<noteq> NV_OK then done_reserve_failed env s
               else (Some (c_rmStatus s), done_finish params s))
         else (Some (c_rmStatus s), done_finish params s))"

fun ctor_exit ::
  "nat \<Rightarrow> pool_env \<Rightarrow> remote_env \<Rightarrow> ctor_params \<Rightarrow> bool \<Rightarrow> ctor_state \<Rightarrow> (NV_STATUS \<times> ctor_state) option" where
  "ctor_exit 0 pools env params at_failed s = None"
| "ctor_exit (Suc passes) pools env params at_failed s =
     (case ctor_done env params (if at_failed then ctor_failed pools env s else s) of
        (Some st, s') \<Rightarrow> Some (st, s')
      | (None, s') \<Rightarrow> ctor_exit passes pools env params True s')"

subsection \<open>The constructor\<close>

record ctor_env =
  ce_gpu :: OBJGPU
  ce_params :: ctor_params
  ce_mem :: sched_ops_mem
  ce_slot :: sched_ops_slot
  ce_prologue :: prologue_env
  ce_lookup :: lookup_env
  ce_pools :: pool_env
  ce_reserve :: reserve_env
  ce_remote :: remote_env

definition ctor_native_stages :: "ctor_env \<Rightarrow> ctor_stage list" where
  "ctor_native_stages env =
     [ctor_share (ce_lookup env),
      ctor_client (ce_lookup env) (ce_gpu env) (ce_params env),
      ctor_engine_type (ce_lookup env),
      ctor_vaspace (ce_lookup env) (ce_params env),
      ctor_pools (ce_pools env),
      ctor_group_init (ce_pools env) (ce_gpu env) (ce_params env)]"

definition ctor_later_stages :: "ctor_env \<Rightarrow> ctor_stage list" where
  "ctor_later_stages env =
     [ctor_reserve_size (ce_reserve env) (ce_lookup env) (ce_gpu env),
      ctor_graphics (ce_remote env) (ce_lookup env),
      ctor_remote (ce_remote env) (ce_gpu env) (ce_params env),
      ctor_append (ce_remote env)]"

definition ctor_stages :: "ctor_env \<Rightarrow> ctor_stage list" where
  "ctor_stages env =
     ctor_prologue (ce_prologue env) (ce_params env) #
     ctor_native_stages env @
     ctor_policy (ce_mem env) (ce_slot env) (ce_gpu env) (ce_params env) #
     ctor_later_stages env"

definition ctor_finish ::
  "ctor_env \<Rightarrow> nat \<Rightarrow> ctor_label \<times> ctor_state \<Rightarrow> (NV_STATUS \<times> ctor_state) option" where
  "ctor_finish env passes = (\<lambda>(l, s).
     case l of
       Return st \<Rightarrow> Some (st, s)
     | Goto_done \<Rightarrow> ctor_exit passes (ce_pools env) (ce_remote env) (ce_params env) False s
     | Goto_failed \<Rightarrow> ctor_exit passes (ce_pools env) (ce_remote env) (ce_params env) True s
     | Fall \<Rightarrow> ctor_exit passes (ce_pools env) (ce_remote env) (ce_params env) True s)"

definition kchangrpapiConstruct ::
  "ctor_env \<Rightarrow> nat \<Rightarrow> ctor_state \<Rightarrow> (NV_STATUS \<times> ctor_state) option" where
  "kchangrpapiConstruct env passes s = ctor_finish env passes (run_stages (ctor_stages env) s)"

definition diag_init :: nv_gpu_sched_init_diagnostic_ctx where
  "diag_init =
     \<lparr>diag_phase = NV_GPU_SCHED_INIT_DIAGNOSTIC_VALIDATED,
      diag_field = NV_GPU_SCHED_INIT_DIAGNOSTIC_FIELD_NONE,
      diag_id = \<lparr>d_h_client = 0, d_h_resource = 0, d_gpu_instance = 0, d_subdevice_instance = 0,
        d_group_id = 0, d_runlist_id = 0, d_engine_type = 0, d_constructor_epoch = 0\<rparr>,
      diag_dec = \<lparr>d_default_timeslice = 0, d_minimum_timeslice = 0, d_default_interleave = 0,
        d_timeslice_request = u64_request_init, d_interleave_request = u32_request_init,
        d_timeslice_validation_result = NV_GPU_TRANSITION_NOOP_DEFAULT,
        d_interleave_validation_result = NV_GPU_TRANSITION_NOOP_DEFAULT,
        d_effective_timeslice = 0, d_effective_interleave = 0\<rparr>,
      timeslice_native_status = None, timeslice_post_value = 0,
      interleave_native_status = None, interleave_post_value = 0,
      constructor_status = NV_OK, final_timeslice = 0, final_interleave = 0,
      final_snapshot_valid = False\<rparr>"

definition ctor_start :: "KernelChannelGroupApi \<Rightarrow> ctor_state" where
  "ctor_start api =
     \<lparr>c_api = api, c_pShared = False, c_rmStatus = NV_OK, c_rmEngineType = 0, bTsgAllocated = False,
      bPolicyTimeslice = False, bPolicyInterleave = False, bPolicyRemoteAllocated = False,
      bLockAcquired = False, bReserveMem = False, c_bufCount = 0, bSchedDiagnosticActive = False,
      schedDiagnostic = diag_init, c_trace = []\<rparr>"

subsection \<open>What a trace shows\<close>

definition ev_count :: "(ctor_event \<Rightarrow> bool) \<Rightarrow> ctor_state \<Rightarrow> nat" where
  "ev_count P s = length (filter P (c_trace s))"

fun is_lock :: "ctor_event \<Rightarrow> bool" where
  "is_lock Locks_Acquire = True"
| "is_lock All_Locks_Acquire = True"
| "is_lock _ = False"

fun is_release :: "ctor_event \<Rightarrow> bool" where
  "is_release Locks_Release = True"
| "is_release _ = False"

fun is_diag :: "nv_gpu_sched_init_diagnostic_phase \<Rightarrow> ctor_event \<Rightarrow> bool" where
  "is_diag p (Diagnostic d) = (diag_phase d = p)"
| "is_diag p _ = False"

fun is_return_of :: "NV_STATUS \<Rightarrow> ctor_event \<Rightarrow> bool" where
  "is_return_of st (Diagnostic d) =
     (diag_phase d = NV_GPU_SCHED_INIT_DIAGNOSTIC_CONSTRUCTOR_RETURN \<and> constructor_status d = st)"
| "is_return_of st _ = False"

fun is_remote_free :: "ctor_event \<Rightarrow> bool" where
  "is_remote_free Remote_Free = True"
| "is_remote_free _ = False"

fun is_remote_control :: "ctor_event \<Rightarrow> bool" where
  "is_remote_control (Remote_Control c) = True"
| "is_remote_control _ = False"

text \<open>
  What holds after every stage: the locks taken are those the flag says are held, the diagnostic is
  active exactly once it was validated and no return was reported yet, and the remote object was
  neither freed nor marked for rollback without a policy value that applies.
\<close>

definition ctor_inv :: "ctor_state \<Rightarrow> bool" where
  "ctor_inv s \<longleftrightarrow>
     ev_count is_lock s = ev_count is_release s + of_bool (bLockAcquired s) \<and>
     ev_count (is_diag NV_GPU_SCHED_INIT_DIAGNOSTIC_VALIDATED) s = of_bool (bSchedDiagnosticActive s) \<and>
     ev_count (is_diag NV_GPU_SCHED_INIT_DIAGNOSTIC_CONSTRUCTOR_RETURN) s = 0 \<and>
     (\<forall>st. ev_count (is_return_of st) s = 0) \<and>
     ev_count is_remote_free s = 0 \<and>
     (bPolicyRemoteAllocated s \<longrightarrow> Remote_Alloc NV_OK \<in> set (c_trace s))"

text \<open>
  What holds when the constructor has returned \<open>st\<close>: every acquisition was followed by a release,
  and a validated diagnostic was followed by exactly one report of the return, with that status.
\<close>

definition ctor_post :: "NV_STATUS \<Rightarrow> ctor_state \<Rightarrow> bool" where
  "ctor_post st s \<longleftrightarrow>
     ev_count is_lock s = ev_count is_release s \<and>
     ev_count (is_diag NV_GPU_SCHED_INIT_DIAGNOSTIC_VALIDATED) s \<le> 1 \<and>
     ev_count (is_diag NV_GPU_SCHED_INIT_DIAGNOSTIC_CONSTRUCTOR_RETURN) s =
       ev_count (is_diag NV_GPU_SCHED_INIT_DIAGNOSTIC_VALIDATED) s \<and>
     ev_count (is_return_of st) s = ev_count (is_diag NV_GPU_SCHED_INIT_DIAGNOSTIC_VALIDATED) s"

text \<open>
  The values replayed to the firmware are values that the validation accepted, and every diagnostic
  reports the same decision.
\<close>

definition replayed :: "diag_decision \<Rightarrow> ctrl_params \<Rightarrow> bool" where
  "replayed dd c \<longleftrightarrow>
     c = Timeslice_Params (d_effective_timeslice dd) \<and>
       d_timeslice_validation_result dd = NV_GPU_TRANSITION_APPLY \<or>
     c = Interleave_Params (d_effective_interleave dd) \<and>
       d_interleave_validation_result dd = NV_GPU_TRANSITION_APPLY"

definition replay_trace :: "ctor_state \<Rightarrow> bool" where
  "replay_trace s \<longleftrightarrow>
     (\<forall>c. Remote_Control c \<in> set (c_trace s) \<longrightarrow> replayed (diag_dec (schedDiagnostic s)) c) \<and>
     (\<forall>d. Diagnostic d \<in> set (c_trace s) \<longrightarrow> diag_dec d = diag_dec (schedDiagnostic s))"

definition replay_inv :: "nat \<Rightarrow> ctor_state \<Rightarrow> bool" where
  "replay_inv subdev s \<longleftrightarrow> replay_trace s \<and>
     (bPolicyTimeslice s \<longrightarrow>
        replayed (diag_dec (schedDiagnostic s)) (Timeslice_Params (timesliceUs (the_group s)))) \<and>
     (bPolicyInterleave s \<longrightarrow>
        replayed (diag_dec (schedDiagnostic s)) (Interleave_Params (pInterleaveLevel (the_group s) subdev)))"

definition decided :: "nat \<Rightarrow> nv_gpu_scheduler_validation_t \<Rightarrow> ctor_state \<Rightarrow> bool" where
  "decided subdev v s \<longleftrightarrow> replay_inv subdev s \<and>
     d_timeslice_validation_result (diag_dec (schedDiagnostic s)) = timeslice_result v \<and>
     d_effective_timeslice (diag_dec (schedDiagnostic s)) = sv_timeslice v \<and>
     d_interleave_validation_result (diag_dec (schedDiagnostic s)) = interleave_result v \<and>
     d_effective_interleave (diag_dec (schedDiagnostic s)) = sv_interleave v"

definition quiet :: "ctor_state \<Rightarrow> bool" where
  "quiet s \<longleftrightarrow> \<not> bPolicyTimeslice s \<and> \<not> bPolicyInterleave s \<and>
     (\<forall>c. Remote_Control c \<notin> set (c_trace s)) \<and> (\<forall>d. Diagnostic d \<notin> set (c_trace s))"

text \<open>Each resource that a stage acquires, and the number of times it was acquired and released.\<close>

definition counts :: "ctor_event \<Rightarrow> ctor_event \<Rightarrow> nat \<Rightarrow> nat \<Rightarrow> ctor_state \<Rightarrow> bool" where
  "counts a r n m s \<longleftrightarrow> ev_count ((=) a) s = n \<and> ev_count ((=) r) s = m"

fun is_graphics_free :: "ctor_event \<Rightarrow> bool" where
  "is_graphics_free (Graphics_Context_Free h) = True"
| "is_graphics_free _ = False"

definition res_inv :: "ctor_state \<Rightarrow> bool" where
  "res_inv s \<longleftrightarrow>
     (api_group (c_api s) \<noteq> None \<longleftrightarrow> c_pShared s) \<and> (bTsgAllocated s \<longrightarrow> c_pShared s) \<and>
     counts Share_Alloc Share_Free (of_bool (c_pShared s)) 0 s \<and>
     counts Group_Init Group_Destroy (of_bool (bTsgAllocated s)) 0 s \<and>
     counts Ctx_Pool_Init Ctx_Pool_Destroy (of_bool (c_pShared s \<and> pCtxBufPool (the_group s))) 0 s \<and>
     counts Channel_Pool_Init Channel_Pool_Destroy
       (of_bool (c_pShared s \<and> pChannelBufPool (the_group s))) 0 s \<and>
     ev_count ((=) Graphics_Context_Alloc) s = of_bool (hKernelGraphicsContext (c_api s) \<noteq> 0) \<and>
     ev_count is_graphics_free s = 0 \<and>
     counts Buf_Info_Alloc Buf_Info_Free 1 0 s"

definition res_pre :: "ctor_state \<Rightarrow> bool" where
  "res_pre s \<longleftrightarrow> res_inv s \<and> c_pShared s \<and> \<not> bTsgAllocated s \<and> hKernelGraphicsContext (c_api s) = 0 \<and>
     \<not> pCtxBufPool (the_group s) \<and> \<not> pChannelBufPool (the_group s)"

definition res_mid :: "ctor_state \<Rightarrow> bool" where
  "res_mid s \<longleftrightarrow> res_inv s \<and> c_pShared s \<and> hKernelGraphicsContext (c_api s) = 0"

definition balanced :: "ctor_state \<Rightarrow> bool" where
  "balanced s \<longleftrightarrow>
     ev_count ((=) Share_Alloc) s = ev_count ((=) Share_Free) s \<and>
     ev_count ((=) Group_Init) s = ev_count ((=) Group_Destroy) s \<and>
     ev_count ((=) Ctx_Pool_Init) s = ev_count ((=) Ctx_Pool_Destroy) s \<and>
     ev_count ((=) Channel_Pool_Init) s = ev_count ((=) Channel_Pool_Destroy) s \<and>
     ev_count ((=) Graphics_Context_Alloc) s = ev_count is_graphics_free s \<and>
     ev_count ((=) Buf_Info_Alloc) s = ev_count ((=) Buf_Info_Free) s"

text \<open>The values that the registered policy requests for a new group, in order.\<close>

definition task_init_decision :: "OBJGPU \<Rightarrow> KernelChannelGroup \<Rightarrow> nv_gpu_task_init_decision_ctx" where
  "task_init_decision gpu grp =
     \<lparr>ti_input = group_task_init_ctx gpu grp, timeslice_request = u64_request_init,
      interleave_request = u32_request_init\<rparr>"

definition policy_timeslices ::
  "sched_ops_mem \<Rightarrow> sched_ops_slot \<Rightarrow> OBJGPU \<Rightarrow> KernelChannelGroup \<Rightarrow> NvU64 list" where
  "policy_timeslices mem slot gpu grp =
     (case slot of
        None \<Rightarrow> []
      | Some ops \<Rightarrow>
          (case on_task_init (mem ops) of
             None \<Rightarrow> []
           | Some callback \<Rightarrow>
               requested_timeslices (callback (group_task_init_ctx gpu grp)) (task_init_decision gpu grp)))"

definition policy_interleaves ::
  "sched_ops_mem \<Rightarrow> sched_ops_slot \<Rightarrow> OBJGPU \<Rightarrow> KernelChannelGroup \<Rightarrow> NvU32 list" where
  "policy_interleaves mem slot gpu grp =
     (case slot of
        None \<Rightarrow> []
      | Some ops \<Rightarrow>
          (case on_task_init (mem ops) of
             None \<Rightarrow> []
           | Some callback \<Rightarrow>
               requested_interleaves (callback (group_task_init_ctx gpu grp)) (task_init_decision gpu grp)))"

text \<open>A request list that settles on one value.\<close>

fun settled :: "'a list \<Rightarrow> 'a option" where
  "settled [] = None"
| "settled (v # vs) = (if list_all (\<lambda>w. w = v) vs then Some v else None)"

definition falls_or_fails :: "ctor_stage \<Rightarrow> bool" where
  "falls_or_fails f \<longleftrightarrow> (\<forall>s. fst (f s) = Fall \<or> fst (f s) = Goto_failed)"

subsection \<open>Sample environment\<close>

text \<open>
  A construction on a firmware client in which every call succeeds, under a policy that asks for a
  timeslice of 5000 microseconds (twice) and for the high interleave level.
\<close>

definition sample_init_ops :: nv_gpu_sched_ops where
  "sample_init_ops = sample_ops\<lparr>on_task_init :=
     Some (\<lambda>ctx. Set_Timeslice 5000 (\<lambda>r. Set_Interleave 2 (\<lambda>r. Set_Timeslice 5000 (\<lambda>r. Init_Return 0))))\<rparr>"

definition sample_ctor_env :: ctor_env where
  "sample_ctor_env =
     \<lparr>ce_gpu = sample_gpu,
      ce_params = \<lparr>p_hClient = 0xc1, p_hResource = 0xa1, p_externalClassId = 0xa06c, p_hVASpace = 0,
        p_skip_rpc = False, p_copy_ctor = False\<rparr>,
      ce_mem = \<lambda>p. sample_init_ops, ce_slot = Some 1,
      ce_prologue = \<lparr>pe_thread_id = 42, pe_lock_owner = False, pe_alloc_buf_info = True, pe_locks = NV_OK,
        pe_copy = \<lambda>api. (NV_OK, api)\<rparr>,
      ce_lookup = \<lparr>le_share = NV_OK, le_new_group = sample_group\<lparr>chanCount := 0, pChanList := []\<rparr>,
        le_client = NV_OK, le_device = NV_OK, le_engine_type = 1, le_per_runlist_hw = True,
        le_mig_in_use = False, le_mig_instance = NV_OK, le_mig_engine = (NV_OK, 1),
        le_multiple_vaspaces = True, le_vaspace = (NV_OK, True), le_sriov = False,
        le_vgpu_plugin = False, le_gfid = NV_OK\<rparr>,
      ce_pools = \<lparr>po_internal_client = False, po_ctx_pool = (NV_OK, True), po_channel_pool = (NV_OK, True),
        po_group = sample_env, po_vaspace_ref = NV_OK\<rparr>,
      ce_reserve = \<lparr>re_cc_enabled = False, re_scrub_setup = False, re_kernel_priv = False,
        re_engine_in_instance = True, re_gr_buffers = 9, re_xlate = NV_OK, re_falcon = False\<rparr>,
      ce_remote = \<lparr>rm_is_t234d = False, rm_graphics = (NV_OK, 0xd1), rm_alloc = NV_OK,
        rm_control = \<lambda>c. NV_OK, rm_promote = NV_OK, rm_free = NV_OK, rm_list_append = True,
        rm_reserve = NV_OK, rm_relock = NV_OK\<rparr>\<rparr>"

definition pool_failure_env :: ctor_env where
  "pool_failure_env = sample_ctor_env
     \<lparr>ce_pools := (ce_pools sample_ctor_env)\<lparr>po_channel_pool := (NV_ERR_NO_MEMORY, False)\<rparr>\<rparr>"

definition sample_new_api :: KernelChannelGroupApi where
  "sample_new_api = sample_api\<lparr>api_group := None\<rparr>"

subsection \<open>Lemmas\<close>

lemma ev_count_emit [simp]: "ev_count P (emit e s) = ev_count P s + of_bool (P e)"
  by (simp add: ev_count_def emit_def)

lemma emit_frame [simp]:
  "c_api (emit e s) = c_api s" "c_pShared (emit e s) = c_pShared s" "c_rmStatus (emit e s) = c_rmStatus s"
  "bTsgAllocated (emit e s) = bTsgAllocated s" "bPolicyTimeslice (emit e s) = bPolicyTimeslice s"
  "bPolicyInterleave (emit e s) = bPolicyInterleave s"
  "bPolicyRemoteAllocated (emit e s) = bPolicyRemoteAllocated s"
  "bLockAcquired (emit e s) = bLockAcquired s" "bReserveMem (emit e s) = bReserveMem s"
  "bSchedDiagnosticActive (emit e s) = bSchedDiagnosticActive s"
  "schedDiagnostic (emit e s) = schedDiagnostic s" "c_trace (emit e s) = c_trace s @ [e]"
  "the_group (emit e s) = the_group s" "c_rmEngineType (emit e s) = c_rmEngineType s"
  "c_bufCount (emit e s) = c_bufCount s"
  by (simp_all add: emit_def the_group_def)

lemma ev_count_frame [simp]:
  "ev_count P (s\<lparr>c_api := a\<rparr>) = ev_count P s" "ev_count P (s\<lparr>c_pShared := b\<rparr>) = ev_count P s"
  "ev_count P (s\<lparr>c_rmStatus := st\<rparr>) = ev_count P s" "ev_count P (s\<lparr>c_rmEngineType := t\<rparr>) = ev_count P s"
  "ev_count P (s\<lparr>bTsgAllocated := b\<rparr>) = ev_count P s" "ev_count P (s\<lparr>bPolicyTimeslice := b\<rparr>) = ev_count P s"
  "ev_count P (s\<lparr>bPolicyInterleave := b\<rparr>) = ev_count P s"
  "ev_count P (s\<lparr>bPolicyRemoteAllocated := b\<rparr>) = ev_count P s"
  "ev_count P (s\<lparr>bLockAcquired := b\<rparr>) = ev_count P s" "ev_count P (s\<lparr>bReserveMem := b\<rparr>) = ev_count P s"
  "ev_count P (s\<lparr>c_bufCount := n\<rparr>) = ev_count P s"
  "ev_count P (s\<lparr>bSchedDiagnosticActive := b\<rparr>) = ev_count P s"
  "ev_count P (s\<lparr>schedDiagnostic := d\<rparr>) = ev_count P s" "ev_count P (put_group g s) = ev_count P s"
  by (simp_all add: ev_count_def put_group_def)

lemma put_group_frame [simp]:
  "c_pShared (put_group g s) = c_pShared s" "c_rmStatus (put_group g s) = c_rmStatus s"
  "bTsgAllocated (put_group g s) = bTsgAllocated s" "bPolicyTimeslice (put_group g s) = bPolicyTimeslice s"
  "bPolicyInterleave (put_group g s) = bPolicyInterleave s"
  "bPolicyRemoteAllocated (put_group g s) = bPolicyRemoteAllocated s"
  "bLockAcquired (put_group g s) = bLockAcquired s" "bReserveMem (put_group g s) = bReserveMem s"
  "bSchedDiagnosticActive (put_group g s) = bSchedDiagnosticActive s"
  "schedDiagnostic (put_group g s) = schedDiagnostic s" "c_trace (put_group g s) = c_trace s"
  "the_group (put_group g s) = g" "api_group (c_api (put_group g s)) = Some g"
  "c_rmEngineType (put_group g s) = c_rmEngineType s"
  by (simp_all add: put_group_def the_group_def)

lemma set_trace_emit: "x \<in> set (c_trace s) \<Longrightarrow> x \<in> set (c_trace (emit e s))"
  by simp

lemma run_stages_append:
  "run_stages (fs @ gs) s =
     (case run_stages fs s of (l, s') \<Rightarrow> if l = Fall then run_stages gs s' else (l, s'))"
  by (induction fs arbitrary: s) (auto split: prod.splits)

lemma run_stages_inv:
  assumes "\<And>f s. f \<in> set fs \<Longrightarrow> I s \<Longrightarrow> I (snd (f s))" and "I s"
  shows "I (snd (run_stages fs s))"
  using assms
proof (induction fs arbitrary: s)
  case Nil
  then show ?case by simp
next
  case (Cons f fs)
  have "I (snd (f s))" using Cons.prems by simp
  then show ?case using Cons.IH [of "snd (f s)"] Cons.prems(1) by (auto split: prod.splits)
qed

lemmas stage_simps = check_ok_def fail_with_def Let_def ctor_inv_def

lemmas pre_stage_defs = ctor_share_def ctor_client_def ctor_engine_type_def ctor_vaspace_def
  ctor_pools_def ctor_group_init_def

text \<open>The stages before the policy keep the invariant and do not start the diagnostic.\<close>

lemma pre_stages_inv:
  assumes "ctor_inv s \<and> \<not> bSchedDiagnosticActive s"
  shows "ctor_inv (snd (ctor_share le s)) \<and> \<not> bSchedDiagnosticActive (snd (ctor_share le s))"
    and "ctor_inv (snd (ctor_client le gpu ps s)) \<and> \<not> bSchedDiagnosticActive (snd (ctor_client le gpu ps s))"
    and "ctor_inv (snd (ctor_engine_type le s)) \<and> \<not> bSchedDiagnosticActive (snd (ctor_engine_type le s))"
    and "ctor_inv (snd (ctor_vaspace le ps s)) \<and> \<not> bSchedDiagnosticActive (snd (ctor_vaspace le ps s))"
    and "ctor_inv (snd (ctor_pools po s)) \<and> \<not> bSchedDiagnosticActive (snd (ctor_pools po s))"
    and "ctor_inv (snd (ctor_group_init po gpu ps s)) \<and>
         \<not> bSchedDiagnosticActive (snd (ctor_group_init po gpu ps s))"
  using assms by (simp_all add: pre_stage_defs stage_simps split: prod.splits)

lemma prologue_inv:
  "ctor_inv (snd (ctor_prologue pe ps (ctor_start api))) \<and>
   \<not> bSchedDiagnosticActive (snd (ctor_prologue pe ps (ctor_start api)))"
  by (simp add: ctor_prologue_def ctor_start_def stage_simps ev_count_def split: prod.splits)

lemma apply_stages_inv:
  assumes "ctor_inv s"
  shows "ctor_inv (snd (ctor_apply_timeslice v s))" and "ctor_inv (snd (ctor_apply_interleave gpu v s))"
  using assms
  by (simp_all add: ctor_apply_timeslice_def ctor_apply_interleave_def stage_simps split: prod.splits)

lemma policy_inv:
  assumes "ctor_inv s \<and> \<not> bSchedDiagnosticActive s"
  shows "ctor_inv (snd (ctor_policy mem slot gpu ps s))"
proof -
  obtain d v where dec: "ctor_decide mem slot gpu (the_group s) = (d, v)" by fastforce
  have "ctor_inv (ctor_validated gpu ps d v s)"
    using assms by (simp add: ctor_validated_def stage_simps)
  then have "ctor_inv (snd (run_stages [ctor_apply_timeslice v, ctor_apply_interleave gpu v]
      (ctor_validated gpu ps d v s)))"
    by (rule run_stages_inv [rotated]) (auto simp: apply_stages_inv)
  then show ?thesis using dec by (simp only: ctor_policy_def prod.case)
qed

lemma post_stages_inv:
  assumes "ctor_inv s"
  shows "ctor_inv (snd (ctor_reserve_size re le gpu s))" and "ctor_inv (snd (ctor_graphics rm le s))"
    and "ctor_inv (snd (ctor_remote_alloc rm gpu s))" and "ctor_inv (snd (ctor_replay_timeslice rm gpu s))"
    and "ctor_inv (snd (ctor_replay_interleave rm gpu s))" and "ctor_inv (snd (ctor_promote rm gpu s))"
    and "ctor_inv (snd (ctor_append rm s))"
  using assms
  by (simp_all add: ctor_reserve_size_def ctor_graphics_def ctor_remote_alloc_def ctor_append_def
      ctor_replay_timeslice_def ctor_replay_interleave_def ctor_promote_def stage_simps)

lemma remote_inv:
  assumes "ctor_inv s"
  shows "ctor_inv (snd (ctor_remote rm gpu ps s))"
proof -
  have "ctor_inv (snd (run_stages [ctor_remote_alloc rm gpu, ctor_replay_timeslice rm gpu,
      ctor_replay_interleave rm gpu, ctor_promote rm gpu] s))"
    using assms by (rule run_stages_inv [rotated]) (auto simp: post_stages_inv)
  then show ?thesis using assms by (simp only: ctor_remote_def snd_conv split: if_splits) simp
qed

text \<open>Only the prologue returns or jumps to \<open>done\<close>.\<close>

lemma run_stages_falls_or_fails:
  assumes "list_all falls_or_fails fs"
  shows "falls_or_fails (run_stages fs)"
  using assms by (induction fs) (auto simp: falls_or_fails_def split: prod.splits, metis fst_conv)

lemma stages_fall_or_fail:
  "falls_or_fails (ctor_share le)" "falls_or_fails (ctor_client le gpu ps)"
  "falls_or_fails (ctor_engine_type le)" "falls_or_fails (ctor_vaspace le ps)"
  "falls_or_fails (ctor_pools po)" "falls_or_fails (ctor_group_init po gpu ps)"
  "falls_or_fails (ctor_apply_timeslice v)" "falls_or_fails (ctor_apply_interleave gpu v)"
  "falls_or_fails (ctor_reserve_size re le gpu)" "falls_or_fails (ctor_graphics rm le)"
  "falls_or_fails (ctor_remote_alloc rm gpu)" "falls_or_fails (ctor_replay_timeslice rm gpu)"
  "falls_or_fails (ctor_replay_interleave rm gpu)" "falls_or_fails (ctor_promote rm gpu)"
  "falls_or_fails (ctor_append rm)"
  by (auto simp: falls_or_fails_def pre_stage_defs check_ok_def fail_with_def Let_def
      ctor_apply_timeslice_def ctor_apply_interleave_def ctor_reserve_size_def ctor_graphics_def
      ctor_remote_alloc_def ctor_replay_timeslice_def ctor_replay_interleave_def ctor_promote_def
      ctor_append_def split: prod.splits)

lemma policy_remote_fall_or_fail:
  "falls_or_fails (ctor_policy mem slot gpu ps)" "falls_or_fails (ctor_remote rm gpu ps)"
proof -
  have "falls_or_fails (run_stages [ctor_apply_timeslice v, ctor_apply_interleave gpu v])" for v
    by (rule run_stages_falls_or_fails) (simp add: stages_fall_or_fail)
  then show "falls_or_fails (ctor_policy mem slot gpu ps)"
    by (simp add: falls_or_fails_def ctor_policy_def del: run_stages.simps split: prod.splits)
  have "falls_or_fails (run_stages [ctor_remote_alloc rm gpu, ctor_replay_timeslice rm gpu,
      ctor_replay_interleave rm gpu, ctor_promote rm gpu])"
    by (rule run_stages_falls_or_fails) (simp add: stages_fall_or_fail)
  then show "falls_or_fails (ctor_remote rm gpu ps)"
    by (simp add: falls_or_fails_def ctor_remote_def del: run_stages.simps)
qed

lemma native_stages_inv:
  assumes "ctor_inv s \<and> \<not> bSchedDiagnosticActive s"
  shows "ctor_inv (snd (run_stages (ctor_native_stages env) s)) \<and>
    \<not> bSchedDiagnosticActive (snd (run_stages (ctor_native_stages env) s))"
  by (rule run_stages_inv [where I = "\<lambda>s. ctor_inv s \<and> \<not> bSchedDiagnosticActive s", OF _ assms])
    (auto simp: ctor_native_stages_def pre_stages_inv)

lemma later_stages_inv:
  assumes "ctor_inv s"
  shows "ctor_inv (snd (run_stages (ctor_later_stages env) s))"
  by (rule run_stages_inv [where I = ctor_inv, OF _ assms])
    (auto simp: ctor_later_stages_def post_stages_inv remote_inv)

lemma after_prologue:
  assumes "ctor_inv s \<and> \<not> bSchedDiagnosticActive s" and "run_stages (tl (ctor_stages env)) s = (l, s')"
  shows "ctor_inv s'"
proof -
  let ?pol = "ctor_policy (ce_mem env) (ce_slot env) (ce_gpu env) (ce_params env)"
  obtain l1 s1 where pre: "run_stages (ctor_native_stages env) s = (l1, s1)" by fastforce
  with native_stages_inv [OF assms(1), of env] have s1: "ctor_inv s1 \<and> \<not> bSchedDiagnosticActive s1"
    by simp
  obtain l2 s2 where pol: "?pol s1 = (l2, s2)" by fastforce
  with policy_inv [OF s1] have s2: "ctor_inv s2" by (metis snd_conv)
  show ?thesis
    using assms(2) pre pol s1 s2 later_stages_inv [OF s2, of env]
    by (auto simp: ctor_stages_def run_stages_append split: if_splits)
qed

lemma teardown_frame [simp]:
  "ev_count is_lock (failed_teardown po s) = ev_count is_lock s"
  "ev_count is_release (failed_teardown po s) = ev_count is_release s"
  "ev_count (is_diag p) (failed_teardown po s) = ev_count (is_diag p) s"
  "ev_count (is_return_of st) (failed_teardown po s) = ev_count (is_return_of st) s"
  "ev_count is_remote_free (failed_teardown po s) = ev_count is_remote_free s"
  "c_rmStatus (failed_teardown po s) = c_rmStatus s"
  "bLockAcquired (failed_teardown po s) = bLockAcquired s"
  "bReserveMem (failed_teardown po s) = bReserveMem s"
  "bSchedDiagnosticActive (failed_teardown po s) = bSchedDiagnosticActive s"
  "bPolicyRemoteAllocated (failed_teardown po s) = bPolicyRemoteAllocated s"
  by (simp_all add: failed_teardown_def Let_def)

lemma rollback_frame [simp]:
  "ev_count is_lock (failed_rollback rm s) = ev_count is_lock s"
  "ev_count is_release (failed_rollback rm s) = ev_count is_release s"
  "ev_count (is_diag p) (failed_rollback rm s) = ev_count (is_diag p) s"
  "ev_count (is_return_of st) (failed_rollback rm s) = ev_count (is_return_of st) s"
  "ev_count is_remote_free (failed_rollback rm s) =
     ev_count is_remote_free s + of_bool (bPolicyRemoteAllocated s)"
  "c_rmStatus (failed_rollback rm s) = c_rmStatus s"
  "bLockAcquired (failed_rollback rm s) = bLockAcquired s"
  "bReserveMem (failed_rollback rm s) = bReserveMem s"
  "bSchedDiagnosticActive (failed_rollback rm s) = bSchedDiagnosticActive s"
  "bPolicyRemoteAllocated (failed_rollback rm s) = bPolicyRemoteAllocated s"
  by (simp_all add: failed_rollback_def Let_def)

lemma constructor_return_frame [simp]:
  "ev_count is_lock (constructor_return st s) = ev_count is_lock s"
  "ev_count is_release (constructor_return st s) = ev_count is_release s"
  "ev_count (is_diag NV_GPU_SCHED_INIT_DIAGNOSTIC_VALIDATED) (constructor_return st s) =
     ev_count (is_diag NV_GPU_SCHED_INIT_DIAGNOSTIC_VALIDATED) s"
  "ev_count (is_diag NV_GPU_SCHED_INIT_DIAGNOSTIC_CONSTRUCTOR_RETURN) (constructor_return st s) =
     Suc (ev_count (is_diag NV_GPU_SCHED_INIT_DIAGNOSTIC_CONSTRUCTOR_RETURN) s)"
  "ev_count (is_return_of st') (constructor_return st s) =
     ev_count (is_return_of st') s + of_bool (st = st')"
  "ev_count is_remote_free (constructor_return st s) = ev_count is_remote_free s"
  "c_rmStatus (constructor_return st s) = c_rmStatus s"
  "bLockAcquired (constructor_return st s) = bLockAcquired s"
  "bReserveMem (constructor_return st s) = bReserveMem s"
  "bPolicyRemoteAllocated (constructor_return st s) = bPolicyRemoteAllocated s"
  "c_api (constructor_return st s) = c_api s"
  by (simp_all add: constructor_return_def Let_def)

lemma failed_diagnostic_frame [simp]:
  "ev_count is_lock (failed_diagnostic s) = ev_count is_lock s"
  "ev_count is_release (failed_diagnostic s) = ev_count is_release s"
  "ev_count (is_diag NV_GPU_SCHED_INIT_DIAGNOSTIC_VALIDATED) (failed_diagnostic s) =
     ev_count (is_diag NV_GPU_SCHED_INIT_DIAGNOSTIC_VALIDATED) s"
  "ev_count (is_diag NV_GPU_SCHED_INIT_DIAGNOSTIC_CONSTRUCTOR_RETURN) (failed_diagnostic s) =
     ev_count (is_diag NV_GPU_SCHED_INIT_DIAGNOSTIC_CONSTRUCTOR_RETURN) s
       + of_bool (bSchedDiagnosticActive s \<and> c_rmStatus s \<noteq> NV_OK)"
  "ev_count (is_return_of st) (failed_diagnostic s) = ev_count (is_return_of st) s
       + of_bool (bSchedDiagnosticActive s \<and> c_rmStatus s \<noteq> NV_OK \<and> c_rmStatus s = st)"
  "ev_count is_remote_free (failed_diagnostic s) = ev_count is_remote_free s"
  "c_rmStatus (failed_diagnostic s) = c_rmStatus s"
  "bLockAcquired (failed_diagnostic s) = bLockAcquired s"
  "bReserveMem (failed_diagnostic s) = bReserveMem s"
  "bPolicyRemoteAllocated (failed_diagnostic s) = bPolicyRemoteAllocated s"
  "bSchedDiagnosticActive (failed_diagnostic s) \<longleftrightarrow> bSchedDiagnosticActive s \<and> c_rmStatus s = NV_OK"
  by (auto simp: failed_diagnostic_def Let_def split: option.splits)

lemma done_unlock_frame [simp]:
  "ev_count is_lock (done_unlock s) = ev_count is_lock s"
  "ev_count is_release (done_unlock s) = ev_count is_release s + of_bool (bLockAcquired s)"
  "ev_count (is_diag p) (done_unlock s) = ev_count (is_diag p) s"
  "ev_count (is_return_of st) (done_unlock s) = ev_count (is_return_of st) s"
  "ev_count is_remote_free (done_unlock s) = ev_count is_remote_free s"
  "c_rmStatus (done_unlock s) = c_rmStatus s" "bReserveMem (done_unlock s) = bReserveMem s"
  "bSchedDiagnosticActive (done_unlock s) = bSchedDiagnosticActive s"
  "bPolicyRemoteAllocated (done_unlock s) = bPolicyRemoteAllocated s"
  by (auto simp: done_unlock_def)

lemma done_finish_frame [simp]:
  "ev_count is_lock (done_finish ps s) = ev_count is_lock s"
  "ev_count is_release (done_finish ps s) = ev_count is_release s"
  "ev_count (is_diag NV_GPU_SCHED_INIT_DIAGNOSTIC_VALIDATED) (done_finish ps s) =
     ev_count (is_diag NV_GPU_SCHED_INIT_DIAGNOSTIC_VALIDATED) s"
  "ev_count (is_diag NV_GPU_SCHED_INIT_DIAGNOSTIC_CONSTRUCTOR_RETURN) (done_finish ps s) =
     ev_count (is_diag NV_GPU_SCHED_INIT_DIAGNOSTIC_CONSTRUCTOR_RETURN) s + of_bool (bSchedDiagnosticActive s)"
  "ev_count (is_return_of st) (done_finish ps s) =
     ev_count (is_return_of st) s + of_bool (bSchedDiagnosticActive s \<and> c_rmStatus s = st)"
  "ev_count is_remote_free (done_finish ps s) = ev_count is_remote_free s"
  "bPolicyRemoteAllocated (done_finish ps s) = bPolicyRemoteAllocated s"
  by (simp_all add: done_finish_def Let_def)

lemma exit_trace: "x \<in> set (c_trace s) \<Longrightarrow> x \<in> set (c_trace (done_unlock (failed_diagnostic s)))"
  by (auto simp: done_unlock_def failed_diagnostic_def constructor_return_def Let_def split: option.splits)

text \<open>What holds of the final state, and of the state in which a pass jumps back to \<open>failed\<close>.\<close>

lemma done_error:
  assumes "c_rmStatus s \<noteq> NV_OK" and inv: "ctor_inv s"
    and "ctor_done rm ps (ctor_failed po rm s) = (r, s')"
  shows "r = Some (c_rmStatus s) \<and> ctor_post (c_rmStatus s) s' \<and>
    ev_count is_remote_free s' = of_bool (bPolicyRemoteAllocated s) \<and>
    bPolicyRemoteAllocated s' = bPolicyRemoteAllocated s"
  using assms by (auto simp: ctor_done_def ctor_failed_def Let_def ctor_inv_def ctor_post_def)

lemma done_ok:
  assumes "c_rmStatus s = NV_OK" and inv: "ctor_inv s"
    and "ctor_done rm ps (ctor_failed po rm s) = (r, s')"
  shows "case r of
      Some st \<Rightarrow> ctor_post st s' \<and> ev_count is_remote_free s' = 0 \<and>
        (st = NV_OK \<or> rm_relock rm \<noteq> NV_OK)
    | None \<Rightarrow> ctor_inv s' \<and> c_rmStatus s' \<noteq> NV_OK \<and> bPolicyRemoteAllocated s' = bPolicyRemoteAllocated s"
  using assms exit_trace [of _ s]
  by (auto simp: ctor_done_def ctor_failed_def done_reserve_failed_def Let_def ctor_inv_def ctor_post_def
      split: if_splits)

lemma ctor_exit_post:
  assumes "ctor_inv s"
  shows "\<exists>st s'. ctor_exit 2 po rm ps True s = Some (st, s') \<and> ctor_post st s' \<and>
    (rm_relock rm = NV_OK \<longrightarrow>
       ev_count is_remote_free s' = of_bool (bPolicyRemoteAllocated s' \<and> st \<noteq> NV_OK))"
proof -
  have two: "(2::nat) = Suc (Suc 0)" by simp
  obtain r1 s1 where d1: "ctor_done rm ps (ctor_failed po rm s) = (r1, s1)" by fastforce
  show ?thesis
  proof (cases "c_rmStatus s = NV_OK")
    case False
    from done_error [OF False assms d1] d1 False show ?thesis by (auto simp: two)
  next
    case True
    note ok = done_ok [OF True assms d1]
    show ?thesis
    proof (cases r1)
      case (Some st)
      then show ?thesis using ok d1 by (auto simp: two)
    next
      case None
      obtain r2 s2 where d2: "ctor_done rm ps (ctor_failed po rm s1) = (r2, s2)" by fastforce
      from None ok have "c_rmStatus s1 \<noteq> NV_OK" "ctor_inv s1" by auto
      from done_error [OF this d2] this d1 d2 None show ?thesis by (auto simp: two)
    qed
  qed
qed

lemma prologue_leaves:
  assumes "ctor_prologue pe ps (ctor_start api) = (l, s)" and "l \<noteq> Fall"
  shows "\<not> bSchedDiagnosticActive s \<and> \<not> bReserveMem s \<and> \<not> bPolicyRemoteAllocated s \<and>
    (l = Goto_done \<or> (\<exists>st. l = Return st) \<and> \<not> bLockAcquired s)"
  using assms by (auto simp: ctor_prologue_def ctor_start_def Let_def split: if_splits prod.splits)

lemma construct_exit:
  assumes "ctor_prologue (ce_prologue env) (ce_params env) s0 = (Fall, s)"
    and "run_stages (tl (ctor_stages env)) s = (l, s')"
  shows "kchangrpapiConstruct env n s0 =
    ctor_exit n (ce_pools env) (ce_remote env) (ce_params env) True s'"
proof -
  have "falls_or_fails (run_stages (tl (ctor_stages env)))"
    by (rule run_stages_falls_or_fails)
      (simp add: ctor_stages_def ctor_native_stages_def ctor_later_stages_def stages_fall_or_fail
        policy_remote_fall_or_fail)
  then have "l = Fall \<or> l = Goto_failed" using assms(2) by (metis falls_or_fails_def fst_conv)
  moreover have "run_stages (ctor_stages env) s0 = (l, s')"
    using assms by (simp add: ctor_stages_def)
  ultimately show ?thesis by (auto simp: kchangrpapiConstruct_def ctor_finish_def)
qed

lemma construct_post:
  "\<exists>st s'. kchangrpapiConstruct env 2 (ctor_start api) = Some (st, s') \<and> ctor_post st s' \<and>
    (rm_relock (ce_remote env) = NV_OK \<longrightarrow>
       ev_count is_remote_free s' = of_bool (bPolicyRemoteAllocated s' \<and> st \<noteq> NV_OK))"
proof -
  let ?start = "ctor_start api"
  let ?tail = "tl (ctor_stages env)"
  obtain l s where pro: "ctor_prologue (ce_prologue env) (ce_params env) ?start = (l, s)" by fastforce
  show ?thesis
  proof (cases "l = Fall")
    case True
    obtain l' s' where run: "run_stages ?tail s = (l', s')" by fastforce
    have "ctor_inv s \<and> \<not> bSchedDiagnosticActive s"
      using prologue_inv [of "ce_prologue env" "ce_params env" api] pro by simp
    then have "ctor_inv s'" using run by (rule after_prologue)
    from ctor_exit_post [OF this, of "ce_pools env" "ce_remote env" "ce_params env"] show ?thesis
      using construct_exit [OF _ run] pro True by simp
  next
    case False
    note leave = prologue_leaves [OF pro False]
    have inv: "ctor_inv s" using prologue_inv [of "ce_prologue env" "ce_params env" api] pro by simp
    have stages: "run_stages (ctor_stages env) ?start = (l, s)"
      using pro False by (simp add: ctor_stages_def)
    have two: "(2::nat) = Suc (Suc 0)" by simp
    from leave consider "l = Goto_done" | st where "l = Return st" "\<not> bLockAcquired s" by blast
    then show ?thesis
    proof cases
      case 1
      have "ctor_done (ce_remote env) (ce_params env) s =
          (Some (c_rmStatus s), done_finish (ce_params env) (done_unlock s))"
        using leave by (simp add: ctor_done_def Let_def)
      then have "kchangrpapiConstruct env 2 ?start =
          Some (c_rmStatus s, done_finish (ce_params env) (done_unlock s))"
        using stages 1 by (simp add: kchangrpapiConstruct_def ctor_finish_def two)
      then show ?thesis using inv leave by (simp add: ctor_post_def ctor_inv_def)
    next
      case 2
      then have "kchangrpapiConstruct env 2 ?start = Some (st, s)"
        using stages by (simp add: kchangrpapiConstruct_def ctor_finish_def)
      then show ?thesis using inv leave 2 by (simp add: ctor_post_def ctor_inv_def)
    qed
  qed
qed

lemma replay_frame [simp]:
  "replay_trace (s\<lparr>c_rmStatus := st\<rparr>) = replay_trace s" "replay_trace (put_group g s) = replay_trace s"
  "replay_trace (s\<lparr>c_api := a\<rparr>) = replay_trace s" "replay_trace (s\<lparr>bLockAcquired := b\<rparr>) = replay_trace s"
  "replay_trace (s\<lparr>bSchedDiagnosticActive := b\<rparr>) = replay_trace s"
  by (simp_all add: replay_trace_def)

lemma replay_trace_emit [simp]:
  "(\<And>d. e \<noteq> Diagnostic d) \<Longrightarrow> (\<And>c. e \<noteq> Remote_Control c) \<Longrightarrow> replay_trace (emit e s) = replay_trace s"
  by (auto simp: replay_trace_def)

lemma constructor_return_replay: "replay_trace s \<Longrightarrow> replay_trace (constructor_return st s)"
  by (auto simp: replay_trace_def constructor_return_def Let_def)

lemma failed_replay: "replay_trace s \<Longrightarrow> replay_trace (ctor_failed po rm s)"
proof -
  assume rt: "replay_trace s"
  have "replay_trace (failed_diagnostic s)"
  proof -
    have fin: "replay_trace (s\<lparr>schedDiagnostic := (schedDiagnostic s)\<lparr>constructor_status := x\<rparr>\<rparr>)"
      "replay_trace (s\<lparr>schedDiagnostic := (schedDiagnostic s)\<lparr>constructor_status := x,
         final_timeslice := t, final_interleave := i, final_snapshot_valid := True\<rparr>\<rparr>)" for x t i
      using rt by (simp_all add: replay_trace_def)
    show ?thesis using rt fin
      by (auto simp: failed_diagnostic_def Let_def constructor_return_replay split: option.splits)
  qed
  then show ?thesis
    by (simp add: ctor_failed_def failed_teardown_def failed_rollback_def Let_def)
qed

lemma done_replay: "replay_trace s \<Longrightarrow> replay_trace (snd (ctor_done rm ps s))"
  by (simp add: ctor_done_def done_unlock_def done_finish_def done_reserve_failed_def Let_def
      constructor_return_replay)

lemma ctor_exit_inv:
  assumes "\<And>s. Q s \<Longrightarrow> Q (ctor_failed po rm s)" and "\<And>s. Q s \<Longrightarrow> Q (snd (ctor_done rm ps s))"
  shows "Q s \<Longrightarrow> ctor_exit n po rm ps b s = Some (st, s') \<Longrightarrow> Q s'"
proof (induction n arbitrary: b s)
  case 0
  then show ?case by simp
next
  case (Suc n)
  obtain r s1 where d: "ctor_done rm ps (if b then ctor_failed po rm s else s) = (r, s1)" by fastforce
  have "Q (snd (ctor_done rm ps (if b then ctor_failed po rm s else s)))"
    using Suc.prems(1) assms by simp
  with d have "Q s1" by simp
  then show ?case using Suc d by (auto split: option.splits)
qed

text \<open>Before the policy runs nothing is replayed or reported; the policy stage sets the invariant up.\<close>

lemma quiet_stages:
  assumes "quiet s"
  shows "quiet (snd (ctor_share le s))" "quiet (snd (ctor_client le gpu ps s))"
    "quiet (snd (ctor_engine_type le s))" "quiet (snd (ctor_vaspace le ps s))"
    "quiet (snd (ctor_pools po s))" "quiet (snd (ctor_group_init po gpu ps s))"
  using assms
  by (simp_all add: quiet_def pre_stage_defs check_ok_def fail_with_def Let_def split: prod.splits)

lemma quiet_prologue: "quiet (snd (ctor_prologue pe ps (ctor_start api)))"
  by (simp add: quiet_def ctor_prologue_def ctor_start_def Let_def split: prod.splits)

lemma fold_upd_const:
  "fold (\<lambda>j level. level(j := v)) is f i = (if i \<in> set is then v else f i)"
  by (induction "is" arbitrary: f) auto

lemma set_interleave_cases:
  assumes "kchangrpSetInterleaveLevel gpu grp v = (st, grp')" and "subdev_inst gpu \<in> set (sli_subdevs gpu)"
  shows "st = NV_OK \<and> pInterleaveLevel grp' (subdev_inst gpu) = v \<and> timesliceUs grp' = timesliceUs grp \<or>
    st = NV_ERR_INVALID_ARGUMENT \<and> grp' = grp"
  using assms
  by (auto simp: kchangrpSetInterleaveLevel_def Let_def kchangrpSetInterleaveLevelSched_def fold_upd_const
      split: if_splits)

lemma the_group_frame [simp]:
  "the_group (s\<lparr>c_pShared := b\<rparr>) = the_group s" "the_group (s\<lparr>c_rmStatus := st\<rparr>) = the_group s"
  "the_group (s\<lparr>c_rmEngineType := t\<rparr>) = the_group s" "the_group (s\<lparr>bTsgAllocated := b\<rparr>) = the_group s"
  "the_group (s\<lparr>bPolicyTimeslice := b\<rparr>) = the_group s" "the_group (s\<lparr>bPolicyInterleave := b\<rparr>) = the_group s"
  "the_group (s\<lparr>bPolicyRemoteAllocated := b\<rparr>) = the_group s" "the_group (s\<lparr>bLockAcquired := b\<rparr>) = the_group s"
  "the_group (s\<lparr>bReserveMem := b\<rparr>) = the_group s" "the_group (s\<lparr>c_bufCount := n\<rparr>) = the_group s"
  "the_group (s\<lparr>bSchedDiagnosticActive := b\<rparr>) = the_group s"
  "the_group (s\<lparr>schedDiagnostic := d\<rparr>) = the_group s"
  by (simp_all add: the_group_def)

lemma applies_iff: "kchangrpapiPolicyValueApplies r \<longleftrightarrow> r = NV_GPU_TRANSITION_APPLY"
  by (cases r) simp_all

lemmas replay_defs = decided_def replay_inv_def replay_trace_def

lemma apply_timeslice_decided:
  "decided i v s \<Longrightarrow> decided i v (snd (ctor_apply_timeslice v s))"
  by (auto simp: ctor_apply_timeslice_def Let_def replay_defs replayed_def applies_iff)

lemma apply_interleave_decided:
  assumes "decided (subdev_inst gpu) v s" and "subdev_inst gpu \<in> set (sli_subdevs gpu)"
  shows "decided (subdev_inst gpu) v (snd (ctor_apply_interleave gpu v s))"
proof (cases "kchangrpapiPolicyValueApplies (interleave_result v)")
  case False
  then show ?thesis using assms(1) by (simp add: ctor_apply_interleave_def)
next
  case True
  obtain st g where set: "kchangrpSetInterleaveLevel gpu (the_group s) (sv_interleave v) = (st, g)"
    by fastforce
  show ?thesis using assms(1) True set set_interleave_cases [OF set assms(2)]
    by (auto simp: ctor_apply_interleave_def Let_def replay_defs replayed_def fail_with_def applies_iff)
qed

lemma policy_replay:
  assumes "quiet s" and "subdev_inst gpu \<in> set (sli_subdevs gpu)"
  shows "replay_inv (subdev_inst gpu) (snd (ctor_policy mem slot gpu ps s))"
proof -
  obtain d v where dec: "ctor_decide mem slot gpu (the_group s) = (d, v)" by fastforce
  have "decided (subdev_inst gpu) v (ctor_validated gpu ps d v s)"
    using assms(1) by (auto simp: ctor_validated_def Let_def replay_defs quiet_def)
  then have "decided (subdev_inst gpu) v
      (snd (run_stages [ctor_apply_timeslice v, ctor_apply_interleave gpu v] (ctor_validated gpu ps d v s)))"
    by (rule run_stages_inv [rotated])
      (auto intro: apply_timeslice_decided apply_interleave_decided assms(2))
  then show ?thesis using dec by (simp only: ctor_policy_def prod.case decided_def)
qed

lemma later_replay:
  assumes "replay_inv (subdev_inst gpu) s"
  shows "replay_inv (subdev_inst gpu) (snd (ctor_reserve_size re le gpu s))"
    and "replay_inv (subdev_inst gpu) (snd (ctor_graphics rm le s))"
    and "replay_inv (subdev_inst gpu) (snd (ctor_remote_alloc rm gpu s))"
    and "replay_inv (subdev_inst gpu) (snd (ctor_replay_timeslice rm gpu s))"
    and "replay_inv (subdev_inst gpu) (snd (ctor_replay_interleave rm gpu s))"
    and "replay_inv (subdev_inst gpu) (snd (ctor_promote rm gpu s))"
    and "replay_inv (subdev_inst gpu) (snd (ctor_append rm s))"
  using assms
  by (auto simp: ctor_reserve_size_def ctor_graphics_def ctor_remote_alloc_def ctor_append_def
      ctor_replay_timeslice_def ctor_replay_interleave_def ctor_promote_def check_ok_def fail_with_def
      Let_def replay_inv_def replay_trace_def the_group_def)

lemma remote_replay:
  assumes "replay_inv (subdev_inst gpu) s"
  shows "replay_inv (subdev_inst gpu) (snd (ctor_remote rm gpu ps s))"
proof -
  have "replay_inv (subdev_inst gpu) (snd (run_stages [ctor_remote_alloc rm gpu,
      ctor_replay_timeslice rm gpu, ctor_replay_interleave rm gpu, ctor_promote rm gpu] s))"
    using assms by (rule run_stages_inv [rotated]) (auto simp: later_replay)
  then show ?thesis using assms by (simp only: ctor_remote_def snd_conv split: if_splits) simp
qed

lemma after_prologue_replay:
  assumes "quiet s" and run: "run_stages (tl (ctor_stages env)) s = (l, s')"
    and sub: "subdev_inst (ce_gpu env) \<in> set (sli_subdevs (ce_gpu env))"
  shows "replay_trace s'"
proof -
  let ?I = "replay_inv (subdev_inst (ce_gpu env))"
  let ?pol = "ctor_policy (ce_mem env) (ce_slot env) (ce_gpu env) (ce_params env)"
  obtain l1 s1 where pre: "run_stages (ctor_native_stages env) s = (l1, s1)" by fastforce
  have "quiet (snd (run_stages (ctor_native_stages env) s))"
    using assms(1) by (rule run_stages_inv [rotated]) (auto simp: ctor_native_stages_def quiet_stages)
  with pre have s1: "quiet s1" by simp
  obtain l2 s2 where pol: "?pol s1 = (l2, s2)" by fastforce
  with policy_replay [OF s1 sub] have s2: "?I s2" by (metis snd_conv)
  then have later: "?I (snd (run_stages (ctor_later_stages env) s2))"
    by (rule run_stages_inv [rotated]) (auto simp: ctor_later_stages_def later_replay remote_replay)
  have "quiet s' \<or> ?I s'"
    using run pre pol s1 s2 later
    by (auto simp: ctor_stages_def run_stages_append split: if_splits)
  then show ?thesis by (auto simp: replay_inv_def replay_trace_def quiet_def)
qed

lemma kchangrpInit_failed_pools [simp]:
  "pCtxBufPool (kchangrpInit_failed m b n g) = pCtxBufPool g"
  "pChannelBufPool (kchangrpInit_failed m b n g) = pChannelBufPool g"
  by (simp_all add: kchangrpInit_failed_def release_res_def Let_def)

lemma acquire_res_pools [simp]:
  "pCtxBufPool (acquire_res r g) = pCtxBufPool g" "pChannelBufPool (acquire_res r g) = pChannelBufPool g"
  by (simp_all add: acquire_res_def)

lemma map_buffers_pools:
  "pCtxBufPool (snd (map_fault_method_buffers f is g)) = pCtxBufPool g \<and>
   pChannelBufPool (snd (map_fault_method_buffers f is g)) = pChannelBufPool g"
  by (induction f "is" g rule: map_fault_method_buffers.induct) simp_all

lemma kchangrpInit_buffers_pools:
  "pCtxBufPool (snd (kchangrpInit_buffers env g)) = pCtxBufPool g \<and>
   pChannelBufPool (snd (kchangrpInit_buffers env g)) = pChannelBufPool g"
proof -
  let ?g = "acquire_res Res_FaultBuffers (acquire_res Res_MthdBuffers g)"
  obtain st g' where m: "map_fault_method_buffers (ie_map_fault_buffers env) [0..<ie_runqueues env] ?g = (st, g')"
    by fastforce
  have "pCtxBufPool g' = pCtxBufPool g" "pChannelBufPool g' = pChannelBufPool g"
    using map_buffers_pools [of "ie_map_fault_buffers env" "[0..<ie_runqueues env]" ?g] m by simp_all
  then show ?thesis using m by (simp add: kchangrpInit_buffers_def Let_def)
qed

lemma kchangrpInit_heaps_pools:
  "pCtxBufPool (snd (kchangrpInit_heaps env g)) = pCtxBufPool g \<and>
   pChannelBufPool (snd (kchangrpInit_heaps env g)) = pChannelBufPool g"
  by (simp add: kchangrpInit_heaps_def Let_def kchangrpInit_buffers_pools)

lemma kchangrpInit_pools:
  assumes "kchangrpInit env g = (st, g')"
  shows "pCtxBufPool g' = pCtxBufPool g" and "pChannelBufPool g' = pChannelBufPool g"
proof -
  have "pCtxBufPool (snd (kchangrpInit env g)) = pCtxBufPool g"
    "pChannelBufPool (snd (kchangrpInit env g)) = pChannelBufPool g"
    by (simp_all add: kchangrpInit_def Let_def kchangrpInit_heaps_pools)
  then show "pCtxBufPool g' = pCtxBufPool g" "pChannelBufPool g' = pChannelBufPool g"
    using assms by simp_all
qed

lemma set_interleave_pools:
  "kchangrpSetInterleaveLevel gpu g v = (st, g') \<Longrightarrow>
     pCtxBufPool g' = pCtxBufPool g \<and> pChannelBufPool g' = pChannelBufPool g"
  by (auto simp: kchangrpSetInterleaveLevel_def Let_def split: if_splits)

lemma kchangrpDestroy_pools:
  "pCtxBufPool (snd (kchangrpDestroy env g)) = pCtxBufPool g \<and>
   pChannelBufPool (snd (kchangrpDestroy env g)) = pChannelBufPool g"
  by (simp add: kchangrpDestroy_def release_res_def Let_def)

lemmas res_simps = res_inv_def res_pre_def res_mid_def counts_def check_ok_def fail_with_def Let_def the_group_def put_group_def

lemma share_res:
  assumes "res_inv s" and "\<not> c_pShared s" and "hKernelGraphicsContext (c_api s) = 0"
    and "\<not> pCtxBufPool (le_new_group le)" and "\<not> pChannelBufPool (le_new_group le)"
  shows "res_inv (snd (ctor_share le s)) \<and> (fst (ctor_share le s) = Fall \<longrightarrow> res_pre (snd (ctor_share le s)))"
  using assms by (auto simp: ctor_share_def res_simps)

lemma native_res:
  assumes "res_pre s"
  shows "res_pre (snd (ctor_client le gpu ps s))" and "res_pre (snd (ctor_engine_type le s))"
    and "res_pre (snd (ctor_vaspace le ps s))"
  using assms by (auto simp: ctor_client_def ctor_engine_type_def ctor_vaspace_def res_simps)

lemma pools_res:
  assumes "res_pre s"
  shows "res_mid (snd (ctor_pools po s)) \<and> \<not> bTsgAllocated (snd (ctor_pools po s))"
  using assms by (auto simp: ctor_pools_def res_simps)

lemma group_init_res:
  assumes "res_mid s" and "\<not> bTsgAllocated s"
  shows "res_mid (snd (ctor_group_init po gpu ps s))"
proof -
  obtain st g where init: "kchangrpInit (po_group po) (the_group s) = (st, g)" by fastforce
  obtain st' g' where lvl: "kchangrpSetInterleaveLevel gpu g 1 = (st', g')" by fastforce
  show ?thesis using assms init lvl kchangrpInit_pools [OF init] set_interleave_pools [OF lvl]
    by (auto simp: ctor_group_init_def res_simps)
qed

lemma policy_res:
  assumes "res_mid s"
  shows "res_mid (snd (ctor_policy mem slot gpu ps s))"
proof -
  have ts: "res_mid (snd (ctor_apply_timeslice v s))" if "res_mid s" for v s
    using that by (auto simp: ctor_apply_timeslice_def res_simps)
  have il: "res_mid (snd (ctor_apply_interleave gpu v s))" if "res_mid s" for v s
  proof -
    obtain st g where lvl: "kchangrpSetInterleaveLevel gpu (the_group s) (sv_interleave v) = (st, g)"
      by fastforce
    show ?thesis using that lvl set_interleave_pools [OF lvl]
      by (auto simp: ctor_apply_interleave_def res_simps)
  qed
  obtain d v where dec: "ctor_decide mem slot gpu (the_group s) = (d, v)" by fastforce
  have "res_mid (ctor_validated gpu ps d v s)"
    using assms by (auto simp: ctor_validated_def res_simps)
  then have "res_mid (snd (run_stages [ctor_apply_timeslice v, ctor_apply_interleave gpu v]
      (ctor_validated gpu ps d v s)))"
    by (rule run_stages_inv [rotated]) (auto intro: ts il)
  then show ?thesis using dec by (simp only: ctor_policy_def prod.case)
qed

lemma later_res:
  assumes "res_inv s"
  shows "res_inv (snd (ctor_reserve_size re le gpu s))"
    and "res_inv (snd (ctor_remote_alloc rm gpu s))" and "res_inv (snd (ctor_replay_timeslice rm gpu s))"
    and "res_inv (snd (ctor_replay_interleave rm gpu s))" and "res_inv (snd (ctor_promote rm gpu s))"
    and "res_inv (snd (ctor_append rm s))"
  using assms
  by (auto simp: ctor_reserve_size_def ctor_remote_alloc_def ctor_append_def
      ctor_replay_timeslice_def ctor_replay_interleave_def ctor_promote_def res_simps)

lemma reserve_res: "res_mid s \<Longrightarrow> res_mid (snd (ctor_reserve_size re le gpu s))"
  by (auto simp: ctor_reserve_size_def res_simps)

lemma graphics_res:
  assumes "res_mid s" and "fst (rm_graphics rm) = NV_OK \<Longrightarrow> snd (rm_graphics rm) \<noteq> 0"
  shows "res_inv (snd (ctor_graphics rm le s))"
  using assms by (auto simp: ctor_graphics_def res_simps)

lemma remote_res:
  assumes "res_inv s"
  shows "res_inv (snd (ctor_remote rm gpu ps s))"
proof -
  have "res_inv (snd (run_stages [ctor_remote_alloc rm gpu, ctor_replay_timeslice rm gpu,
      ctor_replay_interleave rm gpu, ctor_promote rm gpu] s))"
    using assms by (rule run_stages_inv [rotated]) (auto simp: later_res)
  then show ?thesis using assms by (simp only: ctor_remote_def snd_conv split: if_splits) simp
qed

text \<open>A stage followed by the rest: the rest runs only if the stage falls through.\<close>

lemma run_stages_Cons:
  assumes "I (snd (f s))" and "fst (f s) = Fall \<Longrightarrow> I (snd (run_stages fs (snd (f s))))"
  shows "I (snd (run_stages (f # fs) s))"
  using assms by (cases "f s") auto

lemma res_mid_inv: "res_mid s \<Longrightarrow> res_inv s"
  by (simp add: res_mid_def)

lemma res_pre_inv: "res_pre s \<Longrightarrow> res_inv s"
  by (simp add: res_pre_def)

lemma after_prologue_res:
  assumes "res_inv s" and "\<not> c_pShared s" and "hKernelGraphicsContext (c_api s) = 0"
    and "\<not> pCtxBufPool (le_new_group (ce_lookup env))" and "\<not> pChannelBufPool (le_new_group (ce_lookup env))"
    and gfx: "fst (rm_graphics (ce_remote env)) = NV_OK \<Longrightarrow> snd (rm_graphics (ce_remote env)) \<noteq> 0"
  shows "res_inv (snd (run_stages (tl (ctor_stages env)) s))"
proof -
  note share = share_res [OF assms(1-5)]
  let ?gpu = "ce_gpu env" and ?ps = "ce_params env" and ?le = "ce_lookup env" and ?rm = "ce_remote env"
  let ?s0 = "snd (ctor_share ?le s)"
  let ?s1 = "snd (ctor_client ?le ?gpu ?ps ?s0)"
  let ?s2 = "snd (ctor_engine_type ?le ?s1)"
  let ?s3 = "snd (ctor_vaspace ?le ?ps ?s2)"
  let ?s4 = "snd (ctor_pools (ce_pools env) ?s3)"
  let ?s5 = "snd (ctor_group_init (ce_pools env) ?gpu ?ps ?s4)"
  let ?s6 = "snd (ctor_policy (ce_mem env) (ce_slot env) ?gpu ?ps ?s5)"
  let ?s7 = "snd (ctor_reserve_size (ce_reserve env) ?le ?gpu ?s6)"
  let ?s8 = "snd (ctor_graphics ?rm ?le ?s7)"
  have rest: "res_inv ?s1 \<and> res_inv ?s2 \<and> res_inv ?s3 \<and> res_inv ?s4 \<and> res_inv ?s5 \<and> res_inv ?s6 \<and>
      res_inv ?s7 \<and> res_inv ?s8" if "fst (ctor_share ?le s) = Fall"
  proof -
    have s0: "res_pre ?s0" using share that by simp
    have s1: "res_pre ?s1" using s0 by (rule native_res)
    have s2: "res_pre ?s2" using s1 by (rule native_res)
    have s3: "res_pre ?s3" using s2 by (rule native_res)
    have s4: "res_mid ?s4 \<and> \<not> bTsgAllocated ?s4" using s3 by (rule pools_res)
    have s5: "res_mid ?s5" using s4 by (intro group_init_res) simp_all
    have s6: "res_mid ?s6" using s5 by (rule policy_res)
    have s7: "res_mid ?s7" using s6 by (rule reserve_res)
    have s8: "res_inv ?s8" using s7 gfx by (rule graphics_res)
    show ?thesis using s1 s2 s3 s4 s5 s6 s7 s8 by (simp add: res_mid_inv res_pre_inv)
  qed
  show ?thesis
    unfolding ctor_stages_def ctor_native_stages_def ctor_later_stages_def list.sel append.simps
  proof (rule run_stages_Cons)
    show "res_inv ?s0" using share by simp
    assume "fst (ctor_share ?le s) = Fall"
    note r = rest [OF this]
    show "res_inv (snd (run_stages [ctor_client ?le ?gpu ?ps, ctor_engine_type ?le, ctor_vaspace ?le ?ps,
        ctor_pools (ce_pools env), ctor_group_init (ce_pools env) ?gpu ?ps,
        ctor_policy (ce_mem env) (ce_slot env) ?gpu ?ps, ctor_reserve_size (ce_reserve env) ?le ?gpu,
        ctor_graphics ?rm ?le, ctor_remote ?rm ?gpu ?ps, ctor_append ?rm] ?s0))"
      by (intro run_stages_Cons [where I = res_inv])
        (use r in \<open>simp_all only: run_stages.simps(1) snd_conv remote_res later_res\<close>)
  qed
qed

lemma start_res:
  assumes "ctor_prologue pe ps (ctor_start api) = (Fall, s)" and "api_group api = None"
    and "hKernelGraphicsContext api = 0"
  shows "res_inv s \<and> \<not> c_pShared s \<and> hKernelGraphicsContext (c_api s) = 0"
  using assms
  by (auto simp: ctor_prologue_def ctor_start_def res_inv_def counts_def Let_def ev_count_def
      split: if_splits prod.splits)

lemma constructor_return_res [simp]: "res_inv (constructor_return st s) = res_inv s"
  by (simp add: constructor_return_def res_inv_def counts_def Let_def)

lemma res_inv_frame [simp]:
  "res_inv (s\<lparr>schedDiagnostic := d\<rparr>) = res_inv s" "res_inv (s\<lparr>bSchedDiagnosticActive := b\<rparr>) = res_inv s"
  "res_inv (s\<lparr>c_rmStatus := st\<rparr>) = res_inv s" "res_inv (s\<lparr>bLockAcquired := b\<rparr>) = res_inv s"
  "res_inv (emit All_Locks_Acquire s) = res_inv s" "res_inv (emit (Pool_Reserve n) s) = res_inv s"
  by (simp_all add: res_inv_def counts_def)

lemma failed_diagnostic_res [simp]: "res_inv (failed_diagnostic s) = res_inv s"
  by (simp add: failed_diagnostic_def Let_def split: option.splits)

lemma done_unlock_res [simp]: "res_inv (done_unlock s) = res_inv s"
  by (simp add: done_unlock_def res_inv_def counts_def)

text \<open>After the teardown everything but the buffer list is given back.\<close>

lemma teardown_balanced:
  assumes "res_inv s"
  shows "balanced (emit Buf_Info_Free (failed_teardown po (failed_rollback rm s)))"
proof -
  let ?s = "failed_rollback rm s"
  have "res_inv ?s" using assms
    by (auto simp: failed_rollback_def res_inv_def counts_def the_group_def Let_def)
  then show ?thesis using kchangrpDestroy_pools [of "po_group po" "the_group ?s"]
    by (auto simp: failed_teardown_def Let_def balanced_def res_inv_def counts_def)
qed

lemma balanced_frame:
  assumes "balanced (emit Buf_Info_Free s)" and "\<not> p_copy_ctor ps"
  shows "balanced (done_finish ps (done_unlock s))"
  using assms by (simp add: done_finish_def done_unlock_def balanced_def constructor_return_def Let_def)

lemma ctor_exit_balanced:
  assumes res: "res_inv s" and nc: "\<not> p_copy_ctor ps" and relock: "rm_relock rm = NV_OK"
    and run: "ctor_exit 2 po rm ps True s = Some (st, s')" and err: "st \<noteq> NV_OK"
  shows "balanced s'"
proof -
  have two: "(2::nat) = Suc (Suc 0)" by simp
  have error: "ctor_done rm ps (ctor_failed po rm s) = (Some (c_rmStatus s),
      done_finish ps (done_unlock (failed_teardown po (failed_rollback rm (failed_diagnostic s)))))"
    if "c_rmStatus s \<noteq> NV_OK" for s
    using that by (simp add: ctor_done_def ctor_failed_def Let_def)
  have bal: "balanced (done_finish ps (done_unlock (failed_teardown po (failed_rollback rm (failed_diagnostic s)))))"
    if "res_inv s" for s
    using that nc by (intro balanced_frame teardown_balanced) simp_all
  show ?thesis
  proof (cases "c_rmStatus s = NV_OK")
    case False
    then show ?thesis using run error [OF False] bal [OF res] by (simp add: two)
  next
    case True
    let ?s = "(emit (Pool_Reserve (c_bufCount (done_unlock (failed_diagnostic s))))
      (done_unlock (failed_diagnostic s)))\<lparr>c_rmStatus := rm_reserve rm\<rparr>"
    let ?s1 = "(emit All_Locks_Acquire ?s)\<lparr>bLockAcquired := True\<rparr>"
    have ne: "rm_reserve rm \<noteq> NV_OK \<and> bReserveMem s" and
      first: "ctor_done rm ps (ctor_failed po rm s) = (None, ?s1)"
      using run True err relock
      by (auto simp: two ctor_done_def ctor_failed_def done_reserve_failed_def Let_def split: if_splits)
    have "res_inv ?s1" using res by simp
    then show ?thesis using run first error [of ?s1] bal [of ?s1] ne by (auto simp: two)
  qed
qed

lemma construct_balanced:
  assumes api: "api_group api = None" "hKernelGraphicsContext api = 0" and nc: "\<not> p_copy_ctor (ce_params env)"
    and new: "\<not> pCtxBufPool (le_new_group (ce_lookup env))" "\<not> pChannelBufPool (le_new_group (ce_lookup env))"
    and gfx: "fst (rm_graphics (ce_remote env)) = NV_OK \<Longrightarrow> snd (rm_graphics (ce_remote env)) \<noteq> 0"
    and relock: "rm_relock (ce_remote env) = NV_OK"
    and run: "kchangrpapiConstruct env 2 (ctor_start api) = Some (st, s')" and err: "st \<noteq> NV_OK"
  shows "balanced s'"
proof -
  obtain l s where pro: "ctor_prologue (ce_prologue env) (ce_params env) (ctor_start api) = (l, s)"
    by fastforce
  show ?thesis
  proof (cases "l = Fall")
    case True
    obtain l1 s1 where tail: "run_stages (tl (ctor_stages env)) s = (l1, s1)" by fastforce
    have "res_inv (snd (run_stages (tl (ctor_stages env)) s))"
      using start_res [OF pro [unfolded True] api] new gfx by (intro after_prologue_res) auto
    then have "res_inv s1" using tail by simp
    then show ?thesis using nc relock _ err
      by (rule ctor_exit_balanced) (use run construct_exit [OF pro [unfolded True] tail] in simp)
  next
    case False
    have two: "(2::nat) = Suc (Suc 0)" by simp
    show ?thesis using pro False run nc
      by (auto simp: kchangrpapiConstruct_def ctor_stages_def ctor_finish_def ctor_prologue_def two
          ctor_start_def Let_def ctor_done_def done_unlock_def done_finish_def balanced_def ev_count_def
          split: if_splits)
  qed
qed

text \<open>What the task-init policy asks for, from the requests of its run.\<close>

lemma ctor_decide_eq:
  "ctor_decide mem slot gpu grp = (decision, v) \<Longrightarrow>
     timeslice_request decision =
       fold (\<lambda>v r. snd (nv_gpu_transition_record_u64 r v)) (policy_timeslices mem slot gpu grp) u64_request_init \<and>
     interleave_request decision =
       fold (\<lambda>v r. snd (nv_gpu_transition_record_u32 r v)) (policy_interleaves mem slot gpu grp) u32_request_init \<and>
     v = nv_gpu_transition_validate_scheduler (group_snapshot grp) (group_snapshot grp) (timesliceUs grp)
           (pInterleaveLevel grp (subdev_inst gpu)) kfifoRunlistGetMinTimeSlice_HAL
           (timeslice_request decision) (interleave_request decision)"
  by (auto simp: ctor_decide_def policy_timeslices_def policy_interleaves_def nv_gpu_sched_task_init_def
      nv_gpu_sched_bpf_on_task_init_def run_init_policy_Some task_init_decision_def Let_def
      split: option.splits)

lemma settled_Some:
  "settled vs = Some v \<longleftrightarrow> vs \<noteq> [] \<and> v = hd vs \<and> (\<forall>w\<in>set (tl vs). w = v)"
  by (cases vs) (auto simp: list_all_iff)

text \<open>The decision about the timeslice and about the interleave level, from the requests.\<close>

lemma decide_timeslice:
  assumes "ctor_decide mem slot gpu grp = (decision, v)"
  shows "timeslice_result v = NV_GPU_TRANSITION_APPLY \<longleftrightarrow>
      (\<exists>t. settled (policy_timeslices mem slot gpu grp) = Some t \<and> kfifoRunlistGetMinTimeSlice_HAL \<le> t)"
    and "timeslice_result v = NV_GPU_TRANSITION_APPLY \<Longrightarrow>
      settled (policy_timeslices mem slot gpu grp) = Some (sv_timeslice v)"
proof -
  note eq = ctor_decide_eq [OF assms]
  let ?m = "kfifoRunlistGetMinTimeSlice_HAL"
  have "(timeslice_result v = NV_GPU_TRANSITION_APPLY \<longleftrightarrow>
      (\<exists>t. settled (policy_timeslices mem slot gpu grp) = Some t \<and> ?m \<le> t)) \<and>
    (timeslice_result v = NV_GPU_TRANSITION_APPLY \<longrightarrow>
      settled (policy_timeslices mem slot gpu grp) = Some (sv_timeslice v))"
  proof (cases "policy_timeslices mem slot gpu grp")
    case Nil
    then show ?thesis using eq by (simp add: validate_scheduler_timeslice)
  next
    case (Cons t ts)
    let ?r = "timeslice_request decision"
    have "u64_attempted ?r \<and> u64_value ?r = t \<and> (u64_conflict ?r \<longleftrightarrow> (\<exists>w\<in>set ts. w \<noteq> t))"
      using eq rec_u64.fold_fresh [OF _ _ refl, of u64_request_init t ts] Cons by simp
    then show ?thesis using eq Cons by (auto simp: validate_scheduler_timeslice list_all_iff not_less)
  qed
  then show "timeslice_result v = NV_GPU_TRANSITION_APPLY \<longleftrightarrow>
      (\<exists>t. settled (policy_timeslices mem slot gpu grp) = Some t \<and> ?m \<le> t)"
    and "timeslice_result v = NV_GPU_TRANSITION_APPLY \<Longrightarrow>
      settled (policy_timeslices mem slot gpu grp) = Some (sv_timeslice v)" by blast+
qed

lemma decide_interleave:
  assumes "ctor_decide mem slot gpu grp = (decision, v)"
  shows "interleave_result v = NV_GPU_TRANSITION_APPLY \<longleftrightarrow>
      (\<exists>l. settled (policy_interleaves mem slot gpu grp) = Some l \<and> l \<le> 2)"
    and "interleave_result v = NV_GPU_TRANSITION_APPLY \<Longrightarrow>
      settled (policy_interleaves mem slot gpu grp) = Some (sv_interleave v)"
proof -
  note eq = ctor_decide_eq [OF assms]
  have "(interleave_result v = NV_GPU_TRANSITION_APPLY \<longleftrightarrow>
      (\<exists>l. settled (policy_interleaves mem slot gpu grp) = Some l \<and> l \<le> 2)) \<and>
    (interleave_result v = NV_GPU_TRANSITION_APPLY \<longrightarrow>
      settled (policy_interleaves mem slot gpu grp) = Some (sv_interleave v))"
  proof (cases "policy_interleaves mem slot gpu grp")
    case Nil
    then show ?thesis using eq by (simp add: validate_scheduler_interleave)
  next
    case (Cons l ls)
    let ?r = "interleave_request decision"
    have "u32_attempted ?r \<and> u32_value ?r = l \<and> (u32_conflict ?r \<longleftrightarrow> (\<exists>w\<in>set ls. w \<noteq> l))"
      using eq rec_u32.fold_fresh [OF _ _ refl, of u32_request_init l ls] Cons by simp
    then show ?thesis using eq Cons by (auto simp: validate_scheduler_interleave list_all_iff not_less)
  qed
  then show "interleave_result v = NV_GPU_TRANSITION_APPLY \<longleftrightarrow>
      (\<exists>l. settled (policy_interleaves mem slot gpu grp) = Some l \<and> l \<le> 2)"
    and "interleave_result v = NV_GPU_TRANSITION_APPLY \<Longrightarrow>
      settled (policy_interleaves mem slot gpu grp) = Some (sv_interleave v)" by blast+
qed

lemma the_group_put [simp]: "the_group (put_group g s) = g"
  by (simp add: the_group_def put_group_def)

lemma the_group_emit [simp]: "the_group (emit e s) = the_group s"
  by (simp add: the_group_def)

lemma apply_timeslice_ok:
  assumes "timeslice_result v = NV_GPU_TRANSITION_APPLY \<Longrightarrow> kfifoRunlistGetMinTimeSlice_HAL \<le> sv_timeslice v"
  shows "\<exists>s'. ctor_apply_timeslice v s = (Fall, s') \<and>
    the_group s' = (if timeslice_result v = NV_GPU_TRANSITION_APPLY
      then (the_group s)\<lparr>timesliceUs := sv_timeslice v\<rparr> else the_group s)"
  using assms
  by (auto simp: ctor_apply_timeslice_def applies_iff kfifoChannelGroupSetTimeslice_def Let_def
      kfifoChannelGroupSetTimesliceSched_def not_le)

lemma set_interleave_ok:
  assumes "v \<le> 2" and "subdev_inst gpu \<in> set (sli_subdevs gpu)"
  shows "\<exists>g. kchangrpSetInterleaveLevel gpu grp v = (NV_OK, g) \<and>
    pInterleaveLevel g (subdev_inst gpu) = v \<and> timesliceUs g = timesliceUs grp"
  using word_le_2_cases [OF assms(1)] assms(2)
  by (auto simp: kchangrpSetInterleaveLevel_def Let_def kchangrpSetInterleaveLevelSched_def fold_upd_const)

lemma apply_interleave_ok:
  assumes "interleave_result v = NV_GPU_TRANSITION_APPLY \<Longrightarrow> sv_interleave v \<le> 2"
    and "subdev_inst gpu \<in> set (sli_subdevs gpu)"
  shows "\<exists>s'. ctor_apply_interleave gpu v s = (Fall, s') \<and> timesliceUs (the_group s') = timesliceUs (the_group s) \<and>
    pInterleaveLevel (the_group s') (subdev_inst gpu) =
      (if interleave_result v = NV_GPU_TRANSITION_APPLY then sv_interleave v
       else pInterleaveLevel (the_group s) (subdev_inst gpu))"
proof (cases "interleave_result v = NV_GPU_TRANSITION_APPLY")
  case True
  obtain g where "kchangrpSetInterleaveLevel gpu (the_group s) (sv_interleave v) = (NV_OK, g)"
      "pInterleaveLevel g (subdev_inst gpu) = sv_interleave v" "timesliceUs g = timesliceUs (the_group s)"
    using set_interleave_ok [OF assms(1) [OF True] assms(2)] by blast
  then show ?thesis using True by (simp add: ctor_apply_interleave_def applies_iff Let_def)
qed (simp add: ctor_apply_interleave_def applies_iff)

lemma policy_effect:
  assumes dec: "ctor_decide mem slot gpu (the_group s) = (d, v)"
    and sub: "subdev_inst gpu \<in> set (sli_subdevs gpu)"
  shows "\<exists>s'. ctor_policy mem slot gpu ps s = (Fall, s') \<and>
    timesliceUs (the_group s') =
      (if timeslice_result v = NV_GPU_TRANSITION_APPLY then sv_timeslice v else timesliceUs (the_group s)) \<and>
    pInterleaveLevel (the_group s') (subdev_inst gpu) =
      (if interleave_result v = NV_GPU_TRANSITION_APPLY then sv_interleave v
       else pInterleaveLevel (the_group s) (subdev_inst gpu))"
proof -
  let ?s0 = "ctor_validated gpu ps d v s"
  have grp: "the_group ?s0 = the_group s" by (simp add: ctor_validated_def Let_def)
  obtain s1 where s1: "ctor_apply_timeslice v ?s0 = (Fall, s1)" "the_group s1 =
      (if timeslice_result v = NV_GPU_TRANSITION_APPLY
         then (the_group s)\<lparr>timesliceUs := sv_timeslice v\<rparr> else the_group s)"
    using apply_timeslice_ok [of v ?s0] decide_timeslice [OF dec] grp by auto
  obtain s2 where s2: "ctor_apply_interleave gpu v s1 = (Fall, s2)"
      "timesliceUs (the_group s2) = timesliceUs (the_group s1)"
      "pInterleaveLevel (the_group s2) (subdev_inst gpu) =
        (if interleave_result v = NV_GPU_TRANSITION_APPLY then sv_interleave v
         else pInterleaveLevel (the_group s1) (subdev_inst gpu))"
    using apply_interleave_ok [of v gpu s1] decide_interleave [OF dec] sub by auto
  show ?thesis
    using dec s1 s2 by (simp add: ctor_policy_def)
qed

lemma exit_replay:
  assumes "replay_trace s" and "ctor_exit n po rm ps b s = Some (st, s')"
  shows "replay_trace s'"
  using failed_replay done_replay assms by (rule ctor_exit_inv [where Q = replay_trace])

text \<open>The whole run replays validated values only.\<close>

lemma construct_replay_trace:
  assumes sub: "subdev_inst (ce_gpu env) \<in> set (sli_subdevs (ce_gpu env))"
    and run: "kchangrpapiConstruct env 2 (ctor_start api) = Some (st, s')"
  shows "replay_trace s'"
proof -
  obtain l s where pro: "ctor_prologue (ce_prologue env) (ce_params env) (ctor_start api) = (l, s)"
    by fastforce
  have quiet: "quiet s" using quiet_prologue [of "ce_prologue env" "ce_params env" api] pro by simp
  show ?thesis
  proof (cases "l = Fall")
    case True
    obtain l1 s1 where tail: "run_stages (tl (ctor_stages env)) s = (l1, s1)" by fastforce
    have "replay_trace s1" using after_prologue_replay [OF quiet tail sub] .
    then show ?thesis
      by (rule exit_replay)
        (use run construct_exit [OF pro [unfolded True] tail] in simp)
  next
    case False
    have "replay_trace s" using quiet by (simp add: quiet_def replay_trace_def)
    then show ?thesis
      using run pro False
      by (auto simp: kchangrpapiConstruct_def ctor_stages_def ctor_finish_def split: ctor_label.splits
          intro: exit_replay)
  qed
qed

subsection \<open>Properties\<close>





lemma engine_1_valid: "RM_ENGINE_TYPE_IS_VALID 1"
  by (simp add: RM_ENGINE_TYPE_IS_VALID_def)

lemma pool_failure_run:
  "\<exists>s'. kchangrpapiConstruct pool_failure_env 2 (ctor_start sample_new_api) = Some (NV_ERR_NO_MEMORY, s')"
  by (simp add: kchangrpapiConstruct_def ctor_stages_def ctor_native_stages_def ctor_finish_def
      ctor_prologue_def ctor_share_def ctor_client_def ctor_engine_type_def ctor_vaspace_def ctor_pools_def
      pool_failure_env_def sample_ctor_env_def ctor_start_def sample_new_api_def sample_api_def sample_gpu_def
      sample_group_def numeral_2_eq_2 ctor_failed_def failed_diagnostic_def failed_rollback_def
      failed_teardown_def ctor_done_def done_unlock_def done_finish_def constructor_return_def Let_def
      the_group_def put_group_def check_ok_def fail_with_def RM_ENGINE_TYPE_IS_GR_def
      engine_1_valid diag_init_def emit_def)


text \<open>
  C5: The firmware is asked for nothing that the validation did not accept: every control command
  that the constructor replays carries the effective timeslice or interleave level of the validated
  decision, for a field whose validation result is to apply it, and all diagnostics of one
  construction report that same decision.
\<close>

theorem construct_replays_validated:
  assumes "subdev_inst (ce_gpu env) \<in> set (sli_subdevs (ce_gpu env))"
  shows "\<exists>st s'. kchangrpapiConstruct env 2 (ctor_start api) = Some (st, s') \<and> replay_trace s'"
  using construct_post [of env api] construct_replay_trace [OF assms] by blast

theorem construct_replays_validated_witness:
  "\<exists>st s'. kchangrpapiConstruct sample_ctor_env 2 (ctor_start sample_new_api) = Some (st, s') \<and> replay_trace s'"
  by (rule construct_replays_validated) (simp add: sample_ctor_env_def sample_gpu_def)

text \<open>
  C2: The policy stage of the constructor never fails, and the timeslice and the interleave level of
  the new group are then the values that all requests of the policy agree on, if there are requests
  for the field and the value is legal, and the native values otherwise.
\<close>

theorem task_init_policy_sound:
  assumes "subdev_inst gpu \<in> set (sli_subdevs gpu)"
  shows "\<exists>s'. ctor_policy mem slot gpu ps s = (Fall, s') \<and>
    timesliceUs (the_group s') =
      (case settled (policy_timeslices mem slot gpu (the_group s)) of
         Some t \<Rightarrow> if kfifoRunlistGetMinTimeSlice_HAL \<le> t then t else timesliceUs (the_group s)
       | None \<Rightarrow> timesliceUs (the_group s)) \<and>
    pInterleaveLevel (the_group s') (subdev_inst gpu) =
      (case settled (policy_interleaves mem slot gpu (the_group s)) of
         Some l \<Rightarrow> if l \<le> 2 then l else pInterleaveLevel (the_group s) (subdev_inst gpu)
       | None \<Rightarrow> pInterleaveLevel (the_group s) (subdev_inst gpu))"
proof -
  obtain d v where dec: "ctor_decide mem slot gpu (the_group s) = (d, v)" by fastforce
  note ts = decide_timeslice [OF dec] and il = decide_interleave [OF dec]
  obtain s' where s': "ctor_policy mem slot gpu ps s = (Fall, s')" "timesliceUs (the_group s') =
      (if timeslice_result v = NV_GPU_TRANSITION_APPLY then sv_timeslice v else timesliceUs (the_group s))"
    "pInterleaveLevel (the_group s') (subdev_inst gpu) =
      (if interleave_result v = NV_GPU_TRANSITION_APPLY then sv_interleave v
       else pInterleaveLevel (the_group s) (subdev_inst gpu))"
    using policy_effect [OF dec assms] by blast
  have "timesliceUs (the_group s') =
      (case settled (policy_timeslices mem slot gpu (the_group s)) of
         Some t \<Rightarrow> if kfifoRunlistGetMinTimeSlice_HAL \<le> t then t else timesliceUs (the_group s)
       | None \<Rightarrow> timesliceUs (the_group s))"
    using s'(2) ts by (cases "timeslice_result v = NV_GPU_TRANSITION_APPLY") (auto split: option.split)
  moreover have "pInterleaveLevel (the_group s') (subdev_inst gpu) =
      (case settled (policy_interleaves mem slot gpu (the_group s)) of
         Some l \<Rightarrow> if l \<le> 2 then l else pInterleaveLevel (the_group s) (subdev_inst gpu)
       | None \<Rightarrow> pInterleaveLevel (the_group s) (subdev_inst gpu))"
    using s'(3) il by (cases "interleave_result v = NV_GPU_TRANSITION_APPLY") (auto split: option.split)
  ultimately show ?thesis using s'(1) by blast
qed

theorem task_init_policy_sound_witness:
  "\<exists>s'. ctor_policy (\<lambda>p. sample_init_ops) (Some 1) sample_gpu (ce_params sample_ctor_env)
      (put_group sample_group (ctor_start sample_new_api)) = (Fall, s') \<and>
    timesliceUs (the_group s') = 5000 \<and> pInterleaveLevel (the_group s') 0 = 2"
proof -
  let ?s = "put_group sample_group (ctor_start sample_new_api)"
  have "subdev_inst sample_gpu \<in> set (sli_subdevs sample_gpu)" by (simp add: sample_gpu_def)
  note r = task_init_policy_sound [OF this, of "\<lambda>p. sample_init_ops" "Some 1" "ce_params sample_ctor_env" ?s]
  have "policy_timeslices (\<lambda>p. sample_init_ops) (Some 1) sample_gpu sample_group = [5000, 5000]"
    by (simp add: policy_timeslices_def sample_init_ops_def sample_ops_def)
  moreover have "policy_interleaves (\<lambda>p. sample_init_ops) (Some 1) sample_gpu sample_group = [2]"
    by (simp add: policy_interleaves_def sample_init_ops_def sample_ops_def)
  moreover have "subdev_inst sample_gpu = 0" by (simp add: sample_gpu_def)
  ultimately show ?thesis using r
    by (simp only: the_group_put settled.simps list.pred_inject option.case if_True order.refl
        kfifoRunlistGetMinTimeSlice_HAL_def word_zero_le simp_thms)
qed

end
