(* ===== verification/Gpreempt.thy ===== *)
theory Gpreempt
  imports Channel_Group
begin

section \<open>The preemption transport\<close>

text \<open>
  The endpoint \<^verbatim>\<open>NV_ESC_RM_QUERY_GROUP\<close> of \<^verbatim>\<open>escape.c\<close> with
  the decisions of \<^verbatim>\<open>nv-gpreempt-transport.h\<close>: a caller finds the one graphics channel
  group that a thread of its own process created, or sets one of two timeslices on a group of its own.

  The resource server is its list of clients, each with its references to channel groups in iteration order; a
  reference has its handle, the object it casts to (\<open>None\<close> when the cast fails), the GPU of the
  object and the handles of the channels below it. The two handle arrays of the reply are lists of fixed
  length that are written by index. Every lock operation, remote control and copy to the user is an event.
\<close>

subsection \<open>Decisions\<close>

datatype nv_gpreempt_operation =
  NV_GPREEMPT_INVALID | NV_GPREEMPT_QUERY | NV_GPREEMPT_SET_TIMESLICE

abbreviation (input) NV_GPREEMPT_V1_SET_TIMESLICE :: NvU32 where
  "NV_GPREEMPT_V1_SET_TIMESLICE \<equiv> 0x00010001"

abbreviation (input) NV_GPREEMPT_SET_TIMESLICE_CMD :: NvU32 where
  "NV_GPREEMPT_SET_TIMESLICE_CMD \<equiv> 0xa06c0103"

abbreviation (input) NV_GPREEMPT_MAX_CHANNELS :: NvU32 where
  "NV_GPREEMPT_MAX_CHANNELS \<equiv> 64"

definition gpreempt_operation ::
  "NvU32 \<Rightarrow> NvU32 \<Rightarrow> NvU32 \<Rightarrow> NvU32 \<Rightarrow> bool \<Rightarrow> NvU32 \<Rightarrow> NvU32 \<Rightarrow> nv_gpreempt_operation" where
  "gpreempt_operation flags cmd hClient hObject hasParams paramsSize channelsSize =
     (if hClient = 0 \<or> \<not> hasParams then NV_GPREEMPT_INVALID
      else if flags = 0 \<and> cmd = 0 \<and> hObject = 0 \<and> paramsSize = channelsSize then NV_GPREEMPT_QUERY
      else if flags = NV_GPREEMPT_V1_SET_TIMESLICE \<and> cmd = NV_GPREEMPT_SET_TIMESLICE_CMD \<and>
              hObject \<noteq> 0 \<and> paramsSize = 8
        then NV_GPREEMPT_SET_TIMESLICE
      else NV_GPREEMPT_INVALID)"

definition nv_gpreempt_owned_user :: "NvU64 \<Rightarrow> NvU64 \<Rightarrow> bool \<Rightarrow> bool" where
  "nv_gpreempt_owned_user currentPidInfo ownerPidInfo isUserClient \<longleftrightarrow>
     isUserClient \<and> currentPidInfo \<noteq> 0 \<and> currentPidInfo = ownerPidInfo"

definition nv_gpreempt_timeslice_allowed :: "NvU64 \<Rightarrow> bool" where
  "nv_gpreempt_timeslice_allowed v \<longleftrightarrow> v = 1 \<or> v = 1000000"

definition nv_gpreempt_channel_slot_available :: "NvU32 \<Rightarrow> bool" where
  "nv_gpreempt_channel_slot_available n \<longleftrightarrow> n < NV_GPREEMPT_MAX_CHANNELS"

definition nv_gpreempt_add_unique_match :: "NvU32 \<Rightarrow> bool \<times> NvU32" where
  "nv_gpreempt_add_unique_match matches = (if matches \<noteq> 0 then (False, 2) else (True, 1))"

definition nv_gpreempt_query_complete :: "NvU32 \<Rightarrow> NvU32 \<Rightarrow> bool" where
  "nv_gpreempt_query_complete matches channels \<longleftrightarrow>
     matches = 1 \<and> channels > 0 \<and> channels \<le> NV_GPREEMPT_MAX_CHANNELS"

subsection \<open>The parameter blocks and the resource server\<close>

record NVOS54_PARAMETERS =
  os54_hClient :: NvHandle
  os54_hObject :: NvHandle
  os54_cmd :: NvU32
  os54_params :: NvU64
  os54_paramsSize :: NvU32
  os54_flags :: NvU32

record disable_channels_params =
  numChannels :: NvU32
  hClientList :: "NvHandle list"
  hChannelList :: "NvHandle list"

definition disable_channels_zero :: disable_channels_params where
  "disable_channels_zero =
     \<lparr>numChannels = 0, hClientList = replicate 64 0, hChannelList = replicate 64 0\<rparr>"

text \<open>The size of the reply: a flag, the count and two flags (twelve bytes), four of padding, a pointer and two arrays.\<close>

definition sizeof_channels :: NvU32 where
  "sizeof_channels = 3 * 4 + 4 + 8 + 2 * (64 * 4)"

record tsg_ref =
  ref_hResource :: NvHandle
  ref_api :: "KernelChannelGroupApi option"
  ref_gpu :: OBJGPU
  ref_channels :: "NvHandle list"

record RmClient =
  rc_hClient :: NvHandle
  rc_pOsPidInfo :: NvU64
  rc_user :: bool
  rc_groups :: "tsg_ref list"

datatype gp_event =
    Gp_Thread_Init | Gp_Thread_Free | Gp_Pid_Put
  | Gp_Api_Lock | Gp_Api_Unlock | Gp_Gpu_Lock | Gp_Gpu_Unlock
  | Gp_Control NvHandle NvHandle NvU32 NvU64
  | Gp_Copy_Out NvU64 disable_channels_params

record gp_state =
  gp_matches :: NvU32
  gp_selectedClient :: NvHandle
  gp_selectedObject :: NvHandle
  gp_channels :: disable_channels_params
  gp_trace :: "gp_event list"

record gp_env =
  ge_copy_from_user :: "NvU64 \<Rightarrow> NV_STATUS \<times> NvU64"
  ge_copy_to_user :: NV_STATUS
  ge_pid_info :: NvU64
  ge_api_lock :: NV_STATUS
  ge_gpu_lock :: NV_STATUS
  ge_clients :: "RmClient list"
  ge_control :: "NvHandle \<Rightarrow> NvHandle \<Rightarrow> NvU64 \<Rightarrow> NV_STATUS"

definition gp_start :: gp_state where
  "gp_start = \<lparr>gp_matches = 0, gp_selectedClient = 0, gp_selectedObject = 0,
     gp_channels = disable_channels_zero, gp_trace = []\<rparr>"

definition gp_emit :: "gp_event \<Rightarrow> gp_state \<Rightarrow> gp_state" where
  "gp_emit e s = s\<lparr>gp_trace := gp_trace s @ [e]\<rparr>"

subsection \<open>The search\<close>

text \<open>
  The loops leave the search early with a status; \<open>None\<close> continues. The group of a reference is the
  one that passes the test on the engine type.
\<close>

definition add_channel :: "NvHandle \<Rightarrow> gp_state \<Rightarrow> NV_STATUS option \<times> gp_state" where
  "add_channel h s =
     (let slot = numChannels (gp_channels s)
      in if \<not> nv_gpreempt_channel_slot_available slot then (Some NV_ERR_BUFFER_TOO_SMALL, s)
         else (None, s\<lparr>gp_channels := (gp_channels s)
                 \<lparr>hClientList := (hClientList (gp_channels s))[unat slot := gp_selectedClient s],
                  hChannelList := (hChannelList (gp_channels s))[unat slot := h],
                  numChannels := slot + 1\<rparr>\<rparr>))"

definition gr_group :: "tsg_ref \<Rightarrow> KernelChannelGroupApi option" where
  "gr_group ref =
     (case ref_api ref of
        None \<Rightarrow> None
      | Some api \<Rightarrow>
          (case api_group api of
             None \<Rightarrow> None
           | Some grp \<Rightarrow> if RM_ENGINE_TYPE_IS_GR (engineType grp) then Some api else None))"

definition query_group ::
  "NvHandle \<Rightarrow> NvHandle \<Rightarrow> tsg_ref \<Rightarrow> KernelChannelGroupApi \<Rightarrow> gp_state \<Rightarrow> NV_STATUS option \<times> gp_state" where
  "query_group requestedClient hClient ref api s =
     (if gpreemptCreatorThreadId api \<noteq> ucast requestedClient then (None, s)
      else
        (case nv_gpreempt_add_unique_match (gp_matches s) of (unique, matches) \<Rightarrow>
           let s = s\<lparr>gp_matches := matches\<rparr>
           in if \<not> unique then (Some NV_ERR_INVALID_STATE, s)
              else fold_exit add_channel (ref_channels ref)
                     (s\<lparr>gp_selectedClient := hClient, gp_selectedObject := ref_hResource ref\<rparr>)))"

definition set_group ::
  "gp_env \<Rightarrow> NvHandle \<Rightarrow> NvHandle \<Rightarrow> NvU64 \<Rightarrow> tsg_ref \<Rightarrow> gp_state \<Rightarrow> NV_STATUS option \<times> gp_state" where
  "set_group env requestedClient requestedObject timeslice ref s =
     (if ref_hResource ref \<noteq> requestedObject then (None, s)
      else if \<not> is_gsp_client (ref_gpu ref) then (Some NV_ERR_NOT_SUPPORTED, s)
      else (Some (ge_control env requestedClient requestedObject timeslice),
            gp_emit (Gp_Control requestedClient requestedObject NVA06C_CTRL_CMD_SET_TIMESLICE timeslice) s))"

definition visit_group ::
  "gp_env \<Rightarrow> nv_gpreempt_operation \<Rightarrow> NvHandle \<Rightarrow> NvHandle \<Rightarrow> NvU64 \<Rightarrow> NvHandle \<Rightarrow> tsg_ref \<Rightarrow>
     gp_state \<Rightarrow> NV_STATUS option \<times> gp_state" where
  "visit_group env operation requestedClient requestedObject timeslice hClient ref s =
     (case gr_group ref of
        None \<Rightarrow> (None, s)
      | Some api \<Rightarrow>
          if operation = NV_GPREEMPT_SET_TIMESLICE
            then set_group env requestedClient requestedObject timeslice ref s
          else query_group requestedClient hClient ref api s)"

definition visit_client ::
  "gp_env \<Rightarrow> nv_gpreempt_operation \<Rightarrow> NvHandle \<Rightarrow> NvHandle \<Rightarrow> NvU64 \<Rightarrow> RmClient \<Rightarrow>
     gp_state \<Rightarrow> NV_STATUS option \<times> gp_state" where
  "visit_client env operation requestedClient requestedObject timeslice client s =
     (if \<not> nv_gpreempt_owned_user (ge_pid_info env) (rc_pOsPidInfo client) (rc_user client) then (None, s)
      else if operation = NV_GPREEMPT_SET_TIMESLICE \<and> rc_hClient client \<noteq> requestedClient then (None, s)
      else fold_exit
             (visit_group env operation requestedClient requestedObject timeslice (rc_hClient client))
             (rc_groups client) s)"

definition gp_search ::
  "gp_env \<Rightarrow> nv_gpreempt_operation \<Rightarrow> NvHandle \<Rightarrow> NvHandle \<Rightarrow> NvU64 \<Rightarrow> gp_state \<Rightarrow> NV_STATUS \<times> gp_state" where
  "gp_search env operation requestedClient requestedObject timeslice s =
     (case fold_exit (visit_client env operation requestedClient requestedObject timeslice)
             (ge_clients env) s of
        (Some status, s) \<Rightarrow> (status, s)
      | (None, s) \<Rightarrow>
          (if operation = NV_GPREEMPT_QUERY \<and>
              nv_gpreempt_query_complete (gp_matches s) (numChannels (gp_channels s))
             then NV_OK else NV_ERR_OBJECT_NOT_FOUND, s))"

subsection \<open>The transport\<close>

definition gp_locked ::
  "gp_env \<Rightarrow> nv_gpreempt_operation \<Rightarrow> NvHandle \<Rightarrow> NvHandle \<Rightarrow> NvU64 \<Rightarrow> NV_STATUS \<times> gp_state" where
  "gp_locked env operation requestedClient requestedObject timeslice =
     (let s = gp_emit Gp_Thread_Init gp_start;
          finish = (\<lambda>s. gp_emit Gp_Pid_Put (gp_emit Gp_Thread_Free s))
      in if ge_api_lock env \<noteq> NV_OK then (ge_api_lock env, finish s)
         else
           (let s = gp_emit Gp_Api_Lock s
            in if ge_gpu_lock env \<noteq> NV_OK then (ge_gpu_lock env, finish (gp_emit Gp_Api_Unlock s))
               else
                 (case gp_search env operation requestedClient requestedObject timeslice
                         (gp_emit Gp_Gpu_Lock s) of
                    (status, s) \<Rightarrow> (status, finish (gp_emit Gp_Api_Unlock (gp_emit Gp_Gpu_Unlock s))))))"

definition gp_read_timeslice ::
  "gp_env \<Rightarrow> nv_gpreempt_operation \<Rightarrow> NvU64 \<Rightarrow> NV_STATUS + NvU64" where
  "gp_read_timeslice env operation params =
     (if operation = NV_GPREEMPT_SET_TIMESLICE then
        (case ge_copy_from_user env params of (status, timeslice) \<Rightarrow>
           if status \<noteq> NV_OK then Inl status
           else if \<not> nv_gpreempt_timeslice_allowed timeslice then Inl NV_ERR_INVALID_ARGUMENT
           else Inr timeslice)
      else Inr 0)"

definition gp_copy_out ::
  "gp_env \<Rightarrow> nv_gpreempt_operation \<Rightarrow> NVOS54_PARAMETERS \<Rightarrow> NV_STATUS \<times> gp_state \<Rightarrow>
     NV_STATUS \<times> NVOS54_PARAMETERS \<times> gp_event list" where
  "gp_copy_out env operation api = (\<lambda>(status, s).
     (if status = NV_OK \<and> operation = NV_GPREEMPT_QUERY then
        (let s = gp_emit (Gp_Copy_Out (os54_params api) (gp_channels s)) s
         in (ge_copy_to_user env,
             if ge_copy_to_user env = NV_OK
               then api\<lparr>os54_hClient := gp_selectedClient s, os54_hObject := gp_selectedObject s\<rparr>
             else api,
             gp_trace s))
      else (status, api, gp_trace s)))"

definition RmGPreemptTransport ::
  "gp_env \<Rightarrow> NVOS54_PARAMETERS \<Rightarrow> NV_STATUS \<times> NVOS54_PARAMETERS \<times> gp_event list" where
  "RmGPreemptTransport env api =
     (let requestedClient = os54_hClient api; requestedObject = os54_hObject api;
          operation = gpreempt_operation (os54_flags api) (os54_cmd api) requestedClient requestedObject
                        (os54_params api \<noteq> 0) (os54_paramsSize api) sizeof_channels;
          api = (if os54_flags api = 0 then api\<lparr>os54_hClient := 0, os54_hObject := 0\<rparr> else api)
      in if operation = NV_GPREEMPT_INVALID then (NV_ERR_INVALID_ARGUMENT, api, [])
         else
           (case gp_read_timeslice env operation (os54_params api) of
              Inl status \<Rightarrow> (status, api, [])
            | Inr timeslice \<Rightarrow>
                if ge_pid_info env = 0 then (NV_ERR_INSUFFICIENT_PERMISSIONS, api, [])
                else gp_copy_out env operation api
                       (gp_locked env operation requestedClient requestedObject timeslice)))"

text \<open>
  The case of the escape dispatcher: the status of the call itself, and the status and contents of
  the parameter block.
\<close>

definition rm_query_group ::
  "gp_env \<Rightarrow> nat \<Rightarrow> bool \<Rightarrow> NV_STATUS \<times> NVOS54_PARAMETERS \<Rightarrow>
     NV_STATUS \<times> (NV_STATUS \<times> NVOS54_PARAMETERS) \<times> gp_event list" where
  "rm_query_group env dataSize is_control block =
     (if dataSize \<noteq> 32 then (NV_ERR_INVALID_ARGUMENT, block, [])
      else if \<not> is_control then (NV_ERR_INVALID_ARGUMENT, (NV_ERR_INVALID_ARGUMENT, snd block), [])
      else
        (case RmGPreemptTransport env (snd block) of (status, api, tr) \<Rightarrow>
           (NV_OK, (status, api), tr)))"

subsection \<open>What a query means\<close>

text \<open>
  The channel groups that a query for a thread has to choose from: the graphics groups which that
  thread created, below the user clients of the caller's process.
\<close>

definition tsgs_of :: "NvU64 \<Rightarrow> NvHandle \<Rightarrow> RmClient \<Rightarrow> (NvHandle \<times> tsg_ref) list" where
  "tsgs_of pid tid client =
     (if nv_gpreempt_owned_user pid (rc_pOsPidInfo client) (rc_user client)
        then map (Pair (rc_hClient client))
               (filter (\<lambda>ref. case gr_group ref of
                          None \<Rightarrow> False
                        | Some api \<Rightarrow> gpreemptCreatorThreadId api = ucast tid) (rc_groups client))
      else [])"

definition owned_tsgs :: "gp_env \<Rightarrow> NvHandle \<Rightarrow> (NvHandle \<times> tsg_ref) list" where
  "owned_tsgs env tid = concat (map (tsgs_of (ge_pid_info env) tid) (ge_clients env))"

definition query_status :: "(NvHandle \<times> tsg_ref) list \<Rightarrow> NV_STATUS" where
  "query_status tsgs =
     (case tsgs of
        [] \<Rightarrow> NV_ERR_OBJECT_NOT_FOUND
      | (h, ref) # rest \<Rightarrow>
          if length (ref_channels ref) > 64 then NV_ERR_BUFFER_TOO_SMALL
          else if rest \<noteq> [] then NV_ERR_INVALID_STATE
          else if ref_channels ref = [] then NV_ERR_OBJECT_NOT_FOUND
          else NV_OK)"

text \<open>The reply that lists the channels \<open>hs\<close> of the client \<open>c\<close>.\<close>

definition channels_reply :: "NvHandle \<Rightarrow> NvHandle list \<Rightarrow> disable_channels_params" where
  "channels_reply c hs =
     \<lparr>numChannels = of_nat (length hs),
      hClientList = replicate (length hs) c @ replicate (64 - length hs) 0,
      hChannelList = hs @ replicate (64 - length hs) 0\<rparr>"

text \<open>
  The channel groups that a write may go to: the graphics groups with the requested handle below the
  caller's own user clients with the requested handle. The first of them decides.
\<close>

definition targets_of :: "NvU64 \<Rightarrow> NvHandle \<Rightarrow> NvHandle \<Rightarrow> RmClient \<Rightarrow> tsg_ref list" where
  "targets_of pid hClient hObject client =
     (if nv_gpreempt_owned_user pid (rc_pOsPidInfo client) (rc_user client) \<and> rc_hClient client = hClient
        then filter (\<lambda>ref. gr_group ref \<noteq> None \<and> ref_hResource ref = hObject) (rc_groups client)
      else [])"

definition target_tsgs :: "gp_env \<Rightarrow> NvHandle \<Rightarrow> NvHandle \<Rightarrow> tsg_ref list" where
  "target_tsgs env hClient hObject = concat (map (targets_of (ge_pid_info env) hClient hObject) (ge_clients env))"

definition set_answer :: "gp_env \<Rightarrow> NvHandle \<Rightarrow> NvHandle \<Rightarrow> NvU64 \<Rightarrow> NV_STATUS \<times> gp_event list" where
  "set_answer env hClient hObject ts =
     (case target_tsgs env hClient hObject of
        [] \<Rightarrow> (NV_ERR_OBJECT_NOT_FOUND, [])
      | ref # _ \<Rightarrow>
          if is_gsp_client (ref_gpu ref)
            then (ge_control env hClient hObject ts,
                  [Gp_Control hClient hObject NVA06C_CTRL_CMD_SET_TIMESLICE ts])
          else (NV_ERR_NOT_SUPPORTED, []))"

text \<open>
  The order of the events: nested locks, at most one control inside them, and the copy to the user
  after everything was released.
\<close>

definition gp_search_trace :: "gp_event list \<Rightarrow> gp_event list \<Rightarrow> gp_event list" where
  "gp_search_trace controls copies =
     [Gp_Thread_Init, Gp_Api_Lock, Gp_Gpu_Lock] @ controls @
     [Gp_Gpu_Unlock, Gp_Api_Unlock, Gp_Thread_Free, Gp_Pid_Put] @ copies"

fun is_control_event :: "gp_event \<Rightarrow> bool" where
  "is_control_event (Gp_Control hClient hObject cmd ts) = True"
| "is_control_event _ = False"

fun is_copy_event :: "gp_event \<Rightarrow> bool" where
  "is_copy_event (Gp_Copy_Out p chans) = True"
| "is_copy_event _ = False"

definition gp_trace_ok :: "gp_event list \<Rightarrow> bool" where
  "gp_trace_ok tr \<longleftrightarrow>
     tr = [] \<or> tr = [Gp_Thread_Init, Gp_Thread_Free, Gp_Pid_Put] \<or>
     tr = [Gp_Thread_Init, Gp_Api_Lock, Gp_Api_Unlock, Gp_Thread_Free, Gp_Pid_Put] \<or>
     (\<exists>cs os. tr = gp_search_trace cs os \<and> length cs \<le> 1 \<and> length os \<le> 1 \<and>
        list_all is_control_event cs \<and> list_all is_copy_event os)"

text \<open>One step of a query: an owned group of the thread.\<close>

definition query_step :: "NvHandle \<times> tsg_ref \<Rightarrow> gp_state \<Rightarrow> NV_STATUS option \<times> gp_state" where
  "query_step = (\<lambda>(hClient, ref) s.
     (case nv_gpreempt_add_unique_match (gp_matches s) of (unique, matches) \<Rightarrow>
        let s = s\<lparr>gp_matches := matches\<rparr>
        in if \<not> unique then (Some NV_ERR_INVALID_STATE, s)
           else fold_exit add_channel (ref_channels ref)
                  (s\<lparr>gp_selectedClient := hClient, gp_selectedObject := ref_hResource ref\<rparr>)))"

definition gp_fresh :: "gp_state \<Rightarrow> bool" where
  "gp_fresh s \<longleftrightarrow> gp_matches s = 0 \<and> gp_channels s = disable_channels_zero"

text \<open>A server with two clients of the caller's process and one of another.\<close>

definition sample_tsg :: "NvHandle \<Rightarrow> NvU64 \<Rightarrow> NvHandle list \<Rightarrow> tsg_ref" where
  "sample_tsg h tid chans =
     \<lparr>ref_hResource = h, ref_api = Some (sample_api\<lparr>gpreemptCreatorThreadId := tid\<rparr>),
      ref_gpu = sample_gpu, ref_channels = chans\<rparr>"

definition sample_gp_env :: gp_env where
  "sample_gp_env =
     \<lparr>ge_copy_from_user = \<lambda>p. (NV_OK, 1000000), ge_copy_to_user = NV_OK, ge_pid_info = 0x10,
      ge_api_lock = NV_OK, ge_gpu_lock = NV_OK,
      ge_clients =
        [\<lparr>rc_hClient = 0xc1, rc_pOsPidInfo = 0x10, rc_user = True,
          rc_groups = [sample_tsg 0xa1 41 [5], sample_tsg 0xa2 42 [6, 7]]\<rparr>,
         \<lparr>rc_hClient = 0xc2, rc_pOsPidInfo = 0x20, rc_user = True, rc_groups = [sample_tsg 0xa3 42 [8]]\<rparr>,
         \<lparr>rc_hClient = 0xc3, rc_pOsPidInfo = 0x10, rc_user = True, rc_groups = []\<rparr>],
      ge_control = \<lambda>c t v. NV_OK\<rparr>"

definition sample_query :: NVOS54_PARAMETERS where
  "sample_query = \<lparr>os54_hClient = 42, os54_hObject = 0, os54_cmd = 0, os54_params = 0x7000,
     os54_paramsSize = 536, os54_flags = 0\<rparr>"

definition sample_set :: NVOS54_PARAMETERS where
  "sample_set = \<lparr>os54_hClient = 0xc1, os54_hObject = 0xa1, os54_cmd = 0xa06c0103, os54_params = 0x7000,
     os54_paramsSize = 8, os54_flags = 0x10001\<rparr>"

subsection \<open>Lemmas\<close>

lemma gp_emit_frame [simp]:
  "gp_matches (gp_emit e s) = gp_matches s" "gp_channels (gp_emit e s) = gp_channels s"
  "gp_selectedClient (gp_emit e s) = gp_selectedClient s"
  "gp_selectedObject (gp_emit e s) = gp_selectedObject s"
  "gp_trace (gp_emit e s) = gp_trace s @ [e]"
  by (simp_all add: gp_emit_def)

lemma reply_Nil: "channels_reply c [] = disable_channels_zero"
  by (simp add: channels_reply_def disable_channels_zero_def)

lemma reply_slot:
  "length hs \<le> 64 \<Longrightarrow> unat (numChannels (channels_reply c hs)) = length hs"
  "length hs \<le> 64 \<Longrightarrow> nv_gpreempt_channel_slot_available (numChannels (channels_reply c hs)) \<longleftrightarrow> length hs < 64"
  by (simp_all add: channels_reply_def nv_gpreempt_channel_slot_available_def word_less_nat_alt
      unat_of_nat take_bit_nat_eq_self)

text \<open>The arrays are written in order, and never beyond their end.\<close>

lemma add_channel_reply:
  assumes "gp_channels s = channels_reply (gp_selectedClient s) hs" and "length hs \<le> 64"
  shows "add_channel h s =
    (if length hs < 64
       then (None, s\<lparr>gp_channels := channels_reply (gp_selectedClient s) (hs @ [h])\<rparr>)
     else (Some NV_ERR_BUFFER_TOO_SMALL, s))"
proof (cases "length hs < 64")
  case True
  have "64 - length hs = Suc (63 - length hs)" using True by simp
  then have "(channels_reply c hs)
      \<lparr>hClientList := (hClientList (channels_reply c hs))[length hs := c],
       hChannelList := (hChannelList (channels_reply c hs))[length hs := h],
       numChannels := numChannels (channels_reply c hs) + 1\<rparr> = channels_reply c (hs @ [h])" for c
    by (simp add: channels_reply_def list_update_append replicate_app_Cons_same)
  then show ?thesis using assms True by (simp add: add_channel_def reply_slot)
next
  case False
  then show ?thesis using assms by (simp add: add_channel_def reply_slot)
qed

lemma add_channels_reply:
  assumes "gp_channels s = channels_reply (gp_selectedClient s) hs" and "length hs \<le> 64"
  shows "if length hs + length ks \<le> 64
    then fold_exit add_channel ks s =
      (None, s\<lparr>gp_channels := channels_reply (gp_selectedClient s) (hs @ ks)\<rparr>)
    else \<exists>s'. fold_exit add_channel ks s = (Some NV_ERR_BUFFER_TOO_SMALL, s') \<and> gp_trace s' = gp_trace s"
  using assms
proof (induction ks arbitrary: s hs)
  case Nil
  then show ?case by simp
next
  case (Cons k ks)
  show ?case
  proof (cases "length hs < 64")
    case True
    let ?s = "s\<lparr>gp_channels := channels_reply (gp_selectedClient s) (hs @ [k])\<rparr>"
    have "add_channel k s = (None, ?s)" using add_channel_reply [OF Cons.prems, of k] True by simp
    then show ?thesis using Cons.IH [of ?s "hs @ [k]"] True by auto
  next
    case False
    then show ?thesis using Cons.prems add_channel_reply [OF Cons.prems, of k] by simp
  qed
qed

text \<open>A query is a loop over the owned groups of the thread.\<close>

lemma visit_group_query:
  "visit_group env NV_GPREEMPT_QUERY tid hObject ts h ref s =
     (if case gr_group ref of None \<Rightarrow> False | Some api \<Rightarrow> gpreemptCreatorThreadId api = ucast tid
        then query_step (h, ref) s else (None, s))"
  by (auto simp: visit_group_def query_group_def query_step_def split: option.splits)

lemma visit_client_query:
  "visit_client env NV_GPREEMPT_QUERY tid hObject ts client s =
     fold_exit query_step (tsgs_of (ge_pid_info env) tid client) s"
proof -
  let ?P = "\<lambda>ref. case gr_group ref of None \<Rightarrow> False | Some api \<Rightarrow> gpreemptCreatorThreadId api = ucast tid"
  have "fold_exit (visit_group env NV_GPREEMPT_QUERY tid hObject ts (rc_hClient client)) (rc_groups client) s =
      fold_exit (visit_group env NV_GPREEMPT_QUERY tid hObject ts (rc_hClient client))
        (filter ?P (rc_groups client)) s"
    by (rule fold_exit_filter) (simp add: visit_group_query)
  also have "\<dots> = fold_exit (query_step \<circ> Pair (rc_hClient client)) (filter ?P (rc_groups client)) s"
    by (rule fold_exit_cong) (simp add: visit_group_query)
  finally show ?thesis
    by (simp add: visit_client_def tsgs_of_def fold_exit_map)
qed

lemma query_loop:
  "fold_exit (visit_client env NV_GPREEMPT_QUERY tid hObject ts) (ge_clients env) s =
     fold_exit query_step (owned_tsgs env tid) s"
  unfolding owned_tsgs_def by (rule fold_exit_concat) (simp add: visit_client_query)

text \<open>What the search answers, on a fresh state.\<close>

lemma query_search:
  assumes "gp_fresh s"
  shows "case gp_search env NV_GPREEMPT_QUERY tid hObject ts s of (status, s') \<Rightarrow>
    status = query_status (owned_tsgs env tid) \<and> gp_trace s' = gp_trace s \<and>
    (status = NV_OK \<longrightarrow> (\<exists>h ref. owned_tsgs env tid = [(h, ref)] \<and> gp_selectedClient s' = h \<and>
       gp_selectedObject s' = ref_hResource ref \<and> gp_channels s' = channels_reply h (ref_channels ref)))"
proof (cases "owned_tsgs env tid")
  case Nil
  then show ?thesis using assms
    by (simp add: gp_search_def query_loop query_status_def nv_gpreempt_query_complete_def gp_fresh_def)
next
  case (Cons t rest)
  obtain h ref where t: "t = (h, ref)" by fastforce
  let ?s = "s\<lparr>gp_matches := 1, gp_selectedClient := h, gp_selectedObject := ref_hResource ref\<rparr>"
  let ?s1 = "?s\<lparr>gp_channels := channels_reply h (ref_channels ref)\<rparr>"
  have step: "query_step t s = fold_exit add_channel (ref_channels ref) ?s"
    using assms by (simp add: query_step_def t nv_gpreempt_add_unique_match_def gp_fresh_def)
  note adds = add_channels_reply [of ?s "[]" "ref_channels ref", simplified reply_Nil]
  show ?thesis
  proof (cases "length (ref_channels ref) \<le> 64")
    case False
    then show ?thesis using adds assms Cons t step
      by (auto simp: gp_search_def query_loop query_status_def gp_fresh_def)
  next
    case True
    then have one: "query_step t s = (None, ?s1)" using adds assms step by (simp add: gp_fresh_def)
    show ?thesis
    proof (cases rest)
      case Nil
      have "numChannels (channels_reply h (ref_channels ref)) > 0 \<longleftrightarrow> ref_channels ref \<noteq> []"
        "numChannels (channels_reply h (ref_channels ref)) \<le> 64"
        using reply_slot(1) [OF True, of h] True
        by (simp_all add: word_less_nat_alt word_le_nat_alt)
      then show ?thesis using Cons Nil one t True
        by (auto simp: gp_search_def query_loop query_status_def nv_gpreempt_query_complete_def)
    next
      case (Cons t2 rest2)
      have "query_step t2 ?s1 = (Some NV_ERR_INVALID_STATE, ?s1\<lparr>gp_matches := 2\<rparr>)"
        by (simp add: query_step_def nv_gpreempt_add_unique_match_def split: prod.split)
      then show ?thesis using \<open>owned_tsgs env tid = t # rest\<close> Cons one t True
        by (simp add: gp_search_def query_loop query_status_def)
    qed
  qed
qed

text \<open>A write is decided by the first group that it may go to.\<close>

lemma visit_group_set:
  "visit_group env NV_GPREEMPT_SET_TIMESLICE rc ro ts h ref s =
     (if gr_group ref \<noteq> None \<and> ref_hResource ref = ro then set_group env rc ro ts ref s else (None, s))"
  by (cases "gr_group ref") (simp_all add: visit_group_def set_group_def)

lemma visit_client_set:
  "visit_client env NV_GPREEMPT_SET_TIMESLICE rc ro ts client s =
     fold_exit (set_group env rc ro ts) (targets_of (ge_pid_info env) rc ro client) s"
proof -
  let ?f = "visit_group env NV_GPREEMPT_SET_TIMESLICE rc ro ts (rc_hClient client)"
  let ?P = "\<lambda>ref. gr_group ref \<noteq> None \<and> ref_hResource ref = ro"
  have "fold_exit ?f (rc_groups client) s = fold_exit ?f (filter ?P (rc_groups client)) s"
    by (rule fold_exit_filter) (auto simp: visit_group_set)
  also have "\<dots> = fold_exit (set_group env rc ro ts) (filter ?P (rc_groups client)) s"
    by (rule fold_exit_cong) (simp only: visit_group_set set_filter mem_Collect_eq if_True simp_thms)
  finally show ?thesis
    by (cases "rc_hClient client = rc") (simp_all add: visit_client_def targets_of_def)
qed

lemma set_loop:
  "fold_exit (visit_client env NV_GPREEMPT_SET_TIMESLICE rc ro ts) (ge_clients env) s =
     fold_exit (set_group env rc ro ts) (target_tsgs env rc ro) s"
  unfolding target_tsgs_def by (rule fold_exit_concat) (simp add: visit_client_set)

lemma target_handle:
  "ref \<in> set (target_tsgs env rc ro) \<Longrightarrow> ref_hResource ref = ro"
  by (auto simp: target_tsgs_def targets_of_def split: if_splits)

lemma set_search:
  "case gp_search env NV_GPREEMPT_SET_TIMESLICE rc ro ts s of (status, s') \<Rightarrow>
     status = fst (set_answer env rc ro ts) \<and> gp_trace s' = gp_trace s @ snd (set_answer env rc ro ts)"
  using target_handle [of _ env rc ro]
  by (cases "target_tsgs env rc ro") (auto simp: gp_search_def set_loop set_answer_def set_group_def)

text \<open>The operation that a block selects.\<close>

lemma operation_cases:
  "gpreempt_operation flags cmd hC hO has sz csize = NV_GPREEMPT_QUERY \<longleftrightarrow>
     hC \<noteq> 0 \<and> has \<and> flags = 0 \<and> cmd = 0 \<and> hO = 0 \<and> sz = csize"
  "gpreempt_operation flags cmd hC hO has sz csize = NV_GPREEMPT_SET_TIMESLICE \<longleftrightarrow>
     hC \<noteq> 0 \<and> has \<and> flags = 0x10001 \<and> cmd = 0xa06c0103 \<and> hO \<noteq> 0 \<and> sz = 8"
  by (simp_all add: gpreempt_operation_def)

lemma start_fresh [simp]: "gp_fresh gp_start" "gp_fresh (gp_emit e s) = gp_fresh s"
  by (simp_all add: gp_fresh_def gp_start_def)

lemma start_trace [simp]: "gp_trace gp_start = []"
  by (simp add: gp_start_def)

lemma trace_ok_Nil [simp]: "gp_trace_ok []"
  by (simp add: gp_trace_ok_def)

subsection \<open>Properties\<close>

text \<open>
  C18: A query answers from the graphics channel groups that the given thread created below the user
  clients of the caller's own process, and from nothing else: it succeeds exactly if there is one
  such group and it has between one and 64 channels. It then returns the handles of its client and
  of the group and copies out exactly the list of its channels. Several candidates, too many
  channels, and no candidate are three different errors, and on every error the handles are zero.
\<close>

theorem query_unique:
  assumes "gpreempt_operation (os54_flags api) (os54_cmd api) (os54_hClient api) (os54_hObject api)
      (os54_params api \<noteq> 0) (os54_paramsSize api) sizeof_channels = NV_GPREEMPT_QUERY"
    and "ge_pid_info env \<noteq> 0" "ge_api_lock env = NV_OK" "ge_gpu_lock env = NV_OK" "ge_copy_to_user env = NV_OK"
  shows "case RmGPreemptTransport env api of (status, api', tr) \<Rightarrow>
    (let tsgs = owned_tsgs env (os54_hClient api)
     in status = query_status tsgs \<and>
        (if status = NV_OK
           then (\<exists>h ref. tsgs = [(h, ref)] \<and>
                  api' = api\<lparr>os54_hClient := h, os54_hObject := ref_hResource ref\<rparr> \<and>
                  tr = gp_search_trace [] [Gp_Copy_Out (os54_params api) (channels_reply h (ref_channels ref))])
         else api' = api\<lparr>os54_hClient := 0, os54_hObject := 0\<rparr> \<and> tr = gp_search_trace [] []))"
proof -
  let ?tid = "os54_hClient api" and ?ob = "os54_hObject api"
  let ?s = "gp_emit Gp_Gpu_Lock (gp_emit Gp_Api_Lock (gp_emit Gp_Thread_Init gp_start))"
  have flags: "os54_flags api = 0" using assms(1) by (simp add: operation_cases)
  obtain status s' where search: "gp_search env NV_GPREEMPT_QUERY ?tid ?ob 0 ?s = (status, s')" by fastforce
  note answer = query_search [of ?s env ?tid ?ob 0, unfolded search prod.case]
  have "RmGPreemptTransport env api = gp_copy_out env NV_GPREEMPT_QUERY
      (api\<lparr>os54_hClient := 0, os54_hObject := 0\<rparr>)
      (status, gp_emit Gp_Pid_Put (gp_emit Gp_Thread_Free (gp_emit Gp_Api_Unlock (gp_emit Gp_Gpu_Unlock s'))))"
    using assms flags search by (simp add: RmGPreemptTransport_def gp_read_timeslice_def gp_locked_def)
  then show ?thesis using answer assms(5)
    by (auto simp: gp_copy_out_def gp_search_trace_def Let_def)
qed

theorem query_unique_witness:
  "case RmGPreemptTransport sample_gp_env sample_query of (status, api', tr) \<Rightarrow>
     status = NV_OK \<and> os54_hClient api' = 0xc1 \<and> os54_hObject api' = 0xa2 \<and>
     Gp_Copy_Out 0x7000 (channels_reply 0xc1 [6, 7]) \<in> set tr"
proof -
  have tsgs: "owned_tsgs sample_gp_env 42 = [(0xc1, sample_tsg 0xa2 42 [6, 7])]"
    by (simp add: owned_tsgs_def tsgs_of_def sample_gp_env_def nv_gpreempt_owned_user_def gr_group_def
        sample_tsg_def sample_api_def sample_group_def RM_ENGINE_TYPE_IS_GR_def)
  have "case RmGPreemptTransport sample_gp_env sample_query of (status, api', tr) \<Rightarrow>
    (let tsgs = owned_tsgs sample_gp_env (os54_hClient sample_query)
     in status = query_status tsgs \<and>
        (if status = NV_OK
           then (\<exists>h ref. tsgs = [(h, ref)] \<and>
                  api' = sample_query\<lparr>os54_hClient := h, os54_hObject := ref_hResource ref\<rparr> \<and>
                  tr = gp_search_trace [] [Gp_Copy_Out (os54_params sample_query)
                         (channels_reply h (ref_channels ref))])
         else api' = sample_query\<lparr>os54_hClient := 0, os54_hObject := 0\<rparr> \<and> tr = gp_search_trace [] []))"
    by (rule query_unique)
      (simp_all add: sample_query_def operation_cases sizeof_channels_def sample_gp_env_def)
  then show ?thesis
    by (auto simp: sample_query_def tsgs query_status_def sample_tsg_def gp_search_trace_def)
qed

text \<open>
  C19: A write goes to the first graphics channel group with the requested handle below a user client
  of the caller's own process with the requested handle, if its GPU is run by the firmware, carries
  one of the two permitted timeslices and nothing that the caller could still change, and returns the
  status of that command. A value that is not permitted, a group of another process and a missing
  group are errors without any command, and the handles of the block stay as they were.
\<close>

theorem set_timeslice_authorized:
  assumes "gpreempt_operation (os54_flags api) (os54_cmd api) (os54_hClient api) (os54_hObject api)
      (os54_params api \<noteq> 0) (os54_paramsSize api) sizeof_channels = NV_GPREEMPT_SET_TIMESLICE"
    and "ge_copy_from_user env (os54_params api) = (NV_OK, ts)"
    and "ge_pid_info env \<noteq> 0" "ge_api_lock env = NV_OK" "ge_gpu_lock env = NV_OK"
  shows "RmGPreemptTransport env api =
    (if ts = 1 \<or> ts = 1000000
       then (case set_answer env (os54_hClient api) (os54_hObject api) ts of (status, controls) \<Rightarrow>
               (status, api, gp_search_trace controls []))
     else (NV_ERR_INVALID_ARGUMENT, api, []))"
proof -
  let ?c = "os54_hClient api" and ?o = "os54_hObject api"
  let ?s = "gp_emit Gp_Gpu_Lock (gp_emit Gp_Api_Lock (gp_emit Gp_Thread_Init gp_start))"
  have flags: "os54_flags api \<noteq> 0" using assms(1) by (simp add: operation_cases)
  obtain status s' where search: "gp_search env NV_GPREEMPT_SET_TIMESLICE ?c ?o ts ?s = (status, s')"
    by fastforce
  note answer = set_search [of env ?c ?o ts ?s, unfolded search prod.case]
  show ?thesis
  proof (cases "nv_gpreempt_timeslice_allowed ts")
    case True
    then have "RmGPreemptTransport env api = gp_copy_out env NV_GPREEMPT_SET_TIMESLICE api
      (status, gp_emit Gp_Pid_Put (gp_emit Gp_Thread_Free (gp_emit Gp_Api_Unlock (gp_emit Gp_Gpu_Unlock s'))))"
      using assms flags search by (simp add: RmGPreemptTransport_def gp_read_timeslice_def gp_locked_def)
    moreover have "ts = 1 \<or> ts = 1000000" using True by (simp add: nv_gpreempt_timeslice_allowed_def)
    ultimately show ?thesis using answer
      by (simp only: gp_copy_out_def prod.case gp_search_trace_def if_True simp_thms
          nv_gpreempt_operation.distinct if_False split: prod.split) simp
  next
    case False
    then show ?thesis using assms flags
      by (auto simp: RmGPreemptTransport_def gp_read_timeslice_def nv_gpreempt_timeslice_allowed_def)
  qed
qed

theorem set_timeslice_authorized_witness:
  "RmGPreemptTransport sample_gp_env sample_set =
     (NV_OK, sample_set, gp_search_trace [Gp_Control 0xc1 0xa1 0xa06c0103 1000000] [])"
proof -
  have "target_tsgs sample_gp_env 0xc1 0xa1 = [sample_tsg 0xa1 41 [5]]"
    by (simp add: target_tsgs_def targets_of_def sample_gp_env_def nv_gpreempt_owned_user_def gr_group_def
        sample_tsg_def sample_api_def sample_group_def RM_ENGINE_TYPE_IS_GR_def)
  then have "set_answer sample_gp_env 0xc1 0xa1 1000000 =
      (NV_OK, [Gp_Control 0xc1 0xa1 0xa06c0103 1000000])"
    by (simp add: set_answer_def sample_tsg_def sample_gpu_def sample_gp_env_def)
  moreover have "RmGPreemptTransport sample_gp_env sample_set =
    (if (1000000 :: NvU64) = 1 \<or> (1000000 :: NvU64) = 1000000
       then (case set_answer sample_gp_env (os54_hClient sample_set) (os54_hObject sample_set) 1000000 of
               (status, controls) \<Rightarrow> (status, sample_set, gp_search_trace controls []))
     else (NV_ERR_INVALID_ARGUMENT, sample_set, []))"
    by (rule set_timeslice_authorized)
      (simp_all add: sample_set_def operation_cases sample_gp_env_def)
  ultimately show ?thesis by (simp add: sample_set_def)
qed

text \<open>
  C20: On every path through the transport the locks are released in the reverse order in which they
  were taken, at most one command is issued, while both locks are held, and the user's memory is
  written only after both were released.
\<close>

theorem transport_trace:
  "gp_trace_ok (snd (snd (RmGPreemptTransport env api)))"
proof -
  define op where "op = gpreempt_operation (os54_flags api) (os54_cmd api) (os54_hClient api) (os54_hObject api)
      (os54_params api \<noteq> 0) (os54_paramsSize api) sizeof_channels"
  have search: "\<exists>cs. gp_trace (snd (gp_search env p c t ts s)) = gp_trace s @ cs \<and> length cs \<le> 1 \<and>
      list_all is_control_event cs" if "p = NV_GPREEMPT_QUERY \<or> p = NV_GPREEMPT_SET_TIMESLICE" "gp_fresh s"
    for p c t ts s
    using that query_search [of s env c t ts] set_search [of env c t ts s]
    by (auto simp: set_answer_def split: prod.splits list.splits)
  consider "op = NV_GPREEMPT_INVALID" | "op = NV_GPREEMPT_QUERY \<or> op = NV_GPREEMPT_SET_TIMESLICE"
    using nv_gpreempt_operation.exhaust by blast
  then show ?thesis
  proof cases
    case 1
    then show ?thesis
      unfolding RmGPreemptTransport_def Let_def op_def [symmetric] by simp
  next
    case 2
    let ?s = "gp_emit Gp_Gpu_Lock (gp_emit Gp_Api_Lock (gp_emit Gp_Thread_Init gp_start))"
    have "gp_trace_ok (snd (snd (gp_copy_out env op b (gp_locked env op c t ts))))" for b c t ts
    proof -
      obtain cs where "gp_trace (snd (gp_search env op c t ts ?s)) = gp_trace ?s @ cs" "length cs \<le> 1"
          "list_all is_control_event cs"
        using search [OF 2, of ?s c t ts] by auto
      then show ?thesis
        by (cases "gp_search env op c t ts ?s")
          (fastforce simp: gp_locked_def gp_copy_out_def gp_trace_ok_def gp_search_trace_def Let_def)
    qed
    then show ?thesis
      unfolding RmGPreemptTransport_def Let_def op_def [symmetric] by (simp split: sum.split)
  qed
qed

end
