(* ===== verification/Page_Mask.thy ===== *)
theory Page_Mask
  imports Prelude
begin

section \<open>Regions and page masks of a VA block\<close>

text \<open>
  The helpers of \<^verbatim>\<open>uvm_va_block.h\<close> on regions and page masks, and the big-page regions
  of \<^verbatim>\<open>uvm_va_block.c\<close>, for pages of 4 KiB: a block has at most 512 pages, page
  indices are 16-bit words and a mask is a word of 512 bits. The bitmap functions of the kernel are on masks
  and natural numbers, with the results the kernel documents (a search that finds nothing returns its limit).
  The iteration macros are the lists of what their loops visit.

  A region with \<^verbatim>\<open>first > outer\<close> violates an assertion of the code; the functions that
  would then pass a negative length to the bitmap library have the length zero here.
\<close>

unbundle bit_operations_syntax

subsection \<open>Types\<close>

type_synonym uvm_page_index_t = NvU16
type_synonym uvm_page_mask_t = "512 word"

record uvm_va_block_region_t =
  reg_first :: uvm_page_index_t
  reg_outer :: uvm_page_index_t

record uvm_va_block_t =
  vb_start :: NvU64
  vb_end :: NvU64

abbreviation (input) PAGE_SIZE :: NvU64 where
  "PAGE_SIZE \<equiv> 4096"

abbreviation (input) PAGES_PER_UVM_VA_BLOCK :: nat where
  "PAGES_PER_UVM_VA_BLOCK \<equiv> 512"

abbreviation (input) MAX_BIG_PAGES_PER_UVM_VA_BLOCK :: NvU64 where
  "MAX_BIG_PAGES_PER_UVM_VA_BLOCK \<equiv> 32"

definition UVM_ALIGN_DOWN :: "NvU64 \<Rightarrow> NvU64 \<Rightarrow> NvU64" where
  "UVM_ALIGN_DOWN x a = x AND NOT (a - 1)"

definition UVM_ALIGN_UP :: "NvU64 \<Rightarrow> NvU64 \<Rightarrow> NvU64" where
  "UVM_ALIGN_UP x a = UVM_ALIGN_DOWN (x + (a - 1)) a"

subsection \<open>Bitmaps of the kernel library\<close>

function find_next_bit :: "uvm_page_mask_t \<Rightarrow> nat \<Rightarrow> nat \<Rightarrow> nat" where
  "find_next_bit m nbits offset =
     (if offset \<ge> nbits then nbits
      else if bit m offset then offset
      else find_next_bit m nbits (Suc offset))"
  by auto

termination by (relation "measure (\<lambda>(m, nbits, offset). nbits - offset)") auto

declare find_next_bit.simps [simp del]

definition find_next_zero_bit :: "uvm_page_mask_t \<Rightarrow> nat \<Rightarrow> nat \<Rightarrow> nat" where
  "find_next_zero_bit m = find_next_bit (NOT m)"

fun find_last_bit :: "uvm_page_mask_t \<Rightarrow> nat \<Rightarrow> nat \<Rightarrow> nat" where
  "find_last_bit m nbits 0 = nbits"
| "find_last_bit m nbits (Suc i) = (if bit m i then i else find_last_bit m nbits i)"

definition bitmap_weight :: "uvm_page_mask_t \<Rightarrow> nat \<Rightarrow> nat" where
  "bitmap_weight m nbits = length (filter (bit m) [0..<nbits])"

definition bitmap_set :: "uvm_page_mask_t \<Rightarrow> nat \<Rightarrow> nat \<Rightarrow> uvm_page_mask_t" where
  "bitmap_set m start len = m OR push_bit start (mask len)"

definition bitmap_clear :: "uvm_page_mask_t \<Rightarrow> nat \<Rightarrow> nat \<Rightarrow> uvm_page_mask_t" where
  "bitmap_clear m start len = m AND NOT (push_bit start (mask len))"

subsection \<open>Regions\<close>

definition uvm_va_block_region :: "uvm_page_index_t \<Rightarrow> uvm_page_index_t \<Rightarrow> uvm_va_block_region_t" where
  "uvm_va_block_region first outer = \<lparr>reg_first = first, reg_outer = outer\<rparr>"

definition uvm_va_block_region_for_page :: "uvm_page_index_t \<Rightarrow> uvm_va_block_region_t" where
  "uvm_va_block_region_for_page p = uvm_va_block_region p (p + 1)"

definition uvm_va_block_region_num_pages :: "uvm_va_block_region_t \<Rightarrow> NvU64" where
  "uvm_va_block_region_num_pages r = ucast (reg_outer r) - ucast (reg_first r)"

definition uvm_va_block_region_size :: "uvm_va_block_region_t \<Rightarrow> NvU64" where
  "uvm_va_block_region_size r = uvm_va_block_region_num_pages r * PAGE_SIZE"

definition uvm_va_block_region_start :: "('a) uvm_va_block_t_scheme \<Rightarrow> uvm_va_block_region_t \<Rightarrow> NvU64" where
  "uvm_va_block_region_start b r = vb_start b + ucast (reg_first r) * PAGE_SIZE"

definition uvm_va_block_region_end :: "('a) uvm_va_block_t_scheme \<Rightarrow> uvm_va_block_region_t \<Rightarrow> NvU64" where
  "uvm_va_block_region_end b r = vb_start b + ucast (reg_outer r) * PAGE_SIZE - 1"

definition uvm_va_block_region_contains_region ::
  "uvm_va_block_region_t \<Rightarrow> uvm_va_block_region_t \<Rightarrow> bool" where
  "uvm_va_block_region_contains_region r sub \<longleftrightarrow> reg_first sub \<ge> reg_first r \<and> reg_outer sub \<le> reg_outer r"

definition uvm_va_block_region_contains_page :: "uvm_va_block_region_t \<Rightarrow> uvm_page_index_t \<Rightarrow> bool" where
  "uvm_va_block_region_contains_page r p \<longleftrightarrow>
     uvm_va_block_region_contains_region r (uvm_va_block_region_for_page p)"

definition uvm_va_block_size :: "('a) uvm_va_block_t_scheme \<Rightarrow> NvU64" where
  "uvm_va_block_size b = vb_end b - vb_start b + 1"

definition uvm_va_block_num_cpu_pages :: "('a) uvm_va_block_t_scheme \<Rightarrow> NvU64" where
  "uvm_va_block_num_cpu_pages b = uvm_va_block_size b div PAGE_SIZE"

definition uvm_va_block_cpu_page_address :: "('a) uvm_va_block_t_scheme \<Rightarrow> uvm_page_index_t \<Rightarrow> NvU64" where
  "uvm_va_block_cpu_page_address b p = vb_start b + PAGE_SIZE * ucast p"

definition uvm_va_block_cpu_page_index :: "('a) uvm_va_block_t_scheme \<Rightarrow> NvU64 \<Rightarrow> uvm_page_index_t" where
  "uvm_va_block_cpu_page_index b addr = ucast ((addr - vb_start b) div PAGE_SIZE)"

definition uvm_va_block_region_from_start_end ::
  "('a) uvm_va_block_t_scheme \<Rightarrow> NvU64 \<Rightarrow> NvU64 \<Rightarrow> uvm_va_block_region_t" where
  "uvm_va_block_region_from_start_end b start end' =
     \<lparr>reg_first = uvm_va_block_cpu_page_index b start,
      reg_outer = uvm_va_block_cpu_page_index b end' + 1\<rparr>"

definition uvm_va_block_region_from_start_size ::
  "('a) uvm_va_block_t_scheme \<Rightarrow> NvU64 \<Rightarrow> NvU64 \<Rightarrow> uvm_va_block_region_t" where
  "uvm_va_block_region_from_start_size b start len =
     uvm_va_block_region_from_start_end b start (start + len - 1)"

definition uvm_va_block_region_from_block :: "('a) uvm_va_block_t_scheme \<Rightarrow> uvm_va_block_region_t" where
  "uvm_va_block_region_from_block b = uvm_va_block_region 0 (ucast (uvm_va_block_num_cpu_pages b))"

definition uvm_va_block_chunk_region ::
  "('a) uvm_va_block_t_scheme \<Rightarrow> NvU64 \<Rightarrow> uvm_page_index_t \<Rightarrow> uvm_va_block_region_t" where
  "uvm_va_block_chunk_region b chunk_size p =
     (let page_addr = uvm_va_block_cpu_page_address b p;
          chunk_start_addr = UVM_ALIGN_DOWN page_addr chunk_size;
          first = ucast ((chunk_start_addr - vb_start b) div PAGE_SIZE)
      in uvm_va_block_region first (first + ucast (chunk_size div PAGE_SIZE)))"

subsection \<open>Page masks\<close>

definition uvm_page_mask_test :: "uvm_page_mask_t \<Rightarrow> uvm_page_index_t \<Rightarrow> bool" where
  "uvm_page_mask_test m p \<longleftrightarrow> bit m (unat p)"

definition uvm_page_mask_set :: "uvm_page_mask_t \<Rightarrow> uvm_page_index_t \<Rightarrow> uvm_page_mask_t" where
  "uvm_page_mask_set m p = set_bit (unat p) m"

definition uvm_page_mask_clear :: "uvm_page_mask_t \<Rightarrow> uvm_page_index_t \<Rightarrow> uvm_page_mask_t" where
  "uvm_page_mask_clear m p = unset_bit (unat p) m"

definition uvm_page_mask_test_and_set :: "uvm_page_mask_t \<Rightarrow> uvm_page_index_t \<Rightarrow> bool \<times> uvm_page_mask_t" where
  "uvm_page_mask_test_and_set m p = (bit m (unat p), set_bit (unat p) m)"

definition uvm_page_mask_test_and_clear :: "uvm_page_mask_t \<Rightarrow> uvm_page_index_t \<Rightarrow> bool \<times> uvm_page_mask_t" where
  "uvm_page_mask_test_and_clear m p = (bit m (unat p), unset_bit (unat p) m)"

definition uvm_page_mask_region_test ::
  "uvm_page_mask_t option \<Rightarrow> uvm_va_block_region_t \<Rightarrow> uvm_page_index_t \<Rightarrow> bool" where
  "uvm_page_mask_region_test mo r p =
     (if \<not> uvm_va_block_region_contains_page r p then False
      else case mo of None \<Rightarrow> True | Some m \<Rightarrow> uvm_page_mask_test m p)"

definition uvm_page_mask_region_weight :: "uvm_page_mask_t \<Rightarrow> uvm_va_block_region_t \<Rightarrow> NvU32" where
  "uvm_page_mask_region_weight m r =
     (let weight_before = (if reg_first r > 0 then of_nat (bitmap_weight m (unat (reg_first r))) else 0)
      in of_nat (bitmap_weight m (unat (reg_outer r))) - weight_before)"

definition uvm_page_mask_region_empty :: "uvm_page_mask_t \<Rightarrow> uvm_va_block_region_t \<Rightarrow> bool" where
  "uvm_page_mask_region_empty m r \<longleftrightarrow>
     find_next_bit m (unat (reg_outer r)) (unat (reg_first r)) = unat (reg_outer r)"

definition uvm_page_mask_region_full :: "uvm_page_mask_t \<Rightarrow> uvm_va_block_region_t \<Rightarrow> bool" where
  "uvm_page_mask_region_full m r \<longleftrightarrow>
     find_next_zero_bit m (unat (reg_outer r)) (unat (reg_first r)) = unat (reg_outer r)"

definition uvm_page_mask_region_fill :: "uvm_page_mask_t \<Rightarrow> uvm_va_block_region_t \<Rightarrow> uvm_page_mask_t" where
  "uvm_page_mask_region_fill m r = bitmap_set m (unat (reg_first r)) (unat (reg_outer r) - unat (reg_first r))"

definition uvm_page_mask_region_clear :: "uvm_page_mask_t \<Rightarrow> uvm_va_block_region_t \<Rightarrow> uvm_page_mask_t" where
  "uvm_page_mask_region_clear m r =
     bitmap_clear m (unat (reg_first r)) (unat (reg_outer r) - unat (reg_first r))"

definition uvm_page_mask_region_clear_outside ::
  "uvm_page_mask_t \<Rightarrow> uvm_va_block_region_t \<Rightarrow> uvm_page_mask_t" where
  "uvm_page_mask_region_clear_outside m r =
     (let m = (if reg_first r > 0 then bitmap_clear m 0 (unat (reg_first r)) else m)
      in if unat (reg_outer r) < PAGES_PER_UVM_VA_BLOCK
           then bitmap_clear m (unat (reg_outer r)) (PAGES_PER_UVM_VA_BLOCK - unat (reg_outer r))
         else m)"

definition uvm_page_mask_init_from_region ::
  "uvm_va_block_region_t \<Rightarrow> uvm_page_mask_t option \<Rightarrow> bool \<times> uvm_page_mask_t" where
  "uvm_page_mask_init_from_region r mask_in =
     (let m = uvm_page_mask_region_fill 0 r
      in case mask_in of
           None \<Rightarrow> (True, m)
         | Some mi \<Rightarrow> (m AND mi \<noteq> 0, m AND mi))"

definition uvm_page_mask_weight :: "uvm_page_mask_t \<Rightarrow> nat" where
  "uvm_page_mask_weight m = bitmap_weight m PAGES_PER_UVM_VA_BLOCK"

definition uvm_page_mask_subset :: "uvm_page_mask_t \<Rightarrow> uvm_page_mask_t \<Rightarrow> bool" where
  "uvm_page_mask_subset s m \<longleftrightarrow> s AND NOT m = 0"

definition uvm_page_mask_intersects :: "uvm_page_mask_t \<Rightarrow> uvm_page_mask_t \<Rightarrow> bool" where
  "uvm_page_mask_intersects a b \<longleftrightarrow> a AND b \<noteq> 0"

definition uvm_page_mask_shift_right :: "uvm_page_mask_t \<Rightarrow> nat \<Rightarrow> uvm_page_mask_t" where
  "uvm_page_mask_shift_right m n = drop_bit n m"

definition uvm_page_mask_shift_left :: "uvm_page_mask_t \<Rightarrow> nat \<Rightarrow> uvm_page_mask_t" where
  "uvm_page_mask_shift_left m n = push_bit n m"

definition uvm_va_block_region_from_mask ::
  "('a) uvm_va_block_t_scheme option \<Rightarrow> uvm_page_mask_t \<Rightarrow> uvm_va_block_region_t" where
  "uvm_va_block_region_from_mask bo m =
     (let outer = (case bo of
            Some b \<Rightarrow> ucast (uvm_va_block_num_cpu_pages b)
          | None \<Rightarrow> of_nat PAGES_PER_UVM_VA_BLOCK) :: uvm_page_index_t;
          first = of_nat (find_next_bit m (unat outer) 0) :: uvm_page_index_t
      in if first \<ge> outer then uvm_va_block_region 0 0
         else \<lparr>reg_first = first, reg_outer = of_nat (find_last_bit m (unat outer) (unat outer)) + 1\<rparr>)"

subsection \<open>Iteration\<close>

definition uvm_va_block_first_page_in_mask ::
  "uvm_va_block_region_t \<Rightarrow> uvm_page_mask_t option \<Rightarrow> uvm_page_index_t" where
  "uvm_va_block_first_page_in_mask r mo =
     (case mo of
        Some m \<Rightarrow> of_nat (find_next_bit m (unat (reg_outer r)) (unat (reg_first r)))
      | None \<Rightarrow> reg_first r)"

definition uvm_va_block_next_page_in_mask ::
  "uvm_va_block_region_t \<Rightarrow> uvm_page_mask_t option \<Rightarrow> uvm_page_index_t \<Rightarrow> uvm_page_index_t" where
  "uvm_va_block_next_page_in_mask r mo p =
     (case mo of
        Some m \<Rightarrow> of_nat (find_next_bit m (unat (reg_outer r)) (unat p + 1))
      | None \<Rightarrow> p + 1)"

definition uvm_va_block_first_unset_page_in_mask ::
  "uvm_va_block_region_t \<Rightarrow> uvm_page_mask_t option \<Rightarrow> uvm_page_index_t" where
  "uvm_va_block_first_unset_page_in_mask r mo =
     (case mo of
        Some m \<Rightarrow> of_nat (find_next_zero_bit m (unat (reg_outer r)) (unat (reg_first r)))
      | None \<Rightarrow> reg_first r)"

definition uvm_va_block_next_unset_page_in_mask ::
  "uvm_va_block_region_t \<Rightarrow> uvm_page_mask_t option \<Rightarrow> uvm_page_index_t \<Rightarrow> uvm_page_index_t" where
  "uvm_va_block_next_unset_page_in_mask r mo p =
     (case mo of
        Some m \<Rightarrow> of_nat (find_next_zero_bit m (unat (reg_outer r)) (unat p + 1))
      | None \<Rightarrow> p + 1)"

definition uvm_va_block_first_subregion_in_mask ::
  "uvm_va_block_region_t \<Rightarrow> uvm_page_mask_t option \<Rightarrow> uvm_va_block_region_t" where
  "uvm_va_block_first_subregion_in_mask r mo =
     (case mo of
        None \<Rightarrow> r
      | Some m \<Rightarrow>
          (let outer = unat (reg_outer r);
               first = find_next_bit m outer (unat (reg_first r))
           in \<lparr>reg_first = of_nat first, reg_outer = of_nat (find_next_zero_bit m outer (first + 1))\<rparr>))"

definition uvm_va_block_next_subregion_in_mask ::
  "uvm_va_block_region_t \<Rightarrow> uvm_page_mask_t option \<Rightarrow> uvm_va_block_region_t \<Rightarrow> uvm_va_block_region_t" where
  "uvm_va_block_next_subregion_in_mask r mo prev =
     (case mo of
        None \<Rightarrow> \<lparr>reg_first = reg_outer r, reg_outer = reg_outer r\<rparr>
      | Some m \<Rightarrow>
          (let outer = unat (reg_outer r);
               first = find_next_bit m outer (unat (reg_outer prev) + 1)
           in \<lparr>reg_first = of_nat first, reg_outer = of_nat (find_next_zero_bit m outer (first + 1))\<rparr>))"

text \<open>What a search finds; the loops below end because of it.\<close>

lemma find_next_bit_le: "find_next_bit m n k \<le> n"
  by (induction m n k rule: find_next_bit.induct) (simp add: find_next_bit.simps)

lemma find_next_bit_end [simp]: "n \<le> k \<Longrightarrow> find_next_bit m n k = n"
  by (simp add: find_next_bit.simps)

lemma find_next_bit_ge: "k < n \<Longrightarrow> k \<le> find_next_bit m n k"
proof (induction m n k rule: find_next_bit.induct)
  case (1 m n k)
  then show ?case
    by (cases "Suc k < n") (auto simp: find_next_bit.simps [of m n k] find_next_bit.simps [of m n "Suc k"])
qed

lemma next_page_decreases:
  assumes "p \<noteq> reg_outer r"
  shows "unat (reg_outer r - uvm_va_block_next_page_in_mask r mo p) < unat (reg_outer r - p)"
proof (cases mo)
  case None
  have "unat (reg_outer r - (p + 1)) = unat (reg_outer r - p) - 1"
    using unat_minus_one [of "reg_outer r - p"] assms by (simp add: diff_diff_eq)
  moreover have "unat (reg_outer r - p) > 0" using assms by (simp add: unat_gt_0)
  ultimately show ?thesis using None by (simp add: uvm_va_block_next_page_in_mask_def)
next
  case (Some m)
  let ?n = "find_next_bit m (unat (reg_outer r)) (unat p + 1)"
  have le: "?n \<le> unat (reg_outer r)" by (rule find_next_bit_le)
  then have n: "unat (of_nat ?n :: uvm_page_index_t) = ?n"
    using unat16_less [of "reg_outer r"] by (simp add: unat_of_nat16)
  have "of_nat ?n \<le> reg_outer r" using le n by (simp add: word_le_nat_alt)
  then have diff: "unat (reg_outer r - of_nat ?n) = unat (reg_outer r) - ?n" using n by (simp add: unat_sub)
  show ?thesis
  proof (cases "p < reg_outer r")
    case True
    then have lt: "unat p < unat (reg_outer r)" by (simp add: word_less_nat_alt)
    have "unat p < ?n"
    proof (cases "unat p + 1 < unat (reg_outer r)")
      case True
      then show ?thesis using find_next_bit_ge [of "unat p + 1" "unat (reg_outer r)" m] by simp
    next
      case False
      then show ?thesis using lt by simp
    qed
    moreover have "unat (reg_outer r - p) = unat (reg_outer r) - unat p" using True by (simp add: unat_sub)
    ultimately show ?thesis using Some diff lt by (simp add: uvm_va_block_next_page_in_mask_def)
  next
    case False
    then have "?n = unat (reg_outer r)" by (simp add: word_less_nat_alt)
    moreover have "unat (reg_outer r - p) > 0" using assms by (simp add: unat_gt_0)
    ultimately show ?thesis using Some diff by (simp add: uvm_va_block_next_page_in_mask_def)
  qed
qed

text \<open>The pages that the loop macro visits, from \<open>p\<close> on.\<close>

function pages_from :: "uvm_page_mask_t option \<Rightarrow> uvm_va_block_region_t \<Rightarrow> uvm_page_index_t \<Rightarrow> uvm_page_index_t list" where
  "pages_from mo r p =
     (if p = reg_outer r then [] else p # pages_from mo r (uvm_va_block_next_page_in_mask r mo p))"
  by auto

termination
  by (relation "measure (\<lambda>(mo, r, p). unat (reg_outer r - p))") (auto simp: next_page_decreases)

declare pages_from.simps [simp del]

definition for_each_va_block_page_in_region_mask ::
  "uvm_page_mask_t option \<Rightarrow> uvm_va_block_region_t \<Rightarrow> uvm_page_index_t list" where
  "for_each_va_block_page_in_region_mask mo r = pages_from mo r (uvm_va_block_first_page_in_mask r mo)"

text \<open>The subregions that the loop macro visits. The step limit is the number of pages left.\<close>

fun subregions_from ::
  "nat \<Rightarrow> uvm_page_mask_t option \<Rightarrow> uvm_va_block_region_t \<Rightarrow> uvm_va_block_region_t \<Rightarrow>
     uvm_va_block_region_t list option" where
  "subregions_from 0 mo r sub = (if reg_first sub = reg_outer r then Some [] else None)"
| "subregions_from (Suc steps) mo r sub =
     (if reg_first sub = reg_outer r then Some []
      else map_option ((#) sub) (subregions_from steps mo r (uvm_va_block_next_subregion_in_mask r mo sub)))"

definition for_each_va_block_subregion_in_mask ::
  "nat \<Rightarrow> uvm_page_mask_t option \<Rightarrow> uvm_va_block_region_t \<Rightarrow> uvm_va_block_region_t list option" where
  "for_each_va_block_subregion_in_mask steps mo r =
     subregions_from steps mo r (uvm_va_block_first_subregion_in_mask r mo)"

subsection \<open>Big pages\<close>

definition uvm_div_pow2_64 :: "NvU64 \<Rightarrow> NvU64 \<Rightarrow> NvU64" where
  "uvm_div_pow2_64 n d = drop_bit (ilog2 (unat d)) n"

definition range_big_page_region_all :: "NvU64 \<Rightarrow> NvU64 \<Rightarrow> NvU64 \<Rightarrow> uvm_va_block_region_t" where
  "range_big_page_region_all start end' big_page_size =
     (let first_addr = UVM_ALIGN_UP start big_page_size;
          outer_addr = UVM_ALIGN_DOWN (end' + 1) big_page_size
      in if outer_addr \<le> first_addr then uvm_va_block_region 0 0
         else uvm_va_block_region (ucast ((first_addr - start) div PAGE_SIZE))
                (ucast ((outer_addr - start) div PAGE_SIZE)))"

definition range_num_big_pages :: "NvU64 \<Rightarrow> NvU64 \<Rightarrow> NvU64 \<Rightarrow> NvU64" where
  "range_num_big_pages start end' big_page_size =
     uvm_div_pow2_64 (uvm_va_block_region_size (range_big_page_region_all start end' big_page_size)) big_page_size"

definition uvm_va_block_big_page_region_all ::
  "('a) uvm_va_block_t_scheme \<Rightarrow> NvU64 \<Rightarrow> uvm_va_block_region_t" where
  "uvm_va_block_big_page_region_all b big_page_size =
     range_big_page_region_all (vb_start b) (vb_end b) big_page_size"

definition uvm_va_block_big_page_region_subset ::
  "('a) uvm_va_block_t_scheme \<Rightarrow> uvm_va_block_region_t \<Rightarrow> NvU64 \<Rightarrow> uvm_va_block_region_t" where
  "uvm_va_block_big_page_region_subset b r big_page_size =
     (let big_region = range_big_page_region_all (uvm_va_block_region_start b r)
            (uvm_va_block_region_end b r) big_page_size
      in if reg_outer big_region \<noteq> 0
           then \<lparr>reg_first = reg_first big_region + reg_first r, reg_outer = reg_outer big_region + reg_first r\<rparr>
         else big_region)"

definition uvm_va_block_num_big_pages :: "('a) uvm_va_block_t_scheme \<Rightarrow> NvU64 \<Rightarrow> NvU64" where
  "uvm_va_block_num_big_pages b big_page_size = range_num_big_pages (vb_start b) (vb_end b) big_page_size"

definition uvm_va_block_big_page_addr :: "('a) uvm_va_block_t_scheme \<Rightarrow> NvU64 \<Rightarrow> NvU64 \<Rightarrow> NvU64" where
  "uvm_va_block_big_page_addr b big_page_index big_page_size =
     UVM_ALIGN_UP (vb_start b) big_page_size + big_page_index * big_page_size"

definition uvm_va_block_big_page_region ::
  "('a) uvm_va_block_t_scheme \<Rightarrow> NvU64 \<Rightarrow> NvU64 \<Rightarrow> uvm_va_block_region_t" where
  "uvm_va_block_big_page_region b big_page_index big_page_size =
     uvm_va_block_region_from_start_size b (uvm_va_block_big_page_addr b big_page_index big_page_size)
       big_page_size"

definition uvm_va_block_big_page_index ::
  "('a) uvm_va_block_t_scheme \<Rightarrow> uvm_page_index_t \<Rightarrow> NvU64 \<Rightarrow> NvU64" where
  "uvm_va_block_big_page_index b p big_page_size =
     (let big_region_all = uvm_va_block_big_page_region_all b big_page_size
      in if p < reg_first big_region_all \<or> p \<ge> reg_outer big_region_all
           then MAX_BIG_PAGES_PER_UVM_VA_BLOCK
         else uvm_div_pow2_64 (ucast (p - reg_first big_region_all) * PAGE_SIZE) big_page_size)"

fun fill_big_pages ::
  "('a) uvm_va_block_t_scheme \<Rightarrow> NvU64 \<Rightarrow> nat list \<Rightarrow> uvm_page_mask_t \<Rightarrow> uvm_page_mask_t" where
  "fill_big_pages b big_page_size [] m = m"
| "fill_big_pages b big_page_size (i # is) m =
     fill_big_pages b big_page_size is
       (uvm_page_mask_region_fill m (uvm_va_block_big_page_region b (of_nat i) big_page_size))"

definition uvm_page_mask_init_from_big_ptes ::
  "('a) uvm_va_block_t_scheme \<Rightarrow> NvU64 \<Rightarrow> 32 word \<Rightarrow> uvm_page_mask_t" where
  "uvm_page_mask_init_from_big_ptes b big_page_size big_ptes =
     fill_big_pages b big_page_size (filter (bit big_ptes) [0..<32]) 0"

subsection \<open>Specifications\<close>

definition region_pages :: "uvm_va_block_region_t \<Rightarrow> nat list" where
  "region_pages r = [unat (reg_first r)..<unat (reg_outer r)]"

definition region_wf :: "uvm_va_block_region_t \<Rightarrow> bool" where
  "region_wf r \<longleftrightarrow> reg_first r \<le> reg_outer r \<and> unat (reg_outer r) \<le> 512"

text \<open>A subregion that cannot be extended within the region.\<close>

definition maximal_run :: "uvm_page_mask_t \<Rightarrow> uvm_va_block_region_t \<Rightarrow> uvm_va_block_region_t \<Rightarrow> bool" where
  "maximal_run m r sub \<longleftrightarrow>
     reg_first r \<le> reg_first sub \<and> reg_first sub < reg_outer sub \<and> reg_outer sub \<le> reg_outer r \<and>
     (\<forall>i\<in>set (region_pages sub). bit m i) \<and>
     (reg_first sub = reg_first r \<or> \<not> bit m (unat (reg_first sub) - 1)) \<and>
     (reg_outer sub = reg_outer r \<or> \<not> bit m (unat (reg_outer sub)))"

definition run_from :: "uvm_page_mask_t \<Rightarrow> uvm_va_block_region_t \<Rightarrow> nat \<Rightarrow> uvm_va_block_region_t" where
  "run_from m r k =
     (let n = unat (reg_outer r); f = find_next_bit m n k
      in \<lparr>reg_first = of_nat f, reg_outer = of_nat (find_next_zero_bit m n (f + 1))\<rparr>)"

text \<open>
  A block as the driver makes them: whole pages, at most 2 MiB, below the middle of the address
  space.
\<close>

definition block_wf :: "('a) uvm_va_block_t_scheme \<Rightarrow> bool" where
  "block_wf b \<longleftrightarrow> vb_start b \<le> vb_end b \<and> unat (vb_start b) mod 4096 = 0 \<and>
     (unat (vb_end b) + 1) mod 4096 = 0 \<and> unat (vb_end b) < unat (vb_start b) + 2 ^ 21 \<and> unat (vb_end b) < 2 ^ 63"

text \<open>Address of the first aligned byte from the start on, and of the byte after the last one.\<close>

definition first_big :: "('a) uvm_va_block_t_scheme \<Rightarrow> nat \<Rightarrow> nat" where
  "first_big b k = (unat (vb_start b) + (2 ^ k - 1)) div 2 ^ k * 2 ^ k"

definition outer_big :: "('a) uvm_va_block_t_scheme \<Rightarrow> nat \<Rightarrow> nat" where
  "outer_big b k = (unat (vb_end b) + 1) div 2 ^ k * 2 ^ k"

subsection \<open>Lemmas on searches\<close>

lemma find_next_bit_bit: "find_next_bit m n k < n \<Longrightarrow> bit m (find_next_bit m n k)"
proof (induction m n k rule: find_next_bit.induct)
  case (1 m n k)
  then show ?case by (auto simp: find_next_bit.simps [of m n k] split: if_splits)
qed

lemma find_next_bit_before: "k \<le> i \<Longrightarrow> i < find_next_bit m n k \<Longrightarrow> \<not> bit m i"
proof (induction m n k rule: find_next_bit.induct)
  case (1 m n k)
  show ?case
  proof (cases "n \<le> k \<or> bit m k")
    case True
    then show ?thesis using "1.prems" by (auto simp: find_next_bit.simps [of m n k] split: if_splits)
  next
    case False
    then have "find_next_bit m n k = find_next_bit m n (Suc k)" by (simp add: find_next_bit.simps [of m n k])
    then show ?thesis using "1.IH" "1.prems" False by (cases "i = k") auto
  qed
qed

lemma find_next_bit_cases:
  obtains "find_next_bit m n k = n" "\<forall>i. k \<le> i \<and> i < n \<longrightarrow> \<not> bit m i"
  | "find_next_bit m n k < n" "k \<le> find_next_bit m n k" "bit m (find_next_bit m n k)"
proof (cases "find_next_bit m n k < n")
  case True
  then have "k < n" by (cases "k < n") auto
  then show ?thesis using that True by (simp add: find_next_bit_ge find_next_bit_bit)
next
  case False
  then have "find_next_bit m n k = n" using find_next_bit_le [of m n k] by simp
  then show ?thesis using that find_next_bit_before [of k _ m n] by simp
qed

lemma find_next_bit_iff: "find_next_bit m n k = n \<longleftrightarrow> (\<forall>i. k \<le> i \<and> i < n \<longrightarrow> \<not> bit m i)"
  by (rule find_next_bit_cases [of m n k]) auto

lemma filter_next:
  "filter (bit m) [k..<n] =
     (if find_next_bit m n k = n then []
      else find_next_bit m n k # filter (bit m) [Suc (find_next_bit m n k)..<n])"
proof (rule find_next_bit_cases [of m n k])
  assume "find_next_bit m n k = n" "\<forall>i. k \<le> i \<and> i < n \<longrightarrow> \<not> bit m i"
  then show ?thesis by (simp add: filter_empty_conv)
next
  let ?f = "find_next_bit m n k"
  assume f: "?f < n" "k \<le> ?f" "bit m ?f"
  have split: "[k..<n] = [k..<?f] @ ?f # [Suc ?f..<n]"
    using f upt_add_eq_append [of k ?f "n - ?f"] by (simp add: upt_conv_Cons)
  have "filter (bit m) [k..<?f] = []" using find_next_bit_before [of k _ m n] by (auto simp: filter_empty_conv)
  then show ?thesis using f by (subst split) simp
qed

lemma of_nat_search:
  "n \<le> unat (w :: NvU16) \<Longrightarrow> unat (of_nat n :: NvU16) = n"
  using unat16_less [of w] by (intro unat_of_nat16) simp

lemma unat_search [simp]:
  "unat (of_nat (find_next_bit m (unat (w :: NvU16)) k) :: NvU16) = find_next_bit m (unat w) k"
  using find_next_bit_le by (rule of_nat_search)

lemma search_eq_outer:
  "(of_nat (find_next_bit m (unat w) k) :: NvU16) = w \<longleftrightarrow> find_next_bit m (unat w) k = unat w"
  by (metis unat_search word_unat_eq_iff)

subsection \<open>Iteration visits the pages of the mask\<close>

lemma pages_from_search:
  "p = of_nat (find_next_bit m (unat (reg_outer r)) k) \<Longrightarrow>
     map unat (pages_from (Some m) r p) = filter (bit m) [k..<unat (reg_outer r)]"
proof (induction "Some m" r p arbitrary: k rule: pages_from.induct)
  case (1 r p)
  let ?n = "unat (reg_outer r)"
  show ?case
  proof (cases "p = reg_outer r")
    case True
    then have "find_next_bit m ?n k = ?n" using "1.prems" by (metis unat_search)
    then show ?thesis using True by (subst pages_from.simps) (simp add: filter_next [of m k])
  next
    case False
    have p: "unat p = find_next_bit m ?n k" using "1.prems" by simp
    then have ne: "find_next_bit m ?n k \<noteq> ?n" using False by (metis word_unat_eq_iff)
    have nxt: "uvm_va_block_next_page_in_mask r (Some m) p = of_nat (find_next_bit m ?n (Suc (unat p)))"
      by (simp add: uvm_va_block_next_page_in_mask_def)
    have "pages_from (Some m) r p = p # pages_from (Some m) r (uvm_va_block_next_page_in_mask r (Some m) p)"
      using False by (subst pages_from.simps) simp
    moreover have "map unat (pages_from (Some m) r (uvm_va_block_next_page_in_mask r (Some m) p)) =
        filter (bit m) [Suc (unat p)..<?n]"
      by (rule "1.hyps" [OF False nxt])
    moreover have "filter (bit m) [k..<?n] = unat p # filter (bit m) [Suc (unat p)..<?n]"
      using filter_next [of m k ?n] ne by (simp only: p if_False)
    ultimately show ?thesis by simp
  qed
qed

lemma pages_from_None:
  "p \<le> reg_outer r \<Longrightarrow> map unat (pages_from None r p) = [unat p..<unat (reg_outer r)]"
proof (induction "None :: uvm_page_mask_t option" r p rule: pages_from.induct)
  case (1 r p)
  show ?case
  proof (cases "p = reg_outer r")
    case False
    then have lt: "p < reg_outer r" using "1.prems" by simp
    then have suc: "unat (p + 1) = Suc (unat p)" by (rule unat_Suc_less)
    then have "p + 1 \<le> reg_outer r" using lt by (simp add: word_le_nat_alt word_less_nat_alt)
    then have "map unat (pages_from None r (p + 1)) = [Suc (unat p)..<unat (reg_outer r)]"
      using "1.hyps" [OF False] suc by (simp add: uvm_va_block_next_page_in_mask_def)
    moreover have "pages_from None r p = p # pages_from None r (p + 1)"
      using False by (subst pages_from.simps) (simp add: uvm_va_block_next_page_in_mask_def)
    moreover have "unat p < unat (reg_outer r)" using lt by (simp add: word_less_nat_alt)
    ultimately show ?thesis by (simp add: upt_conv_Cons)
  qed (subst pages_from.simps, simp)
qed

subsection \<open>Subregions are the maximal runs\<close>

lemma subregion_run:
  "uvm_va_block_first_subregion_in_mask r (Some m) = run_from m r (unat (reg_first r))"
  "uvm_va_block_next_subregion_in_mask r (Some m) prev = run_from m r (Suc (unat (reg_outer prev)))"
  by (simp_all add: uvm_va_block_first_subregion_in_mask_def uvm_va_block_next_subregion_in_mask_def
      run_from_def Let_def)

lemma run_from_unat:
  "unat (reg_first (run_from m r k)) = find_next_bit m (unat (reg_outer r)) k"
  "unat (reg_outer (run_from m r k)) =
     find_next_zero_bit m (unat (reg_outer r)) (find_next_bit m (unat (reg_outer r)) k + 1)"
  by (simp_all add: run_from_def Let_def find_next_zero_bit_def)

lemma run_from_end:
  "reg_first (run_from m r k) = reg_outer r \<longleftrightarrow> find_next_bit m (unat (reg_outer r)) k = unat (reg_outer r)"
  by (metis run_from_unat(1) word_unat_eq_iff)

lemma zero_run:
  fixes m :: uvm_page_mask_t
  assumes "bit m f" "f < n" "n \<le> 512"
  defines "z \<equiv> find_next_zero_bit m n (f + 1)"
  shows "f < z" "z \<le> n" "\<And>i. f \<le> i \<Longrightarrow> i < z \<Longrightarrow> bit m i" "z < n \<Longrightarrow> \<not> bit m z"
proof -
  show z: "f < z" "z \<le> n"
    using assms find_next_bit_ge [of "f + 1" n "NOT m"] find_next_bit_le [of "NOT m" n "f + 1"]
    by (cases "f + 1 < n"; simp add: find_next_zero_bit_def)+
  show "bit m i" if "f \<le> i" "i < z" for i
  proof (cases "i = f")
    case False
    then have "\<not> bit (NOT m) i"
      using that find_next_bit_before [of "f + 1" i "NOT m" n] by (simp add: z_def find_next_zero_bit_def)
    then show ?thesis using that z assms(3) by (simp add: bit_not_iff)
  qed (use assms in simp)
  show "\<not> bit m z" if "z < n"
    using that find_next_bit_bit [of "NOT m" n "f + 1"] by (simp add: z_def find_next_zero_bit_def bit_not_iff)
qed

lemma filter_run:
  fixes m :: uvm_page_mask_t
  assumes n: "n \<le> 512" and f: "find_next_bit m n k < n"
  defines "z \<equiv> find_next_zero_bit m n (find_next_bit m n k + 1)"
  shows "filter (bit m) [k..<n] = [find_next_bit m n k..<z] @ filter (bit m) [Suc z..<n]"
proof -
  let ?f = "find_next_bit m n k"
  have bf: "bit m ?f" using f by (rule find_next_bit_bit)
  note run = zero_run [OF bf f n, folded z_def]
  have k: "k \<le> ?f" using f find_next_bit_ge [of k n m] by (cases "k < n") auto
  have "[k..<n] = [k..<?f] @ [?f..<z] @ [z..<n]"
    using k run upt_add_eq_append [of k ?f "z - ?f"] upt_add_eq_append [of k z "n - z"] by simp
  moreover have "filter (bit m) [k..<?f] = []"
    using find_next_bit_before [of k _ m n] by (auto simp: filter_empty_conv)
  moreover have "filter (bit m) [?f..<z] = [?f..<z]" using run(3) by simp
  moreover have "filter (bit m) [z..<n] = filter (bit m) [Suc z..<n]"
    using run by (cases "z < n") (auto simp: upt_conv_Cons)
  ultimately show ?thesis by simp
qed

lemma run_from_maximal:
  assumes "find_next_bit m (unat (reg_outer r)) k < unat (reg_outer r)" "unat (reg_outer r) \<le> 512"
    and left: "k = unat (reg_first r) \<or> k > unat (reg_first r) \<and> \<not> bit m (k - 1)"
  shows "maximal_run m r (run_from m r k)"
proof -
  let ?n = "unat (reg_outer r)" and ?f = "find_next_bit m (unat (reg_outer r)) k"
  note run = zero_run [OF find_next_bit_bit [OF assms(1)] assms(1,2)]
  have k: "k \<le> ?f" using assms(1) find_next_bit_ge [of k ?n m] by (cases "k < ?n") auto
  have "?f = unat (reg_first r) \<or> \<not> bit m (?f - 1)"
  proof (cases "?f = k")
    case False
    then show ?thesis using k find_next_bit_before [of k "?f - 1" m ?n] by simp
  qed (use left in auto)
  then show ?thesis
    using run k left
    by (auto simp: maximal_run_def region_pages_def run_from_unat word_le_nat_alt word_less_nat_alt
        word_unat_eq_iff)
qed

lemma subregions_runs:
  assumes "unat (reg_outer r) \<le> 512"
    and "k = unat (reg_first r) \<or> k > unat (reg_first r) \<and> (k \<le> unat (reg_outer r) \<longrightarrow> \<not> bit m (k - 1))"
    and "unat (reg_outer r) \<le> k + steps"
  shows "\<exists>rs. subregions_from steps (Some m) r (run_from m r k) = Some rs \<and>
    concat (map region_pages rs) = filter (bit m) [k..<unat (reg_outer r)] \<and>
    (\<forall>sub\<in>set rs. maximal_run m r sub)"
  using assms(2,3)
proof (induction steps arbitrary: k)
  case 0
  then show ?case by (simp add: run_from_end)
next
  case (Suc steps)
  let ?n = "unat (reg_outer r)" and ?f = "find_next_bit m (unat (reg_outer r)) k"
  show ?case
  proof (cases "?f = ?n")
    case True
    then show ?thesis by (simp add: run_from_end filter_next [of m k])
  next
    case False
    then have f: "?f < ?n" using find_next_bit_le [of m ?n k] by simp
    define z where "z = find_next_zero_bit m ?n (?f + 1)"
    note run = zero_run [OF find_next_bit_bit [OF f] f assms(1), folded z_def]
    have k: "k \<le> ?f" using f find_next_bit_ge [of k ?n m] by (cases "k < ?n") auto
    have max: "maximal_run m r (run_from m r k)"
      using Suc.prems(1) k f assms(1) by (intro run_from_maximal) auto
    have pages: "region_pages (run_from m r k) = [?f..<z]"
      by (simp only: region_pages_def run_from_unat z_def)
    have next_run: "uvm_va_block_next_subregion_in_mask r (Some m) (run_from m r k) = run_from m r (Suc z)"
      by (simp only: subregion_run run_from_unat z_def)
    have rf: "unat (reg_first r) \<le> k" using Suc.prems(1) by auto
    have "\<exists>rs. subregions_from steps (Some m) r (run_from m r (Suc z)) = Some rs \<and>
        concat (map region_pages rs) = filter (bit m) [Suc z..<?n] \<and> (\<forall>sub\<in>set rs. maximal_run m r sub)"
      using run k rf Suc.prems(2) by (intro Suc.IH) auto
    then obtain rs where rs: "subregions_from steps (Some m) r (run_from m r (Suc z)) = Some rs"
        "concat (map region_pages rs) = filter (bit m) [Suc z..<?n]" "\<forall>sub\<in>set rs. maximal_run m r sub"
      by blast
    have "subregions_from (Suc steps) (Some m) r (run_from m r k) = Some (run_from m r k # rs)"
      using False rs(1) by (simp add: run_from_end next_run)
    then show ?thesis
      using rs max pages filter_run [OF assms(1) f] by (simp add: z_def)
  qed
qed

lemma unat_align_down: "unat (UVM_ALIGN_DOWN x (2 ^ k)) = unat x div 2 ^ k * 2 ^ k"
  by (simp add: UVM_ALIGN_DOWN_def unat_and_not_mask)

lemma unat_align_up:
  assumes "unat x + (2 ^ k - 1) < 2 ^ 64"
  shows "unat (UVM_ALIGN_UP x (2 ^ k)) = (unat x + (2 ^ k - 1)) div 2 ^ k * 2 ^ k"
proof -
  have "(2::NvU64) ^ k - 1 = of_nat (2 ^ k - 1)" by (simp add: of_nat_diff)
  moreover have "(2::nat) ^ k - 1 < 2 ^ 64" using assms(1) by simp
  ultimately have "unat ((2::NvU64) ^ k - 1) = 2 ^ k - 1" by (simp only: unat_of_nat) (simp add: take_bit_nat_eq_self)
  then show ?thesis using assms
    by (simp add: UVM_ALIGN_UP_def unat_align_down unat_word_ariths)
qed

lemma power_ge_12: "12 \<le> k \<Longrightarrow> (2::nat) ^ k = 4096 * 2 ^ (k - 12)"
  using power_add [of "2::nat" 12 "k - 12"] by simp

lemma first_big_bounds:
  "unat (vb_start b) \<le> first_big b k" "first_big b k < unat (vb_start b) + 2 ^ k"
proof -
  let ?s = "unat (vb_start b)" and ?q = "(2::nat) ^ k"
  have "?s + (?q - 1) = first_big b k + (?s + (?q - 1)) mod ?q"
    unfolding first_big_def by (rule div_mult_mod_eq [symmetric])
  moreover have "(?s + (?q - 1)) mod ?q < ?q" by simp
  ultimately show "?s \<le> first_big b k" "first_big b k < ?s + ?q" by linarith+
qed

lemma outer_big_bounds: "outer_big b k \<le> unat (vb_end b) + 1"
  by (simp add: outer_big_def)

lemma big_multiples: "2 ^ k dvd first_big b k" "2 ^ k dvd outer_big b k"
  by (simp_all add: first_big_def outer_big_def)

lemma big_page_all:
  assumes "block_wf b" "12 \<le> k" "k \<le> 21"
  defines "r \<equiv> uvm_va_block_big_page_region_all b (2 ^ k)"
  shows "outer_big b k \<le> first_big b k \<Longrightarrow> r = \<lparr>reg_first = 0, reg_outer = 0\<rparr>"
    and "first_big b k < outer_big b k \<Longrightarrow>
      unat (reg_first r) = (first_big b k - unat (vb_start b)) div 4096 \<and>
      unat (reg_outer r) = (outer_big b k - unat (vb_start b)) div 4096"
proof -
  let ?s = "unat (vb_start b)" and ?e = "unat (vb_end b)"
  have wf: "?s \<le> ?e" "?e < ?s + 2 ^ 21" "?e < 2 ^ 63"
    using assms(1) by (auto simp: block_wf_def word_le_nat_alt)
  have k: "(2::nat) ^ k \<le> 2 ^ 21" using assms(3) by (intro power_increasing) auto
  have A: "unat (UVM_ALIGN_UP (vb_start b) (2 ^ k)) = first_big b k"
    unfolding first_big_def by (rule unat_align_up) (use wf k in simp)
  have e1: "unat (vb_end b + 1) = ?e + 1" using wf by (simp add: unat_word_ariths)
  have O: "unat (UVM_ALIGN_DOWN (vb_end b + 1) (2 ^ k)) = outer_big b k"
    by (simp add: unat_align_down outer_big_def e1)
  have r: "r = (if UVM_ALIGN_DOWN (vb_end b + 1) (2 ^ k) \<le> UVM_ALIGN_UP (vb_start b) (2 ^ k)
      then uvm_va_block_region 0 0
      else uvm_va_block_region (ucast ((UVM_ALIGN_UP (vb_start b) (2 ^ k) - vb_start b) div 4096))
             (ucast ((UVM_ALIGN_DOWN (vb_end b + 1) (2 ^ k) - vb_start b) div 4096)))"
    by (simp add: r_def uvm_va_block_big_page_region_all_def range_big_page_region_all_def Let_def)
  show "outer_big b k \<le> first_big b k \<Longrightarrow> r = \<lparr>reg_first = 0, reg_outer = 0\<rparr>"
    using A O r by (simp add: word_le_nat_alt uvm_va_block_region_def)
  assume lt: "first_big b k < outer_big b k"
  have sub: "unat (ucast ((x - vb_start b) div 4096) :: NvU16) = (unat x - ?s) div 4096"
    if "?s \<le> unat x" "unat x \<le> ?e + 1" for x
  proof -
    have "unat (x - vb_start b) = unat x - ?s" using that(1) by (simp add: unat_sub word_le_nat_alt)
    moreover have "unat x - ?s \<le> 2 ^ 21" using that wf by simp
    then have "(unat x - ?s) div 4096 \<le> 512" by (simp add: div_le_mono [of _ "2 ^ 21" 4096, simplified])
    ultimately show ?thesis by (simp add: unsigned_ucast_eq unat_div take_bit_nat_eq_self)
  qed
  show "unat (reg_first r) = (first_big b k - ?s) div 4096 \<and> unat (reg_outer r) = (outer_big b k - ?s) div 4096"
    using r lt A O sub [of "UVM_ALIGN_UP (vb_start b) (2 ^ k)"] sub [of "UVM_ALIGN_DOWN (vb_end b + 1) (2 ^ k)"]
      first_big_bounds [of b k] outer_big_bounds [of b k]
    by (simp add: word_le_nat_alt uvm_va_block_region_def)
qed

lemma unat_div_pow2:
  assumes "k < 64"
  shows "unat (uvm_div_pow2_64 n (2 ^ k)) = unat n div 2 ^ k"
proof -
  have "(2::nat) ^ k < 2 ^ 64" using assms by (intro power_strict_increasing) auto
  then have "unat (of_nat (2 ^ k) :: NvU64) = 2 ^ k" by (simp only: unat_of_nat) (simp add: take_bit_nat_eq_self)
  then have "unat ((2::NvU64) ^ k) = 2 ^ k" by simp
  then show ?thesis
    by (simp add: uvm_div_pow2_64_def drop_bit_eq_div unat_div)
qed

text \<open>
  The big page that covers a page, in page counts from the start of the block; \<open>q\<close> is the number of
  pages of a big page.
\<close>

lemma big_page_cover:
  assumes wf: "block_wf b" and k: "16 \<le> k" "k \<le> 21" and Q: "(2::nat) ^ k = 4096 * q"
    and in_all: "reg_first (uvm_va_block_big_page_region_all b (2 ^ k)) \<le> p"
      "p < reg_outer (uvm_va_block_big_page_region_all b (2 ^ k))"
  obtains a t where "first_big b k = unat (vb_start b) + 4096 * a"
    "outer_big b k = unat (vb_start b) + 4096 * (a + q * t)" "t \<le> 32"
    "unat (reg_first (uvm_va_block_big_page_region_all b (2 ^ k))) = a"
    "unat (reg_outer (uvm_va_block_big_page_region_all b (2 ^ k))) = a + q * t"
    "a \<le> unat p" "unat p < a + q * t"
proof -
  let ?r = "uvm_va_block_big_page_region_all b (2 ^ k)" and ?s = "unat (vb_start b)"
  have "(65536::nat) \<le> 2 ^ k" using k power_increasing [of 16 k "2::nat"] by simp
  then have q: "16 \<le> q" using Q by simp
  have lt: "first_big b k < outer_big b k"
    using big_page_all(1) [OF wf _ k(2)] k in_all by (fastforce simp: not_le [symmetric])
  note r = big_page_all(2) [OF wf _ k(2) lt]
  have s: "4096 dvd ?s" using wf by (auto simp: block_wf_def)
  have f: "4096 dvd first_big b k" using big_multiples(1) [of k b] by (auto simp: Q dvd_mult_left)
  then have "4096 dvd first_big b k - ?s" using s by (rule dvd_diff_nat)
  then obtain a where a: "first_big b k - ?s = 4096 * a" ..
  have "2 ^ k dvd outer_big b k - first_big b k" using big_multiples [of k b] by (intro dvd_diff_nat)
  then obtain t where t: "outer_big b k - first_big b k = 2 ^ k * t" ..
  have A: "first_big b k = ?s + 4096 * a" using a first_big_bounds [of b k] by simp
  have B: "outer_big b k = ?s + 4096 * (a + q * t)" using t A lt Q by simp
  have "unat (vb_end b) < ?s + 2097152" using wf by (simp add: block_wf_def)
  then have "?s + 4096 * (q * t) < ?s + 2097153" using B outer_big_bounds [of b k] by simp
  then have "q * t < 513" by simp
  moreover have "16 * t \<le> q * t" using q by (rule mult_le_mono1)
  ultimately have "16 * t < 513" by (rule order.strict_trans1 [rotated])
  then have "t \<le> 32" by simp
  moreover have "unat (reg_first ?r) = a" "unat (reg_outer ?r) = a + q * t"
    using r k A B by simp_all
  ultimately show ?thesis using that A B in_all by (simp add: word_le_nat_alt word_less_nat_alt)
qed

lemma big_page_index_unat:
  assumes k: "k \<le> 21" and Q: "(2::nat) ^ k = 4096 * q"
    and in_all: "reg_first (uvm_va_block_big_page_region_all b (2 ^ k)) \<le> p"
      "p < reg_outer (uvm_va_block_big_page_region_all b (2 ^ k))"
  shows "unat (uvm_va_block_big_page_index b p (2 ^ k)) =
    (unat p - unat (reg_first (uvm_va_block_big_page_region_all b (2 ^ k)))) div q"
proof -
  let ?f = "reg_first (uvm_va_block_big_page_region_all b (2 ^ k))"
  have d: "unat (p - ?f) = unat p - unat ?f" using in_all(1) by (rule unat_sub)
  have "unat (ucast (p - ?f) * 4096 :: NvU64) = (unat p - unat ?f) * 4096"
    using d unat16_less [of p]
    by (simp add: unat_word_ariths unsigned_ucast_eq take_bit_nat_eq_self)
  moreover have "(unat p - unat ?f) * 4096 div (4096 * q) = (unat p - unat ?f) div q"
    by (simp add: mult.commute [of _ 4096])
  ultimately show ?thesis using in_all k Q
    by (simp add: uvm_va_block_big_page_index_def Let_def unat_div_pow2 not_le [symmetric])
qed

lemma page_index_unat:
  assumes "block_wf b" and "unat (vb_start b) \<le> unat z" and "unat z \<le> unat (vb_end b)"
  shows "unat (uvm_va_block_cpu_page_index b z) = (unat z - unat (vb_start b)) div 4096"
proof -
  have "unat (z - vb_start b) = unat z - unat (vb_start b)" using assms(2) by (simp add: unat_sub word_le_nat_alt)
  moreover have "unat (vb_end b) < unat (vb_start b) + 2097152" using assms(1) by (simp add: block_wf_def)
  then have "unat z - unat (vb_start b) < 2097152" using assms(2,3) by linarith
  then have "(unat z - unat (vb_start b)) div 4096 < 512" by (simp add: div_less_iff_less_mult)
  ultimately show ?thesis
    by (simp add: uvm_va_block_cpu_page_index_def unsigned_ucast_eq unat_div take_bit_nat_eq_self)
qed

lemma big_page_region_unat:
  assumes wf: "block_wf b" and k: "k \<le> 21" and Q: "(2::nat) ^ k = 4096 * q"
    and A: "first_big b k = unat (vb_start b) + 4096 * a"
    and B: "outer_big b k = unat (vb_start b) + 4096 * (a + q * t)"
    and i: "unat i < t"
  defines "r \<equiv> uvm_va_block_big_page_region b i (2 ^ k)"
  shows "unat (reg_first r) = a + unat i * q" and "unat (reg_outer r) = a + unat i * q + q"
proof -
  let ?s = "unat (vb_start b)" and ?e = "unat (vb_end b)" and ?x = "uvm_va_block_big_page_addr b i (2 ^ k)"
  obtain n where n: "n = a + unat i * q" by simp
  have q: "1 \<le> q" using Q by (cases q) simp_all
  have w: "?s \<le> ?e" "?e < ?s + 2097152" "?e < 9223372036854775808"
    using wf by (simp_all add: block_wf_def word_le_nat_alt)
  have Qk: "4096 * q \<le> 2097152" using k power_increasing [of k 21 "2::nat"] Q by simp
  have "(unat i + 1) * q \<le> t * q" using i by (intro mult_le_mono1) simp
  then have "n + q \<le> a + q * t" by (simp add: n algebra_simps)
  then have top: "?s + 4096 * n + 4096 * q \<le> ?e + 1" using B outer_big_bounds [of b k] by simp
  have up: "unat (UVM_ALIGN_UP (vb_start b) (2 ^ k)) = first_big b k"
    unfolding first_big_def by (rule unat_align_up) (use w Q Qk in simp)
  have p2: "unat ((2::NvU64) ^ k) = 4096 * q"
  proof -
    have "unat (of_nat (2 ^ k) :: NvU64) = 4096 * q"
      using Qk by (simp only: unat_of_nat Q) (simp add: take_bit_nat_eq_self)
    then show ?thesis by simp
  qed
  have "unat i * (4096 * q) \<le> 4096 * n" by (simp add: n)
  then have "unat i * (4096 * q) < 18446744073709551616" using top w by linarith
  then have im: "unat (i * 2 ^ k) = unat i * (4096 * q)"
    using p2 by (simp only: unat_word_ariths) (simp add: mod_less)
  have xn: "first_big b k + unat i * (4096 * q) = ?s + 4096 * n" using A by (simp add: n)
  then have x: "unat ?x = ?s + 4096 * n"
    using top w q up im by (simp add: uvm_va_block_big_page_addr_def unat_word_ariths)
  have sum: "unat (?x + 2 ^ k) = ?s + 4096 * n + 4096 * q" using top w x p2 by (simp add: unat_word_ariths)
  then have "?x + 2 ^ k \<noteq> 0" using q by (metis add_is_0 mult_is_0 not_one_le_zero unat_0 zero_neq_numeral)
  then have y: "unat (?x + 2 ^ k - 1) = ?s + 4096 * n + 4096 * q - 1" using sum by (simp add: unat_minus_one)
  note idx = page_index_unat [OF wf]
  have x_le: "?s + 4096 * n \<le> ?e" "?s + 4096 * n + 4096 * q - 1 \<le> ?e" using top q by simp_all
  show "unat (reg_first r) = a + unat i * q"
    using idx [of ?x] x x_le(1)
    by (simp add: r_def uvm_va_block_big_page_region_def uvm_va_block_region_from_start_size_def
        uvm_va_block_region_from_start_end_def n)
  have "(?s + 4096 * n + 4096 * q - 1 - ?s) div 4096 = n + q - 1"
    using q by (cases q) simp_all
  then have last: "unat (uvm_va_block_cpu_page_index b (?x + 2 ^ k - 1)) = n + q - 1"
    using idx [of "?x + 2 ^ k - 1"] y x_le(2) q by simp
  have "n + q \<le> 512" using top w by simp
  then show "unat (reg_outer r) = a + unat i * q + q"
    using last q n
    by (simp add: r_def uvm_va_block_big_page_region_def uvm_va_block_region_from_start_size_def
        uvm_va_block_region_from_start_end_def unat_word_ariths)
qed

subsection \<open>Masks as sets of pages\<close>

lemma bit_bitmap_set: "bit (bitmap_set m s n) i \<longleftrightarrow> bit m i \<or> (s \<le> i \<and> i < s + n \<and> i < 512)"
  by (auto simp: bitmap_set_def bit_or_iff bit_push_bit_iff bit_mask_iff dest: bit_imp_le_length)

lemma bit_bitmap_clear: "bit (bitmap_clear m s n) i \<longleftrightarrow> bit m i \<and> \<not> (s \<le> i \<and> i < s + n)"
  by (auto simp: bitmap_clear_def bit_and_iff bit_not_iff bit_push_bit_iff bit_mask_iff dest: bit_imp_le_length)

lemma region_pages_mem:
  "region_wf r \<Longrightarrow> i \<in> set (region_pages r) \<longleftrightarrow> unat (reg_first r) \<le> i \<and> i < unat (reg_outer r)"
  by (simp add: region_pages_def)

lemma bit_region_fill:
  "region_wf r \<Longrightarrow> bit (uvm_page_mask_region_fill m r) i \<longleftrightarrow> bit m i \<or> i \<in> set (region_pages r)"
  by (auto simp: uvm_page_mask_region_fill_def bit_bitmap_set region_pages_def region_wf_def word_le_nat_alt)

lemma bit_region_clear:
  "region_wf r \<Longrightarrow> bit (uvm_page_mask_region_clear m r) i \<longleftrightarrow> bit m i \<and> i \<notin> set (region_pages r)"
  by (auto simp: uvm_page_mask_region_clear_def bit_bitmap_clear region_pages_def region_wf_def word_le_nat_alt)

lemma bit_region_clear_outside:
  "region_wf r \<Longrightarrow> bit (uvm_page_mask_region_clear_outside m r) i \<longleftrightarrow> bit m i \<and> i \<in> set (region_pages r)"
  by (auto simp: uvm_page_mask_region_clear_outside_def bit_bitmap_clear region_pages_def region_wf_def
      word_le_nat_alt word_less_nat_alt Let_def dest: bit_imp_le_length)

lemma region_empty_iff: "uvm_page_mask_region_empty m r \<longleftrightarrow> (\<forall>i\<in>set (region_pages r). \<not> bit m i)"
  by (auto simp: uvm_page_mask_region_empty_def find_next_bit_iff region_pages_def)

lemma region_full_iff:
  "region_wf r \<Longrightarrow> uvm_page_mask_region_full m r \<longleftrightarrow> (\<forall>i\<in>set (region_pages r). bit m i)"
  by (auto simp: uvm_page_mask_region_full_def find_next_zero_bit_def find_next_bit_iff region_pages_def
      region_wf_def bit_not_iff)

lemma bitmap_weight_split:
  "a \<le> b \<Longrightarrow> bitmap_weight m b = bitmap_weight m a + length (filter (bit m) [a..<b])"
  using upt_add_eq_append [of 0 a "b - a"] by (simp add: bitmap_weight_def)

lemma region_weight:
  assumes "reg_first r \<le> reg_outer r"
  shows "uvm_page_mask_region_weight m r = of_nat (length (filter (bit m) (region_pages r)))"
proof -
  have "unat (reg_first r) \<le> unat (reg_outer r)" using assms by (simp add: word_le_nat_alt)
  note split = bitmap_weight_split [OF this, of m]
  show ?thesis
  proof (cases "reg_first r = 0")
    case True
    then show ?thesis by (simp add: uvm_page_mask_region_weight_def region_pages_def bitmap_weight_def)
  next
    case False
    then have "0 < reg_first r" by (simp add: word_neq_0_conv)
    then show ?thesis by (simp add: uvm_page_mask_region_weight_def split region_pages_def)
  qed
qed

lemma region_weight_le:
  assumes "region_wf r"
  shows "unat (uvm_page_mask_region_weight m r) \<le> unat (reg_outer r) - unat (reg_first r)"
proof -
  have "length (filter (bit m) (region_pages r)) \<le> unat (reg_outer r) - unat (reg_first r)"
    using length_filter_le [of "bit m" "region_pages r"] by (simp add: region_pages_def)
  then show ?thesis using assms
    by (simp add: region_weight region_wf_def unat_of_nat take_bit_nat_eq_self)
qed

subsection \<open>Properties\<close>

text \<open>
  The page iteration of a region and a mask visits exactly the pages of the region that are set in
  the mask, each once and in increasing order; without a mask it visits all pages of the region.
\<close>

lemma page_iteration:
  assumes "reg_first r \<le> reg_outer r"
  shows "map unat (for_each_va_block_page_in_region_mask (Some m) r) = filter (bit m) (region_pages r) \<and>
    map unat (for_each_va_block_page_in_region_mask None r) = region_pages r"
  using assms
  by (simp add: for_each_va_block_page_in_region_mask_def uvm_va_block_first_page_in_mask_def
      pages_from_search [OF refl] pages_from_None region_pages_def)

text \<open>
  C21: The subregion iteration of a region and a mask ends, and yields the maximal runs of set pages:
  every subregion is a run of set pages that cannot be extended to either side within the region, and
  the pages of all subregions in order are the set pages of the region.
\<close>

theorem subregion_iteration:
  assumes "region_wf r"
  shows "\<exists>rs. for_each_va_block_subregion_in_mask (unat (reg_outer r)) (Some m) r = Some rs \<and>
    concat (map region_pages rs) = filter (bit m) (region_pages r) \<and> list_all (maximal_run m r) rs"
  using subregions_runs [of r "unat (reg_first r)" m "unat (reg_outer r)"] assms
  by (simp add: for_each_va_block_subregion_in_mask_def subregion_run region_wf_def region_pages_def list_all_iff)

theorem subregion_iteration_witness:
  "\<exists>rs. for_each_va_block_subregion_in_mask 5 (Some 0b101101) \<lparr>reg_first = 1, reg_outer = 5\<rparr> = Some rs \<and>
    concat (map region_pages rs) = [2, 3]"
proof -
  let ?r = "\<lparr>reg_first = 1, reg_outer = 5\<rparr> :: uvm_va_block_region_t"
  have "filter (bit (0b101101 :: uvm_page_mask_t)) (region_pages ?r) = [2, 3]"
    by (simp add: region_pages_def upt_rec)
  then show ?thesis using subregion_iteration [of ?r "0b101101"] by (auto simp: region_wf_def)
qed

text \<open>
  C22: The big page index of a page and the region of a big page are inverse to each other: for a page
  inside the big-page part of the block the index is below the maximum, and its region lies in that
  part, has the size of a big page, starts at an aligned address and contains the page; for any other
  page the index is the maximum.
\<close>

theorem big_page_roundtrip:
  assumes "block_wf b" and "16 \<le> k" and "k \<le> 21"
  shows "let all = uvm_va_block_big_page_region_all b (2 ^ k); i = uvm_va_block_big_page_index b p (2 ^ k);
      r = uvm_va_block_big_page_region b i (2 ^ k)
    in if reg_first all \<le> p \<and> p < reg_outer all
         then i < 32 \<and> uvm_va_block_region_contains_region all r \<and> reg_first r \<le> p \<and> p < reg_outer r \<and>
              unat (reg_outer r) - unat (reg_first r) = 2 ^ k div 4096 \<and>
              2 ^ k dvd unat (vb_start b) + unat (reg_first r) * 4096
       else i = 32"
proof (cases "reg_first (uvm_va_block_big_page_region_all b (2 ^ k)) \<le> p \<and>
    p < reg_outer (uvm_va_block_big_page_region_all b (2 ^ k))")
  case False
  then show ?thesis by (auto simp: uvm_va_block_big_page_index_def Let_def not_le not_less)
next
  case True
  let ?all = "uvm_va_block_big_page_region_all b (2 ^ k)"
  let ?i = "uvm_va_block_big_page_index b p (2 ^ k)" and ?q = "(2::nat) ^ (k - 12)"
  have Q: "(2::nat) ^ k = 4096 * ?q" using assms(2) by (intro power_ge_12) simp
  obtain a t where c: "first_big b k = unat (vb_start b) + 4096 * a"
      "outer_big b k = unat (vb_start b) + 4096 * (a + ?q * t)" "t \<le> 32"
      "unat (reg_first ?all) = a" "unat (reg_outer ?all) = a + ?q * t" "a \<le> unat p" "unat p < a + ?q * t"
    using big_page_cover [OF assms Q] True by blast
  have i: "unat ?i = (unat p - a) div ?q"
    using big_page_index_unat [OF assms(3) Q conjunct1 [OF True] conjunct2 [OF True]] unfolding c(4) .
  have "unat p - a < t * ?q" using c(6,7) by (simp add: mult.commute)
  then have lt: "unat ?i < t" unfolding i by (rule less_mult_imp_div_less)
  note r = big_page_region_unat [OF assms(1,3) Q c(1,2) lt]
  have pos: "unat ?i * ?q \<le> unat p - a" "unat p - a < unat ?i * ?q + ?q"
    unfolding i using dividend_less_div_times [of ?q "unat p - a"] by (simp_all add: add.commute)
  then have "a + unat ?i * ?q \<le> unat p" "unat p < a + unat ?i * ?q + ?q" using c(6) by arith+
  note pos = this
  have "(unat ?i + 1) * ?q \<le> t * ?q" using lt by (intro mult_le_mono1) simp
  then have top: "unat ?i * ?q + ?q \<le> ?q * t" by (simp add: algebra_simps)
  have "2 ^ k dvd first_big b k + unat ?i * 2 ^ k" using big_multiples(1) [of k b] by simp
  then have "2 ^ k dvd unat (vb_start b) + (a + unat ?i * ?q) * 4096" using c(1) Q by (simp add: algebra_simps)
  moreover have "?i < 32" using lt c(3) by (simp add: word_less_nat_alt)
  ultimately show ?thesis
    using True r pos top c Q
    by (simp add: Let_def uvm_va_block_region_contains_region_def word_le_nat_alt word_less_nat_alt)
qed

theorem big_page_roundtrip_witness:
  "let b = \<lparr>vb_start = 0x1000, vb_end = 0x1fffff\<rparr>; i = uvm_va_block_big_page_index b 40 0x10000;
       r = uvm_va_block_big_page_region b i 0x10000
   in block_wf b \<and> i < 32 \<and> reg_first r \<le> 40 \<and> 40 < reg_outer r"
proof -
  let ?b = "\<lparr>vb_start = 0x1000, vb_end = 0x1fffff\<rparr> :: uvm_va_block_t"
  have wf: "block_wf ?b" by (simp add: block_wf_def)
  moreover have "reg_first (uvm_va_block_big_page_region_all ?b (2 ^ 16)) \<le> 40 \<and>
      40 < reg_outer (uvm_va_block_big_page_region_all ?b (2 ^ 16))"
    by code_simp
  ultimately show ?thesis using big_page_roundtrip [OF wf, of 16 40] by (simp add: Let_def)
qed

end
