(* ===== verification/Perf_Tree.thy ===== *)
theory Perf_Tree
  imports Prelude
begin

section \<open>Counters and statistics trees\<close>

text \<open>
  \<^verbatim>\<open>uvm_perf_utils.h\<close> and \<^verbatim>\<open>uvm_perf_utils.c\<close>: the saturating
  increment, on counters of any width up to 64 bits, and the binary trees that are stored level by level in
  one array. The fields of a tree are sizes that are far from the limits of their types, as natural numbers;
  the level of an iterator is signed, as in the code. The traversal macros are the lists of the array indices
  that their loops visit.
\<close>

subsection \<open>Saturating increments\<close>

definition UVM_PERF_SATURATING_ADD :: "'a::len word \<Rightarrow> NvU64 \<Rightarrow> 'a word" where
  "UVM_PERF_SATURATING_ADD counter v =
     (let old = ucast counter :: NvU64;
          expected = ucast counter + v;
          counter = counter + ucast v
      in if ucast counter \<noteq> expected \<or> expected < old then - 1 else counter)"

definition UVM_PERF_SATURATING_INC :: "'a::len word \<Rightarrow> 'a word" where
  "UVM_PERF_SATURATING_INC counter = UVM_PERF_SATURATING_ADD counter 1"

subsection \<open>Trees\<close>

record uvm_perf_tree_t =
  leaf_count :: nat
  level_count :: nat
  node_count :: nat
  pow2_leaf_count :: nat

record uvm_perf_tree_iter_t =
  node_idx :: nat
  level_idx :: int
  level_offset :: nat

definition leaves_to_levels :: "nat \<Rightarrow> nat" where
  "leaves_to_levels n = ilog2 (roundup_pow_of_two n) + 1"

function leaves_to_nodes_loop :: "nat \<Rightarrow> nat \<Rightarrow> nat" where
  "leaves_to_nodes_loop ret leaves =
     (let ret = ret + leaves;
          leaves = (if leaves = 1 then 0 else (leaves + 1) div 2)
      in if leaves > 0 then leaves_to_nodes_loop ret leaves else ret)"
  by auto

termination by (relation "measure snd") (auto split: if_splits)

declare leaves_to_nodes_loop.simps [simp del]

definition leaves_to_nodes :: "nat \<Rightarrow> nat" where
  "leaves_to_nodes n = leaves_to_nodes_loop 0 n"

definition uvm_perf_tree_init :: "bool \<Rightarrow> nat \<Rightarrow> NV_STATUS \<times> uvm_perf_tree_t" where
  "uvm_perf_tree_init allocated n =
     (if allocated then NV_OK else NV_ERR_NO_MEMORY,
      \<lparr>leaf_count = n, level_count = leaves_to_levels n, node_count = leaves_to_nodes n,
       pow2_leaf_count = roundup_pow_of_two n\<rparr>)"

definition uvm_perf_tree_init_up_branch_traversal :: "uvm_perf_tree_t \<Rightarrow> nat \<Rightarrow> uvm_perf_tree_iter_t" where
  "uvm_perf_tree_init_up_branch_traversal tree leaf =
     \<lparr>node_idx = leaf, level_idx = int (level_count tree) - 1, level_offset = 0\<rparr>"

definition uvm_perf_tree_init_down_branch_traversal :: "uvm_perf_tree_t \<Rightarrow> nat \<Rightarrow> uvm_perf_tree_iter_t" where
  "uvm_perf_tree_init_down_branch_traversal tree leaf =
     \<lparr>node_idx = leaf, level_idx = 0, level_offset = node_count tree - 1\<rparr>"

definition uvm_perf_tree_iter_leaf_to_index_in_level :: "uvm_perf_tree_t \<Rightarrow> uvm_perf_tree_iter_t \<Rightarrow> nat" where
  "uvm_perf_tree_iter_leaf_to_index_in_level tree iter =
     node_idx iter div 2 ^ nat (int (level_count tree) - 1 - level_idx iter)"

definition uvm_perf_tree_level_node_count :: "uvm_perf_tree_t \<Rightarrow> int \<Rightarrow> nat" where
  "uvm_perf_tree_level_node_count tree l =
     (if l < 0 \<or> l \<ge> int (level_count tree) then 0
      else 2 ^ nat l - (pow2_leaf_count tree - leaf_count tree) div 2 ^ nat (int (level_count tree) - 1 - l))"

definition UVM_PERF_TREE_ITER_BRANCH_CURRENT :: "uvm_perf_tree_t \<Rightarrow> uvm_perf_tree_iter_t \<Rightarrow> nat option" where
  "UVM_PERF_TREE_ITER_BRANCH_CURRENT tree iter =
     (if level_idx iter < 0 \<or> level_idx iter \<ge> int (level_count tree) then None
      else Some (level_offset iter + uvm_perf_tree_iter_leaf_to_index_in_level tree iter))"

definition UVM_PERF_TREE_ROOT :: "uvm_perf_tree_t \<Rightarrow> nat" where
  "UVM_PERF_TREE_ROOT tree = node_count tree - 1"

definition uvm_perf_tree_traverse_up :: "uvm_perf_tree_t \<Rightarrow> uvm_perf_tree_iter_t \<Rightarrow> uvm_perf_tree_iter_t" where
  "uvm_perf_tree_traverse_up tree iter =
     iter\<lparr>level_offset := level_offset iter + uvm_perf_tree_level_node_count tree (level_idx iter),
          level_idx := level_idx iter - 1\<rparr>"

definition uvm_perf_tree_traverse_down :: "uvm_perf_tree_t \<Rightarrow> uvm_perf_tree_iter_t \<Rightarrow> uvm_perf_tree_iter_t" where
  "uvm_perf_tree_traverse_down tree iter =
     iter\<lparr>level_offset := level_offset iter - uvm_perf_tree_level_node_count tree (level_idx iter + 1),
          level_idx := level_idx iter + 1\<rparr>"

function traverse_up_from :: "uvm_perf_tree_t \<Rightarrow> uvm_perf_tree_iter_t \<Rightarrow> nat list" where
  "traverse_up_from tree iter =
     (case UVM_PERF_TREE_ITER_BRANCH_CURRENT tree iter of
        None \<Rightarrow> []
      | Some i \<Rightarrow> i # traverse_up_from tree (uvm_perf_tree_traverse_up tree iter))"
  by auto

termination
  by (relation "measure (\<lambda>(tree, iter). nat (level_idx iter + 1))")
    (auto simp: UVM_PERF_TREE_ITER_BRANCH_CURRENT_def uvm_perf_tree_traverse_up_def split: if_splits)

function traverse_down_from :: "uvm_perf_tree_t \<Rightarrow> uvm_perf_tree_iter_t \<Rightarrow> nat list" where
  "traverse_down_from tree iter =
     (case UVM_PERF_TREE_ITER_BRANCH_CURRENT tree iter of
        None \<Rightarrow> []
      | Some i \<Rightarrow> i # traverse_down_from tree (uvm_perf_tree_traverse_down tree iter))"
  by auto

termination
  by (relation "measure (\<lambda>(tree, iter). nat (int (level_count tree) - level_idx iter))")
    (auto simp: UVM_PERF_TREE_ITER_BRANCH_CURRENT_def uvm_perf_tree_traverse_down_def split: if_splits)

declare traverse_up_from.simps [simp del] traverse_down_from.simps [simp del]

definition uvm_perf_tree_traverse_leaf_to_root :: "uvm_perf_tree_t \<Rightarrow> nat \<Rightarrow> nat list" where
  "uvm_perf_tree_traverse_leaf_to_root tree leaf =
     traverse_up_from tree (uvm_perf_tree_init_up_branch_traversal tree leaf)"

definition uvm_perf_tree_traverse_root_to_leaf :: "uvm_perf_tree_t \<Rightarrow> nat \<Rightarrow> nat list" where
  "uvm_perf_tree_traverse_root_to_leaf tree leaf =
     traverse_down_from tree (uvm_perf_tree_init_down_branch_traversal tree leaf)"

subsection \<open>Specifications\<close>

text \<open>
  Level \<open>j\<close> counted from the leaves: its number of nodes, the array index of its first node, and the
  index of the ancestor of a leaf in it.
\<close>

definition nodes_at :: "nat \<Rightarrow> nat \<Rightarrow> nat" where
  "nodes_at n j = (n + (2 ^ j - 1)) div 2 ^ j"

definition offset_at :: "nat \<Rightarrow> nat \<Rightarrow> nat" where
  "offset_at n j = (\<Sum>i<j. nodes_at n i)"

definition ancestor :: "nat \<Rightarrow> nat \<Rightarrow> nat \<Rightarrow> nat" where
  "ancestor n leaf j = offset_at n j + leaf div 2 ^ j"

subsection \<open>Specifications\<close>

definition iter_at :: "nat \<Rightarrow> nat \<Rightarrow> nat \<Rightarrow> uvm_perf_tree_iter_t" where
  "iter_at n leaf j =
     \<lparr>node_idx = leaf, level_idx = int (leaves_to_levels n) - 1 - int j, level_offset = offset_at n j\<rparr>"

subsection \<open>Lemmas on the levels\<close>

lemma nodes_at_0 [simp]: "nodes_at n 0 = n"
  by (simp add: nodes_at_def)

lemma nodes_at_Suc: "nodes_at n (Suc j) = (nodes_at n j + 1) div 2"
proof -
  have "x div q + 1 = (x + q) div q" if "q \<noteq> 0" for x q :: nat using that by (simp add: div_add_self2)
  then have "(nodes_at n j + 1) div 2 = ((n + (2 ^ j - 1) + 2 ^ j) div 2 ^ j) div 2"
    unfolding nodes_at_def by (metis power_not_zero zero_neq_numeral)
  also have "\<dots> = (n + (2 ^ j - 1) + 2 ^ j) div (2 ^ j * 2)" by (simp only: div_mult2_eq)
  also have "n + (2 ^ j - 1) + 2 ^ j = n + (2 ^ Suc j - 1)" using one_le_power [of "2::nat" j] by simp
  finally show ?thesis by (simp add: nodes_at_def mult.commute)
qed

lemma levels_bounds:
  assumes "0 < n"
  shows "n \<le> 2 ^ (leaves_to_levels n - 1)" "j < leaves_to_levels n - 1 \<Longrightarrow> 2 ^ j < n"
proof -
  let ?L = "leaves_to_levels n - 1"
  have L: "?L = (if n \<le> 1 then 0 else Suc (ilog2 (n - 1)))" by (simp add: leaves_to_levels_def ilog2_roundup)
  have b: "1 < n \<Longrightarrow> 2 ^ ilog2 (n - 1) \<le> n - 1 \<and> n - 1 < 2 ^ Suc (ilog2 (n - 1))" by (rule ilog2_bounds) simp
  show "n \<le> 2 ^ ?L" using L b assms by (cases "n = 1") auto
  assume "j < ?L"
  then have n: "1 < n" and j: "j \<le> ilog2 (n - 1)" using L by (auto split: if_splits)
  have "(2::nat) ^ j \<le> 2 ^ ilog2 (n - 1)" using j by (rule power_increasing) simp
  then show "2 ^ j < n" using b [OF n] n by linarith
qed

lemma nodes_at_pos: "0 < n \<Longrightarrow> 0 < nodes_at n j"
  by (simp add: nodes_at_def div_greater_zero_iff)

lemma nodes_at_eq_1: "0 < n \<Longrightarrow> nodes_at n j = 1 \<longleftrightarrow> n \<le> 2 ^ j"
proof -
  assume n: "0 < n"
  let ?q = "(2::nat) ^ j"
  have "nodes_at n j \<le> 1 \<longleftrightarrow> n + (?q - 1) < 2 * ?q"
  proof -
    have "x div q \<le> 1 \<longleftrightarrow> x < 2 * q" if "0 < q" for x q :: nat
      using that div_less_iff_less_mult [of q x 2] by auto
    then show ?thesis unfolding nodes_at_def by simp
  qed
  also have "\<dots> \<longleftrightarrow> n \<le> ?q" using one_le_power [of "2::nat" j] by arith
  finally show ?thesis using nodes_at_pos [OF n, of j] by linarith
qed

lemma leaves_to_nodes_levels:
  assumes n: "0 < n" and L: "leaves_to_levels n = Suc m" and j: "j \<le> m"
  shows "leaves_to_nodes_loop ret (nodes_at n j) = ret + (\<Sum>i=j..m. nodes_at n i)"
  using j
proof (induction "m - j" arbitrary: j ret)
  case 0
  then have "j = m" by simp
  moreover have "nodes_at n m = 1" using nodes_at_eq_1 [OF n] levels_bounds(1) [OF n] L by simp
  ultimately show ?case by (simp add: leaves_to_nodes_loop.simps)
next
  case (Suc x)
  then have lt: "j < m" by simp
  have "nodes_at n j \<noteq> 1" using nodes_at_eq_1 [OF n, of j] levels_bounds(2) [OF n, of j] L lt by simp
  then have "leaves_to_nodes_loop ret (nodes_at n j) =
      leaves_to_nodes_loop (ret + nodes_at n j) (nodes_at n (Suc j))"
    using nodes_at_pos [OF n, of "Suc j"] by (subst leaves_to_nodes_loop.simps) (simp add: nodes_at_Suc Let_def)
  also have "\<dots> = ret + nodes_at n j + (\<Sum>i=Suc j..m. nodes_at n i)"
    using Suc lt by (intro Suc.hyps(1)) auto
  also have "\<dots> = ret + (\<Sum>i=j..m. nodes_at n i)" using lt by (simp add: sum.atLeast_Suc_atMost)
  finally show ?case .
qed

lemma node_count_levels:
  assumes "0 < n"
  shows "leaves_to_nodes n = offset_at n (leaves_to_levels n)"
proof -
  obtain m where m: "leaves_to_levels n = Suc m" by (simp add: leaves_to_levels_def)
  have "leaves_to_nodes n = (\<Sum>i=0..m. nodes_at n i)"
    using leaves_to_nodes_levels [OF assms m, of 0 0] by (simp add: leaves_to_nodes_def)
  then show ?thesis by (simp add: m offset_at_def lessThan_Suc_atMost atLeast0AtMost)
qed

lemma pow2_levels: "0 < n \<Longrightarrow> roundup_pow_of_two n = 2 ^ (leaves_to_levels n - 1)"
  by (simp add: leaves_to_levels_def ilog2_roundup roundup_pow_of_two_def)

text \<open>The number of nodes of a level that the code computes.\<close>

lemma ceil_complement:
  assumes "n \<le> a * q" "0 < (q::nat)"
  shows "a - (a * q - n) div q = (n + (q - 1)) div q"
proof -
  obtain d where d: "a * q = n + d" using assms(1) le_Suc_ex by blast
  have le: "d div q \<le> a" using d assms(2) by (metis div_le_mono div_mult_self_is_m le_add2)
  obtain c where c: "a = d div q + c" using le le_Suc_ex by blast
  have r: "d mod q < q" using assms(2) by simp
  have "d div q * q + c * q = n + (d div q * q + d mod q)" using d c by (simp add: algebra_simps)
  then have "c * q = n + d mod q" by linarith
  then have "n + (q - 1) = c * q + (q - 1 - d mod q)" using r by linarith
  moreover have "q - 1 - d mod q < q" using assms(2) by simp
  ultimately have "(n + (q - 1)) div q = c" using assms(2) by (metis div_less div_mult_self3 less_not_refl add_0_right)
  then show ?thesis using d c by simp
qed

lemma level_node_count_eq:
  assumes n: "0 < n" and tree: "snd (uvm_perf_tree_init ok n) = tree" and j: "j < leaves_to_levels n"
  shows "uvm_perf_tree_level_node_count tree (int (leaves_to_levels n) - 1 - int j) = nodes_at n j"
proof -
  let ?L = "leaves_to_levels n"
  have l: "nat (int ?L - 1 - int j) = ?L - 1 - j" using j by simp
  have p: "(2::nat) ^ (?L - 1) = 2 ^ (?L - 1 - j) * 2 ^ j" using j by (simp flip: power_add)
  have "uvm_perf_tree_level_node_count tree (int ?L - 1 - int j) =
      2 ^ (?L - 1 - j) - (2 ^ (?L - 1 - j) * 2 ^ j - n) div 2 ^ j"
    using j l by (simp add: tree [symmetric] uvm_perf_tree_init_def uvm_perf_tree_level_node_count_def
        pow2_levels [OF n] p [simplified])
  also have "\<dots> = nodes_at n j"
    unfolding nodes_at_def by (rule ceil_complement) (use levels_bounds(1) [OF n] p in simp_all)
  finally show ?thesis .
qed

lemma leaf_index_bound: "leaf < n \<Longrightarrow> leaf div 2 ^ j < nodes_at n j"
proof -
  assume lt: "leaf < n"
  have "leaf div 2 ^ j < (leaf + 2 ^ j) div 2 ^ j" by (simp add: div_add_self2)
  also have "\<dots> \<le> (n + (2 ^ j - 1)) div 2 ^ j" using lt by (intro div_le_mono) simp
  finally show ?thesis by (simp add: nodes_at_def)
qed

lemma offset_at_Suc [simp]: "offset_at n (Suc j) = offset_at n j + nodes_at n j"
  by (simp add: offset_at_def)

lemma offset_at_mono: "i \<le> j \<Longrightarrow> offset_at n i \<le> offset_at n j"
  unfolding offset_at_def by (rule sum_mono2) auto

lemma ancestor_less: "leaf < n \<Longrightarrow> i < j \<Longrightarrow> ancestor n leaf i < ancestor n leaf j"
  using leaf_index_bound [of leaf n i] offset_at_mono [of "Suc i" j n] by (simp add: ancestor_def)

subsection \<open>Traversals visit the ancestors\<close>

lemma tree_fields:
  assumes "snd (uvm_perf_tree_init ok n) = tree"
  shows "leaf_count tree = n" "level_count tree = leaves_to_levels n" "node_count tree = leaves_to_nodes n"
  using assms by (auto simp: uvm_perf_tree_init_def)

lemma current_at:
  assumes "snd (uvm_perf_tree_init ok n) = tree"
  shows "UVM_PERF_TREE_ITER_BRANCH_CURRENT tree (iter_at n leaf j) =
    (if j < leaves_to_levels n then Some (ancestor n leaf j) else None)"
  by (auto simp: UVM_PERF_TREE_ITER_BRANCH_CURRENT_def iter_at_def tree_fields [OF assms]
      uvm_perf_tree_iter_leaf_to_index_in_level_def ancestor_def)

lemma traverse_up_at:
  assumes "0 < n" "snd (uvm_perf_tree_init ok n) = tree" "j < leaves_to_levels n"
  shows "uvm_perf_tree_traverse_up tree (iter_at n leaf j) = iter_at n leaf (Suc j)"
  using level_node_count_eq [OF assms] by (simp add: uvm_perf_tree_traverse_up_def iter_at_def)

lemma traverse_down_at:
  assumes "0 < n" "snd (uvm_perf_tree_init ok n) = tree" "Suc j < leaves_to_levels n"
  shows "uvm_perf_tree_traverse_down tree (iter_at n leaf (Suc j)) = iter_at n leaf j"
  using level_node_count_eq [OF assms(1,2), of j] assms(3)
  by (simp add: uvm_perf_tree_traverse_down_def iter_at_def algebra_simps)

lemma up_from_at:
  assumes "0 < n" "snd (uvm_perf_tree_init ok n) = tree"
  shows "traverse_up_from tree (iter_at n leaf j) = map (ancestor n leaf) [j..<leaves_to_levels n]"
proof (induction "leaves_to_levels n - j" arbitrary: j)
  case 0
  then show ?case by (subst traverse_up_from.simps) (simp add: current_at [OF assms(2)])
next
  case (Suc x)
  then have j: "j < leaves_to_levels n" by simp
  have "traverse_up_from tree (iter_at n leaf (Suc j)) = map (ancestor n leaf) [Suc j..<leaves_to_levels n]"
    using Suc.hyps(2) by (intro Suc.hyps(1)) simp
  then show ?case using j
    by (subst traverse_up_from.simps) (simp add: current_at [OF assms(2)] traverse_up_at [OF assms] upt_conv_Cons)
qed

lemma down_from_at:
  assumes "0 < n" "snd (uvm_perf_tree_init ok n) = tree"
  shows "j < leaves_to_levels n \<Longrightarrow>
    traverse_down_from tree (iter_at n leaf j) = map (ancestor n leaf) (rev [0..<Suc j])"
proof (induction j)
  case 0
  have "UVM_PERF_TREE_ITER_BRANCH_CURRENT tree (uvm_perf_tree_traverse_down tree (iter_at n leaf 0)) = None"
    by (simp add: UVM_PERF_TREE_ITER_BRANCH_CURRENT_def uvm_perf_tree_traverse_down_def iter_at_def
        tree_fields [OF assms(2)])
  then have "traverse_down_from tree (uvm_perf_tree_traverse_down tree (iter_at n leaf 0)) = []"
    by (subst traverse_down_from.simps) simp
  then show ?case using 0 by (subst traverse_down_from.simps) (simp add: current_at [OF assms(2)])
next
  case (Suc j)
  have "traverse_down_from tree (iter_at n leaf j) = map (ancestor n leaf) (rev [0..<Suc j])"
    using Suc by simp
  then show ?case using Suc.prems
    by (subst traverse_down_from.simps) (simp add: current_at [OF assms(2)] traverse_down_at [OF assms])
qed

lemma leaf_to_root_eq:
  assumes "0 < n" "snd (uvm_perf_tree_init ok n) = tree"
  shows "uvm_perf_tree_traverse_leaf_to_root tree leaf = map (ancestor n leaf) [0..<leaves_to_levels n]"
proof -
  have "uvm_perf_tree_init_up_branch_traversal tree leaf = iter_at n leaf 0"
    by (simp add: uvm_perf_tree_init_up_branch_traversal_def iter_at_def tree_fields [OF assms(2)] offset_at_def)
  then show ?thesis using up_from_at [OF assms, of leaf 0]
    by (simp add: uvm_perf_tree_traverse_leaf_to_root_def)
qed

lemma root_offset:
  assumes "0 < n"
  shows "leaves_to_nodes n - 1 = offset_at n (leaves_to_levels n - 1)"
proof -
  obtain m where m: "leaves_to_levels n = Suc m" by (simp add: leaves_to_levels_def)
  have "nodes_at n m = 1" using nodes_at_eq_1 [OF assms] levels_bounds(1) [OF assms] m by simp
  then show ?thesis by (simp add: node_count_levels [OF assms] m)
qed

lemma root_to_leaf_eq:
  assumes "0 < n" "snd (uvm_perf_tree_init ok n) = tree"
  shows "uvm_perf_tree_traverse_root_to_leaf tree leaf = map (ancestor n leaf) (rev [0..<leaves_to_levels n])"
proof -
  obtain m where m: "leaves_to_levels n = Suc m" by (simp add: leaves_to_levels_def)
  have "uvm_perf_tree_init_down_branch_traversal tree leaf = iter_at n leaf m"
    using root_offset [OF assms(1)] m
    by (simp add: uvm_perf_tree_init_down_branch_traversal_def iter_at_def tree_fields [OF assms(2)])
  then show ?thesis using down_from_at [OF assms, of m leaf] m
    by (simp add: uvm_perf_tree_traverse_root_to_leaf_def)
qed

text \<open>Saturation: what the two comparisons of the macro detect.\<close>

lemma saturating_cases:
  fixes c :: "'a::len word"
  assumes "LENGTH('a) \<le> 64"
  shows "unat c + unat v < 2 ^ LENGTH('a) \<Longrightarrow> UVM_PERF_SATURATING_ADD c v = c + ucast v \<and>
      unat (c + ucast v) = unat c + unat v"
    and "2 ^ LENGTH('a) \<le> unat c + unat v \<Longrightarrow> UVM_PERF_SATURATING_ADD c v = - 1"
proof -
  let ?n = "LENGTH('a)"
  have n: "(2::nat) ^ ?n \<le> 2 ^ 64" using assms by (intro power_increasing) auto
  have c: "unat c < 2 ^ ?n" by (rule unsigned_less)
  have c64: "unat c < 2 ^ 64" using c n by (rule less_le_trans)
  then have uc: "unat (ucast c :: NvU64) = unat c" by (simp add: unsigned_ucast_eq take_bit_nat_eq_self)
  have v: "unat v < 2 ^ 64" using unsigned_less [of v, where 'a = nat] by simp
  have uv: "unat (ucast v :: 'a word) = unat v mod 2 ^ ?n" by (simp add: unsigned_ucast_eq take_bit_eq_mod)
  have sum: "unat (c + ucast v) = (unat c + unat v) mod 2 ^ ?n"
    by (simp add: unat_word_ariths uv mod_add_right_eq)
  have usum: "unat (ucast (c + ucast v) :: NvU64) = (unat c + unat v) mod 2 ^ ?n"
  proof -
    have "unat (c + ucast v) < 2 ^ ?n" by (rule unsigned_less)
    then have "unat (c + ucast v) < 2 ^ 64" using n by (rule less_le_trans)
    then show ?thesis using sum by (simp add: unsigned_ucast_eq take_bit_nat_eq_self)
  qed
  have e: "unat (ucast c + v :: NvU64) = (unat c + unat v) mod 2 ^ 64"
    by (simp add: unat_word_ariths uc)
  show "UVM_PERF_SATURATING_ADD c v = c + ucast v \<and> unat (c + ucast v) = unat c + unat v"
    if lt: "unat c + unat v < 2 ^ ?n"
  proof -
    have "unat c + unat v < 2 ^ 64" using lt n by linarith
    then have "ucast (c + ucast v) = (ucast c + v :: NvU64)" "\<not> ucast c + v < (ucast c :: NvU64)"
      using usum e lt by (simp_all add: word_unat_eq_iff word_less_nat_alt uc)
    then show ?thesis using sum lt by (simp add: UVM_PERF_SATURATING_ADD_def Let_def)
  qed
  show "UVM_PERF_SATURATING_ADD c v = - 1" if ge: "2 ^ ?n \<le> unat c + unat v"
  proof (cases "unat c + unat v < 2 ^ 64")
    case True
    have "(unat c + unat v) mod 2 ^ ?n < unat c + unat v" 
      using ge mod_less_divisor [of "2 ^ ?n" "unat c + unat v"] by (rule less_le_trans [rotated]) simp
    then have "ucast (c + ucast v) \<noteq> (ucast c + v :: NvU64)"
      using usum e True by (auto simp: word_unat_eq_iff)
    then show ?thesis by (simp add: UVM_PERF_SATURATING_ADD_def Let_def)
  next
    case False
    have "(unat c + unat v) mod 2 ^ 64 = unat c + unat v - 2 ^ 64"
      using False v c64 by (simp add: le_mod_geq)
    then have "ucast c + v < (ucast c :: NvU64)" using e v False by (simp add: word_less_nat_alt uc)
    then show ?thesis by (simp add: UVM_PERF_SATURATING_ADD_def Let_def)
  qed
qed

subsection \<open>Properties\<close>

text \<open>
  C23: A traversal of a statistics tree from a leaf to the root visits one node per level, starts at
  the leaf and ends at the root, stays inside the node array and moves strictly forward in it; the
  traversal from the root to the leaf visits the same nodes backwards.
\<close>

theorem tree_traversal:
  assumes "leaf < n"
  shows "let tree = snd (uvm_perf_tree_init ok n); up = uvm_perf_tree_traverse_leaf_to_root tree leaf
    in length up = level_count tree \<and> hd up = leaf \<and> last up = UVM_PERF_TREE_ROOT tree \<and>
       sorted_wrt (<) up \<and> list_all (\<lambda>i. i < node_count tree) up \<and>
       uvm_perf_tree_traverse_root_to_leaf tree leaf = rev up"
proof -
  obtain tree where tree: "snd (uvm_perf_tree_init ok n) = tree" by simp
  have n: "0 < n" using assms by simp
  obtain m where m: "leaves_to_levels n = Suc m" by (simp add: leaves_to_levels_def)
  note up = leaf_to_root_eq [OF n tree, of leaf] and down = root_to_leaf_eq [OF n tree, of leaf]
  have "nodes_at n m = 1" using nodes_at_eq_1 [OF n] levels_bounds(1) [OF n] m by simp
  then have "leaf div 2 ^ m = 0" using leaf_index_bound [OF assms, of m] by simp
  then have root: "ancestor n leaf m = leaves_to_nodes n - 1"
    using root_offset [OF n] m by (simp add: ancestor_def)
  have bound: "ancestor n leaf j < leaves_to_nodes n" if "j < Suc m" for j
    using leaf_index_bound [OF assms, of j] offset_at_mono [of "Suc j" "Suc m" n] that m
    by (simp add: ancestor_def node_count_levels [OF n])
  show ?thesis
    using up down bound root m ancestor_less [OF assms]
    by (auto simp: Let_def tree tree_fields [OF tree] UVM_PERF_TREE_ROOT_def list_all_iff rev_map last_map
        hd_map ancestor_def offset_at_def sorted_wrt_map sorted_wrt_iff_nth_less simp del: upt_Suc)
qed

theorem tree_traversal_witness:
  "let tree = snd (uvm_perf_tree_init True 5); up = uvm_perf_tree_traverse_leaf_to_root tree 4
   in length up = level_count tree \<and> hd up = 4 \<and> last up = UVM_PERF_TREE_ROOT tree"
  using tree_traversal [of 4 5 True] by (simp add: Let_def)

text \<open>
  The saturating increment of a counter of any width up to 64 bits adds exactly and stops at the
  largest value of the counter, also when the 64-bit sum itself overflows.
\<close>

lemma saturating_add:
  assumes "LENGTH('a) \<le> 64"
  shows "unat (UVM_PERF_SATURATING_ADD (c :: 'a::len word) v) = min (unat c + unat v) (2 ^ LENGTH('a) - 1)"
proof (cases "unat c + unat v < 2 ^ LENGTH('a)")
  case True
  then show ?thesis using saturating_cases(1) [OF assms True] by simp
next
  case False
  then have "UVM_PERF_SATURATING_ADD c v = - 1" using saturating_cases(2) [OF assms, of c v] by simp
  moreover have "unat (- 1 :: 'a word) = 2 ^ LENGTH('a) - 1" by (simp add: unsigned_minus_1_eq_mask mask_eq_exp_minus_1)
  ultimately show ?thesis using False by simp
qed

end
