(* ===== verification/Mem_Hooks.thy ===== *)
theory Mem_Hooks
  imports Page_Mask Transition_Validator Struct_Ops
begin

section \<open>Memory policies\<close>

text \<open>
  The memory-policy side of \<^verbatim>\<open>uvm_bpf_struct_ops.c\<close>: the operations table, its
  registration, the kernel functions a policy may call, and the wrappers that run a policy and hand its
  request to the driver. As for the scheduler, a policy is an interaction tree: it calls a kernel function and
  goes on with the code it got, or returns. What it may read is an argument of it; what it may write is only
  the request that the kernel functions record. The table is parametric in the type of the allocator state
  that the eviction callbacks see.
\<close>

subsection \<open>Types\<close>

record uvm_perf_prefetch_bitmap_tree_t =
  bt_pages :: uvm_page_mask_t
  bt_offset :: uvm_page_index_t
  bt_leaf_count :: NvU16
  bt_level_count :: NvU8

datatype prefetch_policy =
    Prefetch_Return "32 word"
  | Set_Prefetch_Region NvU64 NvU64 "int \<Rightarrow> prefetch_policy"

datatype reorder_policy =
    Reorder_Return "32 word"
  | Request_Reorder NvU64 NvU64 "int \<Rightarrow> reorder_policy"

record 'pmm gpu_mem_ops =
  gpu_test_trigger :: "(NvU8 list \<Rightarrow> nat \<Rightarrow> int) option"
  gpu_page_prefetch ::
    "(uvm_page_index_t \<Rightarrow> uvm_perf_prefetch_bitmap_tree_t \<Rightarrow> uvm_va_block_region_t \<Rightarrow> prefetch_policy) option"
  gpu_page_prefetch_iter ::
    "(uvm_perf_prefetch_bitmap_tree_t \<Rightarrow> uvm_va_block_region_t \<Rightarrow> uvm_va_block_region_t \<Rightarrow> NvU32 \<Rightarrow>
      prefetch_policy) option"
  gpu_block_activate :: "('pmm \<Rightarrow> NvU64 \<Rightarrow> reorder_policy) option"
  gpu_block_access :: "('pmm \<Rightarrow> NvU64 \<Rightarrow> reorder_policy) option"
  gpu_evict_prepare :: "('pmm \<Rightarrow> NvU64 list \<Rightarrow> NvU64 list \<Rightarrow> int) option"

type_synonym mem_ops_slot = "NvU64 option"
type_synonym 'pmm mem_ops_mem = "NvU64 \<Rightarrow> 'pmm gpu_mem_ops"

abbreviation (input) UVM_BPF_ACTION_DEFAULT :: "32 word" where
  "UVM_BPF_ACTION_DEFAULT \<equiv> 0"

subsection \<open>Kernel functions\<close>

definition bpf_gpu_set_prefetch_region ::
  "nv_gpu_prefetch_decision_t option \<Rightarrow> NvU64 \<Rightarrow> NvU64 \<Rightarrow> int \<times> nv_gpu_prefetch_decision_t option" where
  "bpf_gpu_set_prefetch_region decision first outer =
     (case decision of
        None \<Rightarrow> (transition_code NV_GPU_TRANSITION_REJECT_IDENTITY, None)
      | Some d \<Rightarrow>
          (case nv_gpu_transition_record_prefetch d first outer of
             (result, d) \<Rightarrow> (transition_code result, Some d)))"

definition bpf_gpu_request_reorder ::
  "nv_gpu_pmm_request_t option \<Rightarrow> NvU64 \<Rightarrow> NvU64 \<Rightarrow> int \<times> nv_gpu_pmm_request_t option" where
  "bpf_gpu_request_reorder request destination position =
     (case request of
        None \<Rightarrow> (transition_code NV_GPU_TRANSITION_REJECT_IDENTITY, None)
      | Some r \<Rightarrow>
          (case nv_gpu_transition_record_pmm r destination position of
             (result, r) \<Rightarrow> (transition_code result, Some r)))"

primrec run_prefetch_policy ::
  "prefetch_policy \<Rightarrow> nv_gpu_prefetch_decision_t option \<Rightarrow> 32 word \<times> nv_gpu_prefetch_decision_t option" where
  "run_prefetch_policy (Prefetch_Return r) d = (r, d)"
| "run_prefetch_policy (Set_Prefetch_Region f u k) d =
     run_prefetch_policy (k (fst (bpf_gpu_set_prefetch_region d f u)))
       (snd (bpf_gpu_set_prefetch_region d f u))"

primrec run_reorder_policy ::
  "reorder_policy \<Rightarrow> nv_gpu_pmm_request_t option \<Rightarrow> 32 word \<times> nv_gpu_pmm_request_t option" where
  "run_reorder_policy (Reorder_Return r) q = (r, q)"
| "run_reorder_policy (Request_Reorder d p k) q =
     run_reorder_policy (k (fst (bpf_gpu_request_reorder q d p))) (snd (bpf_gpu_request_reorder q d p))"

subsection \<open>Registration and initialisation\<close>

definition gpu_mem_ops_btf_struct_access :: "int \<Rightarrow> int \<Rightarrow> int" where
  "gpu_mem_ops_btf_struct_access off sz = - EACCES"

definition gpu_mem_ops_reg :: "NvU64 \<Rightarrow> mem_ops_slot \<Rightarrow> int \<times> mem_ops_slot" where
  "gpu_mem_ops_reg kdata slot =
     (case cmpxchg slot None (Some kdata) of (old, slot) \<Rightarrow>
        if old \<noteq> None then (- EEXIST, slot) else (0, slot))"

definition gpu_mem_ops_unreg :: "NvU64 \<Rightarrow> mem_ops_slot \<Rightarrow> mem_ops_slot" where
  "gpu_mem_ops_unreg kdata slot = snd (cmpxchg slot (Some kdata) None)"

text \<open>A failure to offer the kernel functions to probes is reported but does not stop the module.\<close>

definition uvm_bpf_struct_ops_init :: "int \<Rightarrow> int \<Rightarrow> int \<Rightarrow> bool \<Rightarrow> int" where
  "uvm_bpf_struct_ops_init register_kfuncs register_kprobe_kfuncs register_struct_ops proc_created =
     (let ret = register_kfuncs
      in if ret \<noteq> 0 then ret
         else
           (let ret = register_kprobe_kfuncs; ret = register_struct_ops
            in if ret \<noteq> 0 then ret else if \<not> proc_created then - ENOMEM else 0))"

text \<open>
  The write handler of the trigger file: its result, and what the callback was called with. The
  buffer has 64 bytes, the last one for the terminator.
\<close>

definition trigger_write ::
  "'pmm mem_ops_mem \<Rightarrow> mem_ops_slot \<Rightarrow> bool \<Rightarrow> NvU8 list \<Rightarrow> int \<times> (NvU8 list \<times> nat \<times> int) option" where
  "trigger_write mem slot copied buf =
     (let count = length buf;
          count = (if count \<ge> 64 then 63 else count)
      in if \<not> copied then (- EFAULT, None)
         else
           (let kbuf = take count buf @ [0]
            in (int count,
                case slot of
                  None \<Rightarrow> None
                | Some ops \<Rightarrow>
                    map_option (\<lambda>callback. (kbuf, count, callback kbuf count)) (gpu_test_trigger (mem ops)))))"

subsection \<open>Wrappers\<close>

definition uvm_bpf_call_gpu_page_prefetch ::
  "'pmm mem_ops_mem \<Rightarrow> mem_ops_slot \<Rightarrow> uvm_page_index_t \<Rightarrow> uvm_perf_prefetch_bitmap_tree_t \<Rightarrow>
     uvm_va_block_region_t \<Rightarrow> NvS64 \<times> nv_gpu_prefetch_decision_t" where
  "uvm_bpf_call_gpu_page_prefetch mem slot page_index tree max_region =
     (case slot of
        None \<Rightarrow> (scast UVM_BPF_ACTION_DEFAULT, prefetch_decision_init)
      | Some ops \<Rightarrow>
          (case gpu_page_prefetch (mem ops) of
             None \<Rightarrow> (scast UVM_BPF_ACTION_DEFAULT, prefetch_decision_init)
           | Some callback \<Rightarrow>
               (case run_prefetch_policy (callback page_index tree max_region) (Some prefetch_decision_init) of
                  (ret, decision) \<Rightarrow> (scast ret, the decision))))"

definition uvm_bpf_call_gpu_page_prefetch_iter ::
  "'pmm mem_ops_mem \<Rightarrow> mem_ops_slot \<Rightarrow> uvm_perf_prefetch_bitmap_tree_t \<Rightarrow> uvm_va_block_region_t \<Rightarrow>
     uvm_va_block_region_t \<Rightarrow> NvU32 \<Rightarrow> NvS64 \<times> nv_gpu_prefetch_decision_t" where
  "uvm_bpf_call_gpu_page_prefetch_iter mem slot tree max_region current_region counter =
     (case slot of
        None \<Rightarrow> (scast UVM_BPF_ACTION_DEFAULT, prefetch_decision_init)
      | Some ops \<Rightarrow>
          (case gpu_page_prefetch_iter (mem ops) of
             None \<Rightarrow> (scast UVM_BPF_ACTION_DEFAULT, prefetch_decision_init)
           | Some callback \<Rightarrow>
               (case run_prefetch_policy (callback tree max_region current_region counter)
                       (Some prefetch_decision_init) of
                  (ret, decision) \<Rightarrow> (scast ret, the decision))))"

text \<open>The eviction callback gets the two lists to look at; it has nothing to record a request in.\<close>

definition uvm_bpf_call_gpu_evict_prepare ::
  "'pmm mem_ops_mem \<Rightarrow> mem_ops_slot \<Rightarrow> 'pmm \<Rightarrow> NvU64 list \<Rightarrow> NvU64 list \<Rightarrow> int option" where
  "uvm_bpf_call_gpu_evict_prepare mem slot pmm used unused =
     (case slot of
        None \<Rightarrow> None
      | Some ops \<Rightarrow> map_option (\<lambda>callback. callback pmm used unused) (gpu_evict_prepare (mem ops)))"

subsection \<open>What a policy asks for\<close>

primrec requested_regions ::
  "prefetch_policy \<Rightarrow> nv_gpu_prefetch_decision_t option \<Rightarrow> (NvU64 \<times> NvU64) list" where
  "requested_regions (Prefetch_Return r) d = []"
| "requested_regions (Set_Prefetch_Region f u k) d =
     (f, u) # requested_regions (k (fst (bpf_gpu_set_prefetch_region d f u)))
                (snd (bpf_gpu_set_prefetch_region d f u))"

primrec requested_orders :: "reorder_policy \<Rightarrow> nv_gpu_pmm_request_t option \<Rightarrow> (NvU64 \<times> NvU64) list" where
  "requested_orders (Reorder_Return r) q = []"
| "requested_orders (Request_Reorder d p k) q =
     (d, p) # requested_orders (k (fst (bpf_gpu_request_reorder q d p)))
                (snd (bpf_gpu_request_reorder q d p))"

subsection \<open>Lemmas\<close>

interpretation mem_slot: struct_ops_slot gpu_mem_ops_reg gpu_mem_ops_unreg
  by unfold_locales (auto simp: gpu_mem_ops_reg_def gpu_mem_ops_unreg_def cmpxchg_def)

lemma run_prefetch_policy_Some:
  "snd (run_prefetch_policy p (Some d)) =
     Some (fold (\<lambda>(f, u) d. snd (nv_gpu_transition_record_prefetch d f u)) (requested_regions p (Some d)) d)"
  by (induction p arbitrary: d) (auto simp: bpf_gpu_set_prefetch_region_def split: prod.splits)

lemma run_reorder_policy_Some:
  "snd (run_reorder_policy p (Some q)) =
     Some (fold (\<lambda>(d, a) q. snd (nv_gpu_transition_record_pmm q d a)) (requested_orders p (Some q)) q)"
  by (induction p arbitrary: q) (auto simp: bpf_gpu_request_reorder_def split: prod.splits)

end
