(* ===== verification/Rb_Tree.thy ===== *)
theory Rb_Tree
  imports Prelude "HOL-Library.Tree"
begin

section \<open>Ordered trees\<close>

text \<open>
  \<^verbatim>\<open>uvm_rb_tree.c\<close>: trees of nodes with unique 64-bit keys, and the parts of the Linux
  red-black trees that they and the range trees use. A tree is a binary tree of node addresses beside the list
  of the same nodes in key order; the keys are in the memory. Linking a node
  (\<^verbatim>\<open>rb_link_node\<close>) overwrites the child pointer of its parent. The rebalancing of the
  kernel (\<^verbatim>\<open>rb_insert_color\<close>, \<^verbatim>\<open>rb_erase\<close>) is a parameter:
  \<open>rb_laws\<close> says that it keeps the order of the nodes and that erasing takes the node out.
\<close>

subsection \<open>The trees of the kernel\<close>

record 'p rb_ops =
  rb_insert_color :: "'p \<Rightarrow> 'p tree \<Rightarrow> 'p tree"
  rb_erase :: "'p \<Rightarrow> 'p tree \<Rightarrow> 'p tree"

definition rb_laws :: "'p rb_ops \<Rightarrow> bool" where
  "rb_laws rb \<longleftrightarrow>
     (\<forall>p t. inorder (rb_insert_color rb p t) = inorder t) \<and>
     (\<forall>p t. distinct (inorder t) \<longrightarrow> inorder (rb_erase rb p t) = removeAll p (inorder t))"

datatype rb_side = Rb_Left | Rb_Right

fun rb_link_node :: "'p \<Rightarrow> 'p \<Rightarrow> rb_side \<Rightarrow> 'p tree \<Rightarrow> 'p tree" where
  "rb_link_node n parent side Leaf = Leaf"
| "rb_link_node n parent side (Node l x r) =
     (if x = parent then
        (case side of
           Rb_Left \<Rightarrow> Node (Node Leaf n Leaf) x r
         | Rb_Right \<Rightarrow> Node l x (Node Leaf n Leaf))
      else Node (rb_link_node n parent side l) x (rb_link_node n parent side r))"

text \<open>
  The descent from the root, on nodes that stand for the interval from \<open>lo\<close> to \<open>hi\<close>:
  the node at which it stops, and the last one it passed.
\<close>

fun rb_descend ::
  "('p \<Rightarrow> NvU64) \<Rightarrow> ('p \<Rightarrow> NvU64) \<Rightarrow> NvU64 \<Rightarrow> 'p option \<Rightarrow> 'p tree \<Rightarrow> 'p option \<times> 'p option" where
  "rb_descend lo hi addr parent Leaf = (None, parent)"
| "rb_descend lo hi addr parent (Node l node r) =
     (if addr < lo node then rb_descend lo hi addr (Some node) l
      else if addr > hi node then rb_descend lo hi addr (Some node) r
      else (Some node, parent))"

subsection \<open>Trees with keys\<close>

type_synonym 'p rb_mem = "'p \<Rightarrow> NvU64"

record 'p uvm_rb_tree_t =
  rb_root :: "'p tree"
  rb_head :: "'p list"

definition uvm_rb_tree_init :: "'p uvm_rb_tree_t" where
  "uvm_rb_tree_init = \<lparr>rb_root = Leaf, rb_head = []\<rparr>"

definition uvm_rb_tree_first :: "'p uvm_rb_tree_t \<Rightarrow> 'p option" where
  "uvm_rb_tree_first t = list_first (rb_head t)"

definition uvm_rb_tree_prev :: "'p uvm_rb_tree_t \<Rightarrow> 'p \<Rightarrow> 'p option" where
  "uvm_rb_tree_prev t n = list_prev n (rb_head t)"

definition uvm_rb_tree_next :: "'p uvm_rb_tree_t \<Rightarrow> 'p \<Rightarrow> 'p option" where
  "uvm_rb_tree_next t n = list_next n (rb_head t)"

definition uvm_rb_tree_empty :: "'p uvm_rb_tree_t \<Rightarrow> bool" where
  "uvm_rb_tree_empty t \<longleftrightarrow> rb_head t = []"

text \<open>The node with the key, its parent or the place for a new one, and the next node in key order.\<close>

definition uvm_rb_tree_find_node ::
  "'p rb_mem \<Rightarrow> 'p uvm_rb_tree_t \<Rightarrow> NvU64 \<Rightarrow> 'p option \<times> 'p option \<times> 'p option" where
  "uvm_rb_tree_find_node key t k =
     (case rb_descend key key k None (rb_root t) of (node, parent) \<Rightarrow>
        (node, parent,
         case node of
           Some n \<Rightarrow> uvm_rb_tree_next t n
         | None \<Rightarrow>
             (case parent of
                None \<Rightarrow> None
              | Some p \<Rightarrow> if key p > k then Some p else uvm_rb_tree_next t p)))"

definition uvm_rb_tree_insert ::
  "'p rb_ops \<Rightarrow> 'p rb_mem \<Rightarrow> 'p uvm_rb_tree_t \<Rightarrow> 'p \<Rightarrow> NV_STATUS \<times> 'p uvm_rb_tree_t" where
  "uvm_rb_tree_insert rb key t node =
     (case uvm_rb_tree_find_node key t (key node) of (match, parent, _) \<Rightarrow>
        if match \<noteq> None then (NV_ERR_IN_USE, t)
        else
          (case parent of
             None \<Rightarrow>
               (NV_OK, \<lparr>rb_root = rb_insert_color rb node (Node Leaf node Leaf),
                        rb_head = list_add node (rb_head t)\<rparr>)
           | Some p \<Rightarrow>
               if key node < key p then
                 (NV_OK, \<lparr>rb_root = rb_insert_color rb node (rb_link_node node p Rb_Left (rb_root t)),
                          rb_head = list_insert_before node p (rb_head t)\<rparr>)
               else
                 (NV_OK, \<lparr>rb_root = rb_insert_color rb node (rb_link_node node p Rb_Right (rb_root t)),
                          rb_head = list_insert_after node p (rb_head t)\<rparr>)))"

definition uvm_rb_tree_remove :: "'p rb_ops \<Rightarrow> 'p uvm_rb_tree_t \<Rightarrow> 'p \<Rightarrow> 'p uvm_rb_tree_t" where
  "uvm_rb_tree_remove rb t node =
     \<lparr>rb_root = rb_erase rb node (rb_root t), rb_head = list_del node (rb_head t)\<rparr>"

definition uvm_rb_tree_find :: "'p rb_mem \<Rightarrow> 'p uvm_rb_tree_t \<Rightarrow> NvU64 \<Rightarrow> 'p option" where
  "uvm_rb_tree_find key t k = fst (uvm_rb_tree_find_node key t k)"

subsection \<open>Specifications\<close>

text \<open>Nodes in order: their intervals are not empty, disjoint and increasing.\<close>

definition nodes_ordered :: "('p \<Rightarrow> NvU64) \<Rightarrow> ('p \<Rightarrow> NvU64) \<Rightarrow> 'p list \<Rightarrow> bool" where
  "nodes_ordered lo hi ns \<longleftrightarrow> list_all (\<lambda>n. lo n \<le> hi n) ns \<and> sorted_wrt (\<lambda>a b. hi a < lo b) ns"

definition rb_tree_wf :: "'p rb_mem \<Rightarrow> 'p uvm_rb_tree_t \<Rightarrow> bool" where
  "rb_tree_wf key t \<longleftrightarrow> inorder (rb_root t) = rb_head t \<and> nodes_ordered key key (rb_head t)"

text \<open>
  The nodes below and above \<open>a\<close>, and that linking \<open>n\<close> at \<open>p\<close> puts it
  between them.
\<close>

definition link_place ::
  "('p \<Rightarrow> NvU64) \<Rightarrow> ('p \<Rightarrow> NvU64) \<Rightarrow> NvU64 \<Rightarrow> 'p \<Rightarrow> 'p \<Rightarrow> 'p tree \<Rightarrow> 'p list \<Rightarrow> 'p list \<Rightarrow> bool" where
  "link_place lo hi a n p t xs ys \<longleftrightarrow>
     inorder t = xs @ ys \<and> (\<forall>x\<in>set xs. hi x < a) \<and> (\<forall>y\<in>set ys. a < lo y) \<and>
     (ys \<noteq> [] \<and> p = hd ys \<and> inorder (rb_link_node n p Rb_Left t) = xs @ n # ys \<or>
      xs \<noteq> [] \<and> p = last xs \<and> inorder (rb_link_node n p Rb_Right t) = xs @ n # ys)"

text \<open>A tree without balancing, to see that the laws can hold.\<close>

fun plain_join :: "'p tree \<Rightarrow> 'p tree \<Rightarrow> 'p tree" where
  "plain_join Leaf t = t"
| "plain_join (Node l x r) t = Node l x (plain_join r t)"

fun plain_erase :: "'p \<Rightarrow> 'p tree \<Rightarrow> 'p tree" where
  "plain_erase p Leaf = Leaf"
| "plain_erase p (Node l x r) =
     (if x = p then plain_join (plain_erase p l) (plain_erase p r)
      else Node (plain_erase p l) x (plain_erase p r))"

definition plain_rb :: "'p rb_ops" where
  "plain_rb = \<lparr>rb_insert_color = (\<lambda>p t. t), rb_erase = plain_erase\<rparr>"

subsection \<open>Lemmas on descents\<close>

lemma nodes_ordered_append:
  "nodes_ordered lo hi (xs @ ys) \<longleftrightarrow>
     nodes_ordered lo hi xs \<and> nodes_ordered lo hi ys \<and> (\<forall>x\<in>set xs. \<forall>y\<in>set ys. hi x < lo y)"
  by (auto simp: nodes_ordered_def sorted_wrt_append)

lemma nodes_ordered_Cons:
  "nodes_ordered lo hi (x # xs) \<longleftrightarrow>
     lo x \<le> hi x \<and> nodes_ordered lo hi xs \<and> (\<forall>y\<in>set xs. hi x < lo y)"
  by (auto simp: nodes_ordered_def)

lemma nodes_ordered_Nil [simp]: "nodes_ordered lo hi []"
  by (simp add: nodes_ordered_def)

lemma nodes_ordered_distinct: "nodes_ordered lo hi xs \<Longrightarrow> distinct xs"
  by (induction xs) (auto simp: nodes_ordered_Cons dest: leD)

lemma nodes_ordered_removeAll: "nodes_ordered lo hi xs \<Longrightarrow> nodes_ordered lo hi (removeAll n xs)"
  by (auto simp: nodes_ordered_def list_all_iff removeAll_filter_not_eq sorted_wrt_filter)

lemma rb_colorD: "rb_laws rb \<Longrightarrow> inorder (rb_insert_color rb p t) = inorder t"
  by (simp add: rb_laws_def)

lemma rb_eraseD: "rb_laws rb \<Longrightarrow> distinct (inorder t) \<Longrightarrow> inorder (rb_erase rb p t) = removeAll p (inorder t)"
  by (simp add: rb_laws_def)

lemma rb_link_notin: "parent \<notin> set_tree t \<Longrightarrow> rb_link_node n parent side t = t"
  by (induction t) auto

lemma rb_descend_Some:
  assumes "nodes_ordered lo hi (inorder t)"
  shows "fst (rb_descend lo hi a q t) = Some x \<longleftrightarrow> x \<in> set_tree t \<and> lo x \<le> a \<and> a \<le> hi x"
  using assms
proof (induction t arbitrary: q)
  case Leaf
  then show ?case by simp
next
  case (Node l y r)
  then have o: "nodes_ordered lo hi (inorder l)" "nodes_ordered lo hi (inorder r)" "lo y \<le> hi y"
    "\<And>z. z \<in> set_tree l \<Longrightarrow> hi z < lo y" "\<And>z. z \<in> set_tree r \<Longrightarrow> hi y < lo z"
    by (auto simp: nodes_ordered_append nodes_ordered_Cons)
  show ?case
    using o(3) o(4) [of x] o(5) [of x] by (auto simp: Node.IH o(1,2))
qed

lemma rb_descend_None:
  assumes "nodes_ordered lo hi (inorder t)" and "rb_descend lo hi a q t = (None, p)" and "t \<noteq> Leaf"
  shows "\<exists>p' xs ys. p = Some p' \<and> link_place lo hi a n p' t xs ys"
  using assms
proof (induction t arbitrary: q)
  case Leaf
  then show ?case by simp
next
  case (Node l y r)
  then have o: "nodes_ordered lo hi (inorder l)" "nodes_ordered lo hi (inorder r)" "lo y \<le> hi y"
    "\<And>z. z \<in> set_tree l \<Longrightarrow> hi z < lo y" "\<And>z. z \<in> set_tree r \<Longrightarrow> hi y < lo z"
    by (auto simp: nodes_ordered_append nodes_ordered_Cons)
  have d: "distinct (inorder (Node l y r))" using nodes_ordered_distinct [OF Node.prems(1)] .
  consider (left) "a < lo y" | (right) "hi y < a" using Node.prems(2) by (auto split: if_splits)
  then show ?case
  proof cases
    case left
    have above: "\<And>z. z \<in> set_tree r \<Longrightarrow> a < lo z" using left o(3,5) by (meson le_less_trans less_trans)
    show ?thesis
    proof (cases "l = Leaf")
      case True
      then show ?thesis
        using left above Node.prems(2)
        by (intro exI [of _ y] exI [of _ "[]"] exI [of _ "y # inorder r"]) (auto simp: link_place_def)
    next
      case False
      have "rb_descend lo hi a (Some y) l = (None, p)" using Node.prems(2) left by simp
      then obtain p' xs ys where p: "p = Some p'" "link_place lo hi a n p' l xs ys"
        using Node.IH(1) [OF o(1) _ False] by blast
      have "p' \<in> set_tree l" using p(2) by (auto simp: link_place_def simp flip: set_inorder)
      then have "p' \<noteq> y" "p' \<notin> set_tree r" using d by auto
      then have "link_place lo hi a n p' (Node l y r) xs (ys @ y # inorder r)"
        using p(2) left above by (auto simp: link_place_def rb_link_notin)
      then show ?thesis using p(1) by blast
    qed
  next
    case right
    have below: "\<And>z. z \<in> set_tree l \<Longrightarrow> hi z < a" using right o(3,4) by (meson less_le_trans less_trans)
    have "\<not> a < lo y" using right o(3) by auto
    note right = right this
    show ?thesis
    proof (cases "r = Leaf")
      case True
      then show ?thesis
        using right below Node.prems(2)
        by (intro exI [of _ y] exI [of _ "inorder l @ [y]"] exI [of _ "[]"]) (auto simp: link_place_def)
    next
      case False
      have "rb_descend lo hi a (Some y) r = (None, p)" using Node.prems(2) right by simp
      then obtain p' xs ys where p: "p = Some p'" "link_place lo hi a n p' r xs ys"
        using Node.IH(2) [OF o(2) _ False] by blast
      have "p' \<in> set_tree r" using p(2) by (auto simp: link_place_def simp flip: set_inorder)
      then have "p' \<noteq> y" "p' \<notin> set_tree l" using d by auto
      then have "link_place lo hi a n p' (Node l y r) (inorder l @ y # xs) ys"
        using p(2) right below by (auto simp: link_place_def rb_link_notin)
      then show ?thesis using p(1) by blast
    qed
  qed
qed

lemma inorder_plain_join [simp]: "inorder (plain_join l r) = inorder l @ inorder r"
  by (induction l) auto

lemma inorder_plain_erase: "inorder (plain_erase p t) = removeAll p (inorder t)"
  by (induction t) auto

lemma plain_rb_laws: "rb_laws plain_rb"
  by (simp add: rb_laws_def plain_rb_def inorder_plain_erase)

lemma link_place_cases:
  assumes "link_place lo hi a n p t xs ys"
  obtains (above) vs where "ys = p # vs" "inorder (rb_link_node n p Rb_Left t) = xs @ n # ys"
  | (below) us where "xs = us @ [p]" "inorder (rb_link_node n p Rb_Right t) = xs @ n # ys"
  using assms unfolding link_place_def by (metis append_butlast_last_id list.collapse)

lemma link_place_list:
  assumes "link_place lo hi a n p t xs ys" and "nodes_ordered lo hi (inorder t)"
  shows "if a < lo p
    then inorder (rb_link_node n p Rb_Left t) = xs @ n # ys \<and> list_insert_before n p (inorder t) = xs @ n # ys
    else inorder (rb_link_node n p Rb_Right t) = xs @ n # ys \<and> list_insert_after n p (inorder t) = xs @ n # ys"
proof -
  have i: "inorder t = xs @ ys" "\<forall>x\<in>set xs. hi x < a" "\<forall>y\<in>set ys. a < lo y"
    using assms(1) by (auto simp: link_place_def)
  have le: "\<And>x. x \<in> set xs \<Longrightarrow> lo x \<le> hi x" and d: "distinct (xs @ ys)"
    using assms(2) i(1) nodes_ordered_distinct [OF assms(2)] by (auto simp: nodes_ordered_def list_all_iff)
  from assms(1) show ?thesis
  proof (cases rule: link_place_cases)
    case above
    then show ?thesis using i d by (simp add: list_insert_before_split)
  next
    case below
    then have "hi p < a" "lo p \<le> hi p" using i(2) le by auto
    then show ?thesis using below i(1) d by (auto simp: list_insert_after_split)
  qed
qed

subsection \<open>Lemmas on keyed trees\<close>

lemma rb_find_Some:
  assumes "rb_tree_wf key t"
  shows "uvm_rb_tree_find key t k = Some n \<longleftrightarrow> n \<in> set (rb_head t) \<and> key n = k"
  using assms rb_descend_Some [of key key "rb_root t" k None n]
  by (auto simp: uvm_rb_tree_find_def uvm_rb_tree_find_node_def rb_tree_wf_def set_inorder split: prod.splits
      simp flip: set_inorder)

lemma rb_find_None:
  assumes "rb_tree_wf key t"
  shows "uvm_rb_tree_find key t k = None \<longleftrightarrow> (\<forall>n\<in>set (rb_head t). key n \<noteq> k)"
  using rb_find_Some [OF assms, of k] by (metis not_None_eq)

lemma rb_insert_new:
  assumes "rb_laws rb" and "rb_tree_wf key t" and "uvm_rb_tree_find key t (key n) = None"
  shows "\<exists>t' xs ys. uvm_rb_tree_insert rb key t n = (NV_OK, t') \<and> rb_head t = xs @ ys \<and>
    rb_head t' = xs @ n # ys \<and> rb_tree_wf key t'"
proof -
  have o: "nodes_ordered key key (inorder (rb_root t))" and h: "inorder (rb_root t) = rb_head t"
    using assms(2) by (auto simp: rb_tree_wf_def)
  note color = rb_colorD [OF assms(1)]
  obtain p where d: "rb_descend key key (key n) None (rb_root t) = (None, p)"
    using assms(3) by (cases "rb_descend key key (key n) None (rb_root t)")
      (auto simp: uvm_rb_tree_find_def uvm_rb_tree_find_node_def)
  show ?thesis
  proof (cases "rb_root t = Leaf")
    case True
    then show ?thesis
      using h d by (intro exI [of _ "[]"] exI)
        (auto simp: uvm_rb_tree_insert_def uvm_rb_tree_find_node_def color rb_tree_wf_def
          nodes_ordered_def list_add_def)
  next
    case False
    obtain p' xs ys where p: "p = Some p'" and l: "link_place key key (key n) n p' (rb_root t) xs ys"
      using rb_descend_None [OF o d False] by blast
    have wf: "nodes_ordered key key (xs @ n # ys)" and x: "rb_head t = xs @ ys"
      using l o h by (auto simp: link_place_def nodes_ordered_append nodes_ordered_Cons)
    show ?thesis
      using link_place_list [OF l o] wf x d p h
      by (auto simp: uvm_rb_tree_insert_def uvm_rb_tree_find_node_def color rb_tree_wf_def split: if_splits)
  qed
qed

subsection \<open>Properties\<close>

text \<open>
  C24: A keyed tree is a dictionary from keys to nodes, whatever the rebalancing does within its laws:
  inserting a node fails exactly if its key is taken, and then changes nothing; otherwise it adds the
  node under its key. Removing a node of the tree takes its key out. Both keep the tree and the sorted
  list of its nodes consistent.
\<close>

theorem rb_tree_dictionary:
  assumes "rb_laws rb" and "rb_tree_wf key t"
  shows "(case uvm_rb_tree_insert rb key t n of (status, t') \<Rightarrow>
      if uvm_rb_tree_find key t (key n) \<noteq> None then status = NV_ERR_IN_USE \<and> t' = t
      else status = NV_OK \<and> rb_tree_wf key t' \<and>
        uvm_rb_tree_find key t' = (uvm_rb_tree_find key t)(key n \<mapsto> n)) \<and>
    (n \<in> set (rb_head t) \<longrightarrow>
      rb_tree_wf key (uvm_rb_tree_remove rb t n) \<and>
      uvm_rb_tree_find key (uvm_rb_tree_remove rb t n) = (uvm_rb_tree_find key t)(key n := None))"
proof (intro conjI impI)
  show "case uvm_rb_tree_insert rb key t n of (status, t') \<Rightarrow>
      if uvm_rb_tree_find key t (key n) \<noteq> None then status = NV_ERR_IN_USE \<and> t' = t
      else status = NV_OK \<and> rb_tree_wf key t' \<and>
        uvm_rb_tree_find key t' = (uvm_rb_tree_find key t)(key n \<mapsto> n)"
  proof (cases "uvm_rb_tree_find key t (key n) = None")
    case True
    obtain t' xs ys where i: "uvm_rb_tree_insert rb key t n = (NV_OK, t')" "rb_head t = xs @ ys"
        "rb_head t' = xs @ n # ys" "rb_tree_wf key t'"
      using rb_insert_new [OF assms True] by blast
    have "uvm_rb_tree_find key t' k = ((uvm_rb_tree_find key t)(key n \<mapsto> n)) k" for k
      using i True by (intro option_eqI)
        (auto simp: rb_find_Some [OF assms(2)] rb_find_Some [OF i(4)] rb_find_None [OF assms(2)])
    then show ?thesis using i True by auto
  next
    case False
    then show ?thesis
      by (auto simp: uvm_rb_tree_insert_def uvm_rb_tree_find_def split: prod.splits)
  qed
next
  assume n: "n \<in> set (rb_head t)"
  let ?t = "uvm_rb_tree_remove rb t n"
  have d: "distinct (rb_head t)" using assms(2) nodes_ordered_distinct by (auto simp: rb_tree_wf_def)
  then show wf: "rb_tree_wf key ?t"
    using assms by (simp add: rb_tree_wf_def uvm_rb_tree_remove_def list_del_def rb_eraseD nodes_ordered_removeAll)
  have h: "set (rb_head ?t) = set (rb_head t) - {n}" by (simp add: uvm_rb_tree_remove_def)
  have uniq: "\<And>m. m \<in> set (rb_head t) \<Longrightarrow> key m = key n \<Longrightarrow> m = n"
    using rb_find_Some [OF assms(2), of "key n"] n by (metis option.inject)
  show "uvm_rb_tree_find key ?t = (uvm_rb_tree_find key t)(key n := None)"
  proof
    fix k
    show "uvm_rb_tree_find key ?t k = ((uvm_rb_tree_find key t)(key n := None)) k"
      using uniq n by (intro option_eqI)
        (auto simp: rb_find_Some [OF assms(2)] rb_find_Some [OF wf] h)
  qed
qed

theorem rb_tree_dictionary_witness:
  "let key = (\<lambda>n. n * 10); t = snd (uvm_rb_tree_insert plain_rb key uvm_rb_tree_init (7 :: NvU64))
   in uvm_rb_tree_find key t 70 = Some 7"
proof -
  let ?key = "\<lambda>n :: NvU64. n * 10"
  have wf: "rb_tree_wf ?key uvm_rb_tree_init" by (simp add: rb_tree_wf_def uvm_rb_tree_init_def)
  have "uvm_rb_tree_find ?key uvm_rb_tree_init 70 = None"
    unfolding rb_find_None [OF wf] by (simp add: uvm_rb_tree_init_def)
  then show ?thesis
    using rb_tree_dictionary [OF plain_rb_laws wf, of 7] by (auto simp: Let_def split: prod.splits)
qed

end
