(* ===== verification/Range_Tree.thy ===== *)
theory Range_Tree
  imports Rb_Tree
begin

section \<open>Range trees\<close>

text \<open>
  \<^verbatim>\<open>uvm_range_tree.c\<close> and \<^verbatim>\<open>uvm_range_tree.h\<close>: trees of
  disjoint address ranges with inclusive ends, over the ordered trees of \<^verbatim>\<open>Rb_Tree\<close>. A
  node is an address into a memory that holds the ends of its range; operations that change a node return the
  new memory. The iteration macro is the list of the nodes that its loop visits.
\<close>

subsection \<open>Model\<close>

record uvm_range_tree_node_t =
  rn_start :: NvU64
  rn_end :: NvU64

type_synonym 'p range_mem = "'p \<Rightarrow> uvm_range_tree_node_t"

record 'p uvm_range_tree_t =
  rt_root :: "'p tree"
  rt_head :: "'p list"

abbreviation (input) ULLONG_MAX :: NvU64 where
  "ULLONG_MAX \<equiv> - 1"

definition uvm_ranges_overlap :: "NvU64 \<Rightarrow> NvU64 \<Rightarrow> NvU64 \<Rightarrow> NvU64 \<Rightarrow> bool" where
  "uvm_ranges_overlap a_start a_end b_start b_end \<longleftrightarrow> a_end \<ge> b_start \<and> b_end \<ge> a_start"

definition range_nodes_overlap :: "'p range_mem \<Rightarrow> 'p \<Rightarrow> 'p \<Rightarrow> bool" where
  "range_nodes_overlap mem a b =
     uvm_ranges_overlap (rn_start (mem a)) (rn_end (mem a)) (rn_start (mem b)) (rn_end (mem b))"

definition uvm_range_tree_prev :: "'p uvm_range_tree_t \<Rightarrow> 'p \<Rightarrow> 'p option" where
  "uvm_range_tree_prev t n = list_prev n (rt_head t)"

definition uvm_range_tree_next :: "'p uvm_range_tree_t \<Rightarrow> 'p \<Rightarrow> 'p option" where
  "uvm_range_tree_next t n = list_next n (rt_head t)"

definition uvm_range_tree_empty :: "'p uvm_range_tree_t \<Rightarrow> bool" where
  "uvm_range_tree_empty t \<longleftrightarrow> rt_head t = []"

definition uvm_range_tree_last :: "'p uvm_range_tree_t \<Rightarrow> 'p option" where
  "uvm_range_tree_last t = (if rt_head t = [] then None else list_last (rt_head t))"

definition uvm_range_tree_node_size :: "'p range_mem \<Rightarrow> 'p \<Rightarrow> NvU64" where
  "uvm_range_tree_node_size mem n = rn_end (mem n) - rn_start (mem n) + 1"

text \<open>The node that contains the address, the place for a new one, and the next node.\<close>

definition range_node_find ::
  "'p range_mem \<Rightarrow> 'p uvm_range_tree_t \<Rightarrow> NvU64 \<Rightarrow> 'p option \<times> 'p option \<times> 'p option" where
  "range_node_find mem t addr =
     (case rb_descend (rn_start \<circ> mem) (rn_end \<circ> mem) addr None (rt_root t) of (node, parent) \<Rightarrow>
        (node, parent,
         case node of
           Some n \<Rightarrow> uvm_range_tree_next t n
         | None \<Rightarrow>
             (case parent of
                None \<Rightarrow> None
              | Some p \<Rightarrow> if rn_start (mem p) > addr then Some p else uvm_range_tree_next t p)))"

definition uvm_range_tree_init :: "'p uvm_range_tree_t" where
  "uvm_range_tree_init = \<lparr>rt_root = Leaf, rt_head = []\<rparr>"

definition uvm_range_tree_add ::
  "'p rb_ops \<Rightarrow> 'p range_mem \<Rightarrow> 'p uvm_range_tree_t \<Rightarrow> 'p \<Rightarrow> NV_STATUS \<times> 'p uvm_range_tree_t" where
  "uvm_range_tree_add rb mem t node =
     (case range_node_find mem t (rn_start (mem node)) of (match, parent, _) \<Rightarrow>
        if match \<noteq> None then (NV_ERR_UVM_ADDRESS_IN_USE, t)
        else
          (case parent of
             None \<Rightarrow>
               (NV_OK, \<lparr>rt_root = rb_insert_color rb node (Node Leaf node Leaf),
                        rt_head = list_add node (rt_head t)\<rparr>)
           | Some p \<Rightarrow>
               if range_nodes_overlap mem node p then (NV_ERR_UVM_ADDRESS_IN_USE, t)
               else if rn_start (mem node) < rn_start (mem p) then
                 (NV_OK, \<lparr>rt_root = rb_insert_color rb node (rb_link_node node p Rb_Left (rt_root t)),
                          rt_head = list_insert_before node p (rt_head t)\<rparr>)
               else
                 (case uvm_range_tree_next t p of
                    Some next \<Rightarrow>
                      if range_nodes_overlap mem node next then (NV_ERR_UVM_ADDRESS_IN_USE, t)
                      else
                        (NV_OK, \<lparr>rt_root = rb_insert_color rb node (rb_link_node node p Rb_Right (rt_root t)),
                                 rt_head = list_insert_after node p (rt_head t)\<rparr>)
                  | None \<Rightarrow>
                      (NV_OK, \<lparr>rt_root = rb_insert_color rb node (rb_link_node node p Rb_Right (rt_root t)),
                               rt_head = list_insert_after node p (rt_head t)\<rparr>))))"

definition uvm_range_tree_remove :: "'p rb_ops \<Rightarrow> 'p uvm_range_tree_t \<Rightarrow> 'p \<Rightarrow> 'p uvm_range_tree_t" where
  "uvm_range_tree_remove rb t node =
     \<lparr>rt_root = rb_erase rb node (rt_root t), rt_head = list_del node (rt_head t)\<rparr>"

definition uvm_range_tree_shrink_node :: "'p range_mem \<Rightarrow> 'p \<Rightarrow> NvU64 \<Rightarrow> NvU64 \<Rightarrow> 'p range_mem" where
  "uvm_range_tree_shrink_node mem node new_start new_end =
     mem(node := \<lparr>rn_start = new_start, rn_end = new_end\<rparr>)"

text \<open>The status is only asserted in the code; it is returned here.\<close>

definition uvm_range_tree_split ::
  "'p rb_ops \<Rightarrow> 'p range_mem \<Rightarrow> 'p uvm_range_tree_t \<Rightarrow> 'p \<Rightarrow> 'p \<Rightarrow>
     NV_STATUS \<times> 'p range_mem \<times> 'p uvm_range_tree_t" where
  "uvm_range_tree_split rb mem t existing new =
     (let mem = mem(new := (mem new)\<lparr>rn_end := rn_end (mem existing)\<rparr>);
          mem = mem(existing := (mem existing)\<lparr>rn_end := rn_start (mem new) - 1\<rparr>)
      in case uvm_range_tree_add rb mem t new of (status, t) \<Rightarrow> (status, mem, t))"

definition uvm_range_tree_merge_prev ::
  "'p rb_ops \<Rightarrow> 'p range_mem \<Rightarrow> 'p uvm_range_tree_t \<Rightarrow> 'p \<Rightarrow>
     'p option \<times> 'p range_mem \<times> 'p uvm_range_tree_t" where
  "uvm_range_tree_merge_prev rb mem t node =
     (case uvm_range_tree_prev t node of
        None \<Rightarrow> (None, mem, t)
      | Some prev \<Rightarrow>
          if rn_end (mem prev) \<noteq> rn_start (mem node) - 1 then (None, mem, t)
          else
            (Some prev, mem(node := (mem node)\<lparr>rn_start := rn_start (mem prev)\<rparr>),
             uvm_range_tree_remove rb t prev))"

definition uvm_range_tree_merge_next ::
  "'p rb_ops \<Rightarrow> 'p range_mem \<Rightarrow> 'p uvm_range_tree_t \<Rightarrow> 'p \<Rightarrow>
     'p option \<times> 'p range_mem \<times> 'p uvm_range_tree_t" where
  "uvm_range_tree_merge_next rb mem t node =
     (case uvm_range_tree_next t node of
        None \<Rightarrow> (None, mem, t)
      | Some next \<Rightarrow>
          if rn_start (mem next) \<noteq> rn_end (mem node) + 1 then (None, mem, t)
          else
            (Some next, mem(node := (mem node)\<lparr>rn_end := rn_end (mem next)\<rparr>),
             uvm_range_tree_remove rb t next))"

definition uvm_range_tree_find :: "'p range_mem \<Rightarrow> 'p uvm_range_tree_t \<Rightarrow> NvU64 \<Rightarrow> 'p option" where
  "uvm_range_tree_find mem t addr = fst (range_node_find mem t addr)"

definition uvm_range_tree_iter_first ::
  "'p range_mem \<Rightarrow> 'p uvm_range_tree_t \<Rightarrow> NvU64 \<Rightarrow> NvU64 \<Rightarrow> 'p option" where
  "uvm_range_tree_iter_first mem t start end' =
     (case range_node_find mem t start of
        (Some node, _, _) \<Rightarrow> Some node
      | (None, _, Some next) \<Rightarrow> if rn_start (mem next) \<le> end' then Some next else None
      | (None, _, None) \<Rightarrow> None)"

definition uvm_range_tree_iter_next ::
  "'p range_mem \<Rightarrow> 'p uvm_range_tree_t \<Rightarrow> 'p \<Rightarrow> NvU64 \<Rightarrow> 'p option" where
  "uvm_range_tree_iter_next mem t node end' =
     (case uvm_range_tree_next t node of
        Some next \<Rightarrow> if rn_start (mem next) \<le> end' then Some next else None
      | None \<Rightarrow> None)"

definition uvm_range_tree_iter_prev ::
  "'p range_mem \<Rightarrow> 'p uvm_range_tree_t \<Rightarrow> 'p \<Rightarrow> NvU64 \<Rightarrow> 'p option" where
  "uvm_range_tree_iter_prev mem t node start =
     (case uvm_range_tree_prev t node of
        Some prev \<Rightarrow> if rn_start (mem prev) \<ge> start then Some prev else None
      | None \<Rightarrow> None)"

definition uvm_range_tree_find_hole ::
  "'p range_mem \<Rightarrow> 'p uvm_range_tree_t \<Rightarrow> NvU64 \<Rightarrow> NV_STATUS \<times> NvU64 \<times> NvU64" where
  "uvm_range_tree_find_hole mem t addr =
     (case uvm_range_tree_iter_first mem t addr ULLONG_MAX of
        Some node \<Rightarrow>
          if rn_start (mem node) \<le> addr then (NV_ERR_UVM_ADDRESS_IN_USE, 0, 0)
          else
            (NV_OK,
             case uvm_range_tree_prev t node of None \<Rightarrow> 0 | Some prev \<Rightarrow> rn_end (mem prev) + 1,
             rn_start (mem node) - 1)
      | None \<Rightarrow>
          (NV_OK,
           case uvm_range_tree_last t of None \<Rightarrow> 0 | Some prev \<Rightarrow> rn_end (mem prev) + 1,
           ULLONG_MAX))"

definition uvm_range_tree_find_hole_in ::
  "'p range_mem \<Rightarrow> 'p uvm_range_tree_t \<Rightarrow> NvU64 \<Rightarrow> NvU64 \<Rightarrow> NvU64 \<Rightarrow> NV_STATUS \<times> NvU64 \<times> NvU64" where
  "uvm_range_tree_find_hole_in mem t addr start end' =
     (case uvm_range_tree_find_hole mem t addr of (status, temp_start, temp_end) \<Rightarrow>
        if status = NV_OK then (status, max temp_start start, min temp_end end')
        else (status, start, end'))"

text \<open>
  The loop of the iteration macro, which follows the list of the nodes: it is left at the latest after
  as many steps as there are nodes, which bounds the recursion.
\<close>

fun range_nodes_from :: "nat \<Rightarrow> 'p range_mem \<Rightarrow> 'p uvm_range_tree_t \<Rightarrow> 'p option \<Rightarrow> NvU64 \<Rightarrow> 'p list option" where
  "range_nodes_from fuel mem t None end' = Some []"
| "range_nodes_from 0 mem t (Some node) end' = None"
| "range_nodes_from (Suc fuel) mem t (Some node) end' =
     map_option ((#) node) (range_nodes_from fuel mem t (uvm_range_tree_iter_next mem t node end') end')"

definition uvm_range_tree_for_each_in ::
  "'p range_mem \<Rightarrow> 'p uvm_range_tree_t \<Rightarrow> NvU64 \<Rightarrow> NvU64 \<Rightarrow> 'p list option" where
  "uvm_range_tree_for_each_in mem t start end' =
     range_nodes_from (length (rt_head t)) mem t (uvm_range_tree_iter_first mem t start end') end'"

subsection \<open>Specifications\<close>

definition range_tree_wf :: "'p range_mem \<Rightarrow> 'p uvm_range_tree_t \<Rightarrow> bool" where
  "range_tree_wf mem t \<longleftrightarrow>
     inorder (rt_root t) = rt_head t \<and> nodes_ordered (rn_start \<circ> mem) (rn_end \<circ> mem) (rt_head t)"

text \<open>The addresses that the nodes of a tree cover.\<close>

definition node_addrs :: "'p range_mem \<Rightarrow> 'p \<Rightarrow> NvU64 set" where
  "node_addrs mem n = {rn_start (mem n)..rn_end (mem n)}"

definition tree_addrs :: "'p range_mem \<Rightarrow> 'p uvm_range_tree_t \<Rightarrow> NvU64 set" where
  "tree_addrs mem t = (\<Union>n\<in>set (rt_head t). node_addrs mem n)"

text \<open>A list with one more element somewhere.\<close>

definition inserted :: "'p \<Rightarrow> 'p list \<Rightarrow> 'p list \<Rightarrow> bool" where
  "inserted n ns ns' \<longleftrightarrow> (\<exists>xs ys. ns = xs @ ys \<and> ns' = xs @ n # ys)"

definition split_mem :: "'p range_mem \<Rightarrow> 'p \<Rightarrow> 'p \<Rightarrow> 'p range_mem" where
  "split_mem mem x new =
     mem(new := (mem new)\<lparr>rn_end := rn_end (mem x)\<rparr>, x := (mem x)\<lparr>rn_end := rn_start (mem new) - 1\<rparr>)"

definition hole_start :: "'p range_mem \<Rightarrow> 'p list \<Rightarrow> NvU64" where
  "hole_start mem xs = (case list_last xs of None \<Rightarrow> 0 | Some x \<Rightarrow> rn_end (mem x) + 1)"

definition hole_end :: "'p range_mem \<Rightarrow> 'p list \<Rightarrow> NvU64" where
  "hole_end mem ys = (case list_first ys of None \<Rightarrow> - 1 | Some y \<Rightarrow> rn_start (mem y) - 1)"

definition largest_hole :: "NvU64 set \<Rightarrow> NvU64 \<Rightarrow> NvU64 \<Rightarrow> NvU64 \<Rightarrow> bool" where
  "largest_hole A addr s e \<longleftrightarrow> s \<le> addr \<and> addr \<le> e \<and> {s..e} \<inter> A = {} \<and>
     (s \<noteq> 0 \<longrightarrow> s - 1 \<in> A) \<and> (e \<noteq> - 1 \<longrightarrow> e + 1 \<in> A)"

definition sample_mem :: "nat range_mem" where
  "sample_mem n = \<lparr>rn_start = of_nat (10 * n), rn_end = of_nat (10 * n + 4)\<rparr>"

definition sample_tree :: "nat uvm_range_tree_t" where
  "sample_tree = \<lparr>rt_root = Node (Node Leaf 1 Leaf) 2 (Node Leaf 4 Leaf), rt_head = [1, 2, 4]\<rparr>"

subsection \<open>Lemmas\<close>

lemma range_wf_le: "range_tree_wf mem t \<Longrightarrow> n \<in> set (rt_head t) \<Longrightarrow> rn_start (mem n) \<le> rn_end (mem n)"
  by (auto simp: range_tree_wf_def nodes_ordered_def list_all_iff)

lemma range_wf_distinct: "range_tree_wf mem t \<Longrightarrow> distinct (rt_head t)"
  by (auto simp: range_tree_wf_def dest: nodes_ordered_distinct)

lemma range_find_Some:
  assumes "range_tree_wf mem t"
  shows "fst (range_node_find mem t a) = Some n \<longleftrightarrow> n \<in> set (rt_head t) \<and> a \<in> node_addrs mem n"
proof -
  have o: "nodes_ordered (rn_start \<circ> mem) (rn_end \<circ> mem) (inorder (rt_root t))"
    and h: "set_tree (rt_root t) = set (rt_head t)"
    using assms set_inorder [of "rt_root t"] by (simp_all add: range_tree_wf_def del: set_inorder)
  have "fst (range_node_find mem t a) = fst (rb_descend (rn_start \<circ> mem) (rn_end \<circ> mem) a None (rt_root t))"
    by (simp add: range_node_find_def split: prod.split)
  then show ?thesis using rb_descend_Some [OF o, of a None n] h by (simp add: node_addrs_def)
qed

lemma range_find_None:
  assumes "range_tree_wf mem t"
  shows "fst (range_node_find mem t a) = None \<longleftrightarrow> a \<notin> tree_addrs mem t"
  using range_find_Some [OF assms, of a] by (cases "fst (range_node_find mem t a)") (auto simp: tree_addrs_def)

text \<open>Where a search that finds nothing ends: between the nodes below and the nodes above the address.\<close>

lemma range_find_place:
  assumes "range_tree_wf mem t" and "fst (range_node_find mem t a) = None"
  obtains (empty) "rt_root t = Leaf" "rt_head t = []" "range_node_find mem t a = (None, None, None)"
  | (place) p xs ys where "range_node_find mem t a = (None, Some p, list_first ys)"
      "rt_head t = xs @ ys" "link_place (rn_start \<circ> mem) (rn_end \<circ> mem) a n p (rt_root t) xs ys"
proof -
  have o: "nodes_ordered (rn_start \<circ> mem) (rn_end \<circ> mem) (inorder (rt_root t))"
    and h: "inorder (rt_root t) = rt_head t"
    using assms(1) by (auto simp: range_tree_wf_def)
  obtain p where d: "rb_descend (rn_start \<circ> mem) (rn_end \<circ> mem) a None (rt_root t) = (None, p)"
    using assms(2) by (cases "rb_descend (rn_start \<circ> mem) (rn_end \<circ> mem) a None (rt_root t)")
      (auto simp: range_node_find_def)
  show ?thesis
  proof (cases "rt_root t = Leaf")
    case True
    then show ?thesis using d h empty by (simp add: range_node_find_def)
  next
    case False
    obtain q xs ys where q: "p = Some q"
        and l: "link_place (rn_start \<circ> mem) (rn_end \<circ> mem) a n q (rt_root t) xs ys"
      using rb_descend_None [OF o d False] by blast
    have x: "rt_head t = xs @ ys" "\<forall>x\<in>set xs. rn_end (mem x) < a" "\<forall>y\<in>set ys. a < rn_start (mem y)"
      using l h by (auto simp: link_place_def)
    have d': "distinct (xs @ ys)" using range_wf_distinct [OF assms(1)] x(1) by simp
    from l have "(if rn_start (mem q) > a then Some q else uvm_range_tree_next t q) = list_first ys"
    proof (cases rule: link_place_cases)
      case above
      then show ?thesis using x(3) by (simp add: list_first_def)
    next
      case below
      then have "rn_end (mem q) < a" "rn_start (mem q) \<le> rn_end (mem q)"
        using x(1,2) range_wf_le [OF assms(1)] by auto
      then have "\<not> rn_start (mem q) > a" by auto
      then show ?thesis using below x(1) d' by (simp add: uvm_range_tree_next_def list_next_split)
    qed
    then show ?thesis using place [OF _ x(1) l] d q by (simp add: range_node_find_def)
  qed
qed

lemma link_place_bounds:
  assumes "link_place (rn_start \<circ> mem) (rn_end \<circ> mem) a n p t xs ys"
  shows "\<And>x. x \<in> set xs \<Longrightarrow> rn_end (mem x) < a" and "\<And>y. y \<in> set ys \<Longrightarrow> a < rn_start (mem y)"
  using assms by (auto simp: link_place_def)

text \<open>A new range with its start between two nodes fits exactly if it ends before the second one.\<close>

lemma range_fits:
  assumes "range_tree_wf mem t" and "rt_head t = xs @ ys" and "rn_start (mem n) \<le> rn_end (mem n)"
    and "\<And>x. x \<in> set xs \<Longrightarrow> rn_end (mem x) < rn_start (mem n)"
    and "\<And>y. y \<in> set ys \<Longrightarrow> rn_start (mem n) < rn_start (mem y)"
  shows "node_addrs mem n \<inter> tree_addrs mem t = {} \<longleftrightarrow>
    (\<forall>y. list_first ys = Some y \<longrightarrow> rn_end (mem n) < rn_start (mem y))"
proof
  assume d: "node_addrs mem n \<inter> tree_addrs mem t = {}"
  have "rn_end (mem n) < rn_start (mem y)" if "list_first ys = Some y" for y
  proof (rule ccontr)
    assume "\<not> rn_end (mem n) < rn_start (mem y)"
    moreover have y: "y \<in> set ys" using that by (auto simp: list_first_def split: list.splits)
    ultimately have "rn_start (mem y) \<in> node_addrs mem n" using assms(5) [OF y] by (auto simp: node_addrs_def)
    moreover have "rn_start (mem y) \<in> tree_addrs mem t"
      using y assms(2) range_wf_le [OF assms(1), of y] by (auto simp: tree_addrs_def node_addrs_def)
    ultimately show False using d by auto
  qed
  then show "\<forall>y. list_first ys = Some y \<longrightarrow> rn_end (mem n) < rn_start (mem y)" by blast
next
  assume f: "\<forall>y. list_first ys = Some y \<longrightarrow> rn_end (mem n) < rn_start (mem y)"
  have above: "rn_end (mem n) < rn_start (mem y)" if "y \<in> set ys" for y
  proof (cases ys)
    case (Cons z zs)
    have "y = z \<or> rn_end (mem z) < rn_start (mem y)"
      using that Cons assms(1,2) by (auto simp: range_tree_wf_def nodes_ordered_append nodes_ordered_Cons)
    moreover have "rn_start (mem z) \<le> rn_end (mem z)" using range_wf_le [OF assms(1)] Cons assms(2) by auto
    ultimately show ?thesis using f Cons by (auto simp: list_first_def)
  qed (use that in simp)
  show "node_addrs mem n \<inter> tree_addrs mem t = {}"
  proof (rule ccontr)
    assume "\<not> ?thesis"
    then obtain c m where "m \<in> set xs \<union> set ys" "c \<in> node_addrs mem n" "c \<in> node_addrs mem m"
      using assms(2) by (auto simp: tree_addrs_def)
    then show False using assms(4) [of m] above [of m] by (auto simp: node_addrs_def)
  qed
qed

lemma range_add_result:
  assumes "rb_laws rb" and "range_tree_wf mem t" and "rn_start (mem n) \<le> rn_end (mem n)"
  shows "if node_addrs mem n \<inter> tree_addrs mem t = {}
    then \<exists>t'. uvm_range_tree_add rb mem t n = (NV_OK, t') \<and> inserted n (rt_head t) (rt_head t') \<and>
      range_tree_wf mem t'
    else uvm_range_tree_add rb mem t n = (NV_ERR_UVM_ADDRESS_IN_USE, t)"
proof (cases "fst (range_node_find mem t (rn_start (mem n)))")
  case (Some m)
  then have "rn_start (mem n) \<in> tree_addrs mem t"
    using range_find_Some [OF assms(2)] by (auto simp: tree_addrs_def)
  then have "node_addrs mem n \<inter> tree_addrs mem t \<noteq> {}" using assms(3) by (auto simp: node_addrs_def)
  then show ?thesis using Some by (auto simp: uvm_range_tree_add_def split: prod.splits)
next
  case None
  note color = rb_colorD [OF assms(1)]
  have o: "nodes_ordered (rn_start \<circ> mem) (rn_end \<circ> mem) (inorder (rt_root t))"
    using assms(2) by (auto simp: range_tree_wf_def)
  from assms(2) None show ?thesis
  proof (cases rule: range_find_place [where n = n])
    case empty
    then show ?thesis
      using assms(3) by (auto simp: uvm_range_tree_add_def tree_addrs_def range_tree_wf_def color list_add_def
          nodes_ordered_Cons inserted_def)
  next
    case (place p xs ys)
    note b = link_place_bounds [OF place(3)]
    have fits: "node_addrs mem n \<inter> tree_addrs mem t = {} \<longleftrightarrow>
        (\<forall>y. list_first ys = Some y \<longrightarrow> rn_end (mem n) < rn_start (mem y))"
      using range_fits [OF assms(2) place(2) assms(3) b] .
    have l: "inorder (rt_root t) = xs @ ys" using assms(2) place(2) by (simp add: range_tree_wf_def)
    have le: "\<And>m. m \<in> set (xs @ ys) \<Longrightarrow> rn_start (mem m) \<le> rn_end (mem m)"
      using range_wf_le [OF assms(2)] place(2) by simp
    have wf: "nodes_ordered (rn_start \<circ> mem) (rn_end \<circ> mem) (xs @ n # ys)"
      if d: "node_addrs mem n \<inter> tree_addrs mem t = {}"
    proof -
      have "rn_end (mem n) < rn_start (mem y)" if "y \<in> set ys" for y
      proof (rule ccontr)
        assume "\<not> ?thesis"
        then have "rn_start (mem y) \<in> node_addrs mem n \<inter> tree_addrs mem t"
          using b(2) [OF that] le [of y] that place(2) by (auto simp: node_addrs_def tree_addrs_def)
        then show False using d by simp
      qed
      then show ?thesis using o l b(1) assms(3) by (auto simp: nodes_ordered_append nodes_ordered_Cons)
    qed
    have ins: "inserted n (rt_head t) (xs @ n # ys)" unfolding inserted_def using place(2) by blast
    from place(3) show ?thesis
    proof (cases rule: link_place_cases)
      case (above vs)
      have "range_nodes_overlap mem n p \<longleftrightarrow> \<not> rn_end (mem n) < rn_start (mem p)"
        using b(2) [of p] le [of p] above(1) by (auto simp: range_nodes_overlap_def uvm_ranges_overlap_def)
      moreover have "rn_start (mem n) < rn_start (mem p)" using b(2) [of p] above(1) by simp
      ultimately have add: "uvm_range_tree_add rb mem t n =
          (if rn_end (mem n) < rn_start (mem p)
             then (NV_OK, \<lparr>rt_root = rb_insert_color rb n (rb_link_node n p Rb_Left (rt_root t)),
                           rt_head = list_insert_before n p (rt_head t)\<rparr>)
           else (NV_ERR_UVM_ADDRESS_IN_USE, t))"
        using place(1) by (simp add: uvm_range_tree_add_def)
      have "list_insert_before n p (rt_head t) = xs @ n # ys"
        using link_place_list [OF place(3) o] b(2) [of p] above(1) l place(2) by simp
      then show ?thesis using add fits wf ins above color by (simp add: list_first_def range_tree_wf_def)
    next
      case (below us)
      have p: "rn_end (mem p) < rn_start (mem n)" "rn_start (mem p) \<le> rn_end (mem p)"
        using b(1) [of p] le [of p] below(1) by auto
      then have n: "\<not> range_nodes_overlap mem n p" "\<not> rn_start (mem n) < rn_start (mem p)"
        by (auto simp: range_nodes_overlap_def uvm_ranges_overlap_def)
      have "distinct (xs @ ys)" using range_wf_distinct [OF assms(2)] place(2) by simp
      then have nx: "uvm_range_tree_next t p = list_first ys"
        using below(1) place(2) by (simp add: uvm_range_tree_next_def list_next_split)
      have "range_nodes_overlap mem n y \<longleftrightarrow> \<not> rn_end (mem n) < rn_start (mem y)" if "y \<in> set ys" for y
        using b(2) [OF that] le [of y] that by (auto simp: range_nodes_overlap_def uvm_ranges_overlap_def)
      then have add: "uvm_range_tree_add rb mem t n =
          (if \<forall>y. list_first ys = Some y \<longrightarrow> rn_end (mem n) < rn_start (mem y)
             then (NV_OK, \<lparr>rt_root = rb_insert_color rb n (rb_link_node n p Rb_Right (rt_root t)),
                           rt_head = list_insert_after n p (rt_head t)\<rparr>)
           else (NV_ERR_UVM_ADDRESS_IN_USE, t))"
        using place(1) n nx by (cases ys) (simp_all add: uvm_range_tree_add_def list_first_def)
      have "list_insert_after n p (rt_head t) = xs @ n # ys"
        using link_place_list [OF place(3) o] n(2) l place(2) by simp
      then show ?thesis using add fits wf ins below color by (simp add: range_tree_wf_def)
    qed
  qed
qed

lemma range_node_split:
  assumes "range_tree_wf mem t" and "n \<in> set (rt_head t)"
  obtains us vs where "rt_head t = us @ n # vs" "n \<notin> set us" "n \<notin> set vs"
    "uvm_range_tree_prev t n = list_last us" "uvm_range_tree_next t n = list_first vs"
proof -
  obtain us vs where h: "rt_head t = us @ n # vs" "n \<notin> set us" using assms(2) by (meson split_list_first)
  then have "n \<notin> set vs" using range_wf_distinct [OF assms(1)] by auto
  then show ?thesis
    using that h by (simp add: uvm_range_tree_prev_def uvm_range_tree_next_def list_prev_split list_next_split)
qed

lemma range_wf_remove:
  assumes "rb_laws rb" and "range_tree_wf mem t" and "rt_head t = us @ n # vs"
  shows "range_tree_wf mem (uvm_range_tree_remove rb t n)" and "rt_head (uvm_range_tree_remove rb t n) = us @ vs"
proof -
  have d: "distinct (us @ n # vs)" using range_wf_distinct [OF assms(2)] assms(3) by simp
  then show h: "rt_head (uvm_range_tree_remove rb t n) = us @ vs"
    using assms(3) list_del_split [OF d] by (simp add: uvm_range_tree_remove_def)
  show "range_tree_wf mem (uvm_range_tree_remove rb t n)"
    using assms d by (simp add: range_tree_wf_def uvm_range_tree_remove_def rb_eraseD list_del_def
        nodes_ordered_append nodes_ordered_Cons)
qed

text \<open>The tree does not hold the ranges: a change of the memory that keeps the order keeps the tree.\<close>

lemma range_wf_mem:
  "range_tree_wf mem t \<Longrightarrow> nodes_ordered (rn_start \<circ> mem') (rn_end \<circ> mem') (rt_head t) \<Longrightarrow> range_tree_wf mem' t"
  by (simp add: range_tree_wf_def)

lemma nodes_ordered_cong:
  "(\<And>n. n \<in> set ns \<Longrightarrow> lo n = lo' n \<and> hi n = hi' n) \<Longrightarrow> nodes_ordered lo hi ns = nodes_ordered lo' hi' ns"
  by (induction ns) (auto simp: nodes_ordered_Cons)

lemma tree_addrs_split:
  "rt_head t = us @ n # vs \<Longrightarrow>
     tree_addrs mem t = (\<Union>m\<in>set us. node_addrs mem m) \<union> node_addrs mem n \<union> (\<Union>m\<in>set vs. node_addrs mem m)"
  by (auto simp: tree_addrs_def)

subsection \<open>Iteration\<close>

text \<open>The nodes of an ordered list that meet an interval: those that end after its start and start before its end.\<close>

lemma node_meets_iff:
  assumes "rn_start (mem n) \<le> rn_end (mem n)" and "s \<le> e"
  shows "node_addrs mem n \<inter> {s..e} \<noteq> {} \<longleftrightarrow> s \<le> rn_end (mem n) \<and> rn_start (mem n) \<le> e"
proof
  assume "s \<le> rn_end (mem n) \<and> rn_start (mem n) \<le> e"
  then have "max s (rn_start (mem n)) \<in> node_addrs mem n \<inter> {s..e}" using assms by (auto simp: node_addrs_def)
  then show "node_addrs mem n \<inter> {s..e} \<noteq> {}" by blast
qed (auto simp: node_addrs_def)

lemma iter_first_place:
  assumes "range_tree_wf mem t" and "s \<le> e"
  obtains xs ys where "rt_head t = xs @ ys" "\<And>x. x \<in> set xs \<Longrightarrow> rn_end (mem x) < s"
    "\<And>y. y \<in> set ys \<Longrightarrow> s \<le> rn_end (mem y)"
    "uvm_range_tree_iter_first mem t s e =
       (case ys of [] \<Rightarrow> None | y # _ \<Rightarrow> if rn_start (mem y) \<le> e then Some y else None)"
proof (cases "fst (range_node_find mem t s)")
  case (Some n)
  then have n: "n \<in> set (rt_head t)" "rn_start (mem n) \<le> s" "s \<le> rn_end (mem n)"
    using range_find_Some [OF assms(1)] by (auto simp: node_addrs_def)
  from range_node_split [OF assms(1) n(1)] obtain us vs where h: "rt_head t = us @ n # vs" by blast
  then have o: "\<And>x. x \<in> set us \<Longrightarrow> rn_end (mem x) < rn_start (mem n)"
      "\<And>y. y \<in> set vs \<Longrightarrow> rn_end (mem n) < rn_start (mem y)"
    using assms(1) by (auto simp: range_tree_wf_def nodes_ordered_append nodes_ordered_Cons)
  have "uvm_range_tree_iter_first mem t s e = Some n"
    using Some by (auto simp: uvm_range_tree_iter_first_def split: prod.splits)
  moreover have "s \<le> rn_end (mem y)" if "y \<in> set vs" for y
    using o(2) [OF that] n(3) range_wf_le [OF assms(1), of y] h that by auto
  moreover have "rn_end (mem x) < s" if "x \<in> set us" for x using o(1) [OF that] n(2) by auto
  moreover have "rn_start (mem n) \<le> e" using n(2) assms(2) by (rule order_trans)
  ultimately show ?thesis using that [of us "n # vs"] h n(3) by auto
next
  case None
  from assms(1) None show ?thesis
  proof (cases rule: range_find_place [where n = undefined])
    case empty
    then show ?thesis using that [of "[]" "[]"] by (simp add: uvm_range_tree_iter_first_def)
  next
    case (place p xs ys)
    note b = link_place_bounds [OF place(3)]
    have "s \<le> rn_end (mem y)" if "y \<in> set ys" for y
      using b(2) [OF that] range_wf_le [OF assms(1), of y] place(2) that by auto
    then show ?thesis
      using that [of xs ys] place(1,2) b(1)
      by (cases ys) (auto simp: uvm_range_tree_iter_first_def list_first_def)
  qed
qed

lemma iter_nodes:
  assumes "range_tree_wf mem t" and "rt_head t = xs @ ys" and "length ys \<le> fuel"
  shows "range_nodes_from fuel mem t
      (case ys of [] \<Rightarrow> None | y # _ \<Rightarrow> if rn_start (mem y) \<le> e then Some y else None) e =
    Some (filter (\<lambda>n. rn_start (mem n) \<le> e) ys)"
  using assms(2,3)
proof (induction ys arbitrary: xs fuel)
  case Nil
  then show ?case by simp
next
  case (Cons y ys)
  obtain f where f: "fuel = Suc f" using Cons.prems(2) by (cases fuel) auto
  have y: "y \<in> set (rt_head t)" using Cons.prems(1) by simp
  have "distinct (xs @ y # ys)" using range_wf_distinct [OF assms(1)] Cons.prems(1) by simp
  then have nx: "uvm_range_tree_next t y = list_first ys"
    using Cons.prems(1) by (simp add: uvm_range_tree_next_def list_next_split)
  have later: "rn_start (mem y) < rn_start (mem z)" if "z \<in> set ys" for z
  proof -
    have "rn_end (mem y) < rn_start (mem z)"
      using assms(1) Cons.prems(1) that by (auto simp: range_tree_wf_def nodes_ordered_append nodes_ordered_Cons)
    then show ?thesis using range_wf_le [OF assms(1) y] by simp
  qed
  have iter: "uvm_range_tree_iter_next mem t y e =
      (case ys of [] \<Rightarrow> None | z # _ \<Rightarrow> if rn_start (mem z) \<le> e then Some z else None)"
    using nx by (cases ys) (auto simp: uvm_range_tree_iter_next_def list_first_def)
  show ?case
  proof (cases "rn_start (mem y) \<le> e")
    case True
    then show ?thesis
      using Cons.IH [of "xs @ [y]" f] Cons.prems f iter by simp
  next
    case False
    then have "filter (\<lambda>n. rn_start (mem n) \<le> e) (y # ys) = []"
      using later by (force simp: filter_empty_conv)
    then show ?thesis using False by simp
  qed
qed

lemma for_each_in_nodes:
  assumes "range_tree_wf mem t" and "s \<le> e"
  shows "uvm_range_tree_for_each_in mem t s e =
    Some (filter (\<lambda>n. node_addrs mem n \<inter> {s..e} \<noteq> {}) (rt_head t))"
proof -
  obtain xs ys where h: "rt_head t = xs @ ys" "\<And>x. x \<in> set xs \<Longrightarrow> rn_end (mem x) < s"
      "\<And>y. y \<in> set ys \<Longrightarrow> s \<le> rn_end (mem y)"
      "uvm_range_tree_iter_first mem t s e =
         (case ys of [] \<Rightarrow> None | y # _ \<Rightarrow> if rn_start (mem y) \<le> e then Some y else None)"
    using iter_first_place [OF assms] by blast
  have meets: "node_addrs mem n \<inter> {s..e} \<noteq> {} \<longleftrightarrow> s \<le> rn_end (mem n) \<and> rn_start (mem n) \<le> e"
    if "n \<in> set (rt_head t)" for n
    using node_meets_iff [of mem n s e] range_wf_le [OF assms(1) that] assms(2) by blast
  have "filter (\<lambda>n. node_addrs mem n \<inter> {s..e} \<noteq> {}) xs = []"
    using meets h(1,2) by (fastforce simp: filter_empty_conv)
  moreover have "filter (\<lambda>n. node_addrs mem n \<inter> {s..e} \<noteq> {}) ys = filter (\<lambda>n. rn_start (mem n) \<le> e) ys"
    using meets h(1,3) by (intro filter_cong) auto
  ultimately show ?thesis
    using iter_nodes [OF assms(1) h(1), of "length (rt_head t)" e] h(1,4)
    by (simp add: uvm_range_tree_for_each_in_def)
qed

lemma range_add_addrs:
  assumes "inserted n (rt_head t) (rt_head t')"
  shows "set (rt_head t') = insert n (set (rt_head t))" "tree_addrs mem t' = tree_addrs mem t \<union> node_addrs mem n"
  using assms by (auto simp: inserted_def tree_addrs_def)

lemma word_interval_split:
  fixes a b s :: "'a::len word"
  assumes "a < s" and "s \<le> b"
  shows "{a..s - 1} \<union> {s..b} = {a..b}" and "{a..s - 1} \<inter> {s..b} = {}" and "a \<le> s - 1" and "s - 1 < s"
proof -
  have "s \<noteq> 0" using assms(1) by auto
  then have s: "x \<le> s - 1 \<longleftrightarrow> x < s" for x by simp
  show "{a..s - 1} \<union> {s..b} = {a..b}"
  proof (rule set_eqI)
    fix x
    show "x \<in> {a..s - 1} \<union> {s..b} \<longleftrightarrow> x \<in> {a..b}" unfolding Un_iff atLeastAtMost_iff s using assms by force
  qed
  show "{a..s - 1} \<inter> {s..b} = {}" by (rule equals0I) (use s in \<open>auto simp: not_le\<close>)
  show "a \<le> s - 1" using s assms(1) by simp
  show "s - 1 < s" using s [of "s - 1"] by simp
qed

text \<open>Splitting: the memory after it, and that the new node lies directly after the existing one.\<close>

lemma split_mem_ordered:
  assumes "range_tree_wf mem t" and "rt_head t = us @ x # vs" and "new \<notin> set (rt_head t)"
    and "rn_start (mem x) < rn_start (mem new)" and "rn_start (mem new) \<le> rn_end (mem x)"
  defines "mem' \<equiv> split_mem mem x new"
  shows "nodes_ordered (rn_start \<circ> mem') (rn_end \<circ> mem') (us @ x # new # vs)"
    and "node_addrs mem' x \<union> node_addrs mem' new = node_addrs mem x"
    and "\<And>n. n \<in> set us \<union> set vs \<Longrightarrow> mem' n = mem n"
proof -
  let ?s = "rn_start (mem new)"
  note s = word_interval_split [OF assms(4,5)]
  show keep: "\<And>n. n \<in> set us \<union> set vs \<Longrightarrow> mem' n = mem n"
    using range_wf_distinct [OF assms(1)] assms(2,3) by (auto simp: mem'_def split_mem_def)
  have x: "x \<noteq> new" using assms(2,3) by auto
  then have at: "rn_start (mem' x) = rn_start (mem x)" "rn_end (mem' x) = ?s - 1"
      "rn_start (mem' new) = ?s" "rn_end (mem' new) = rn_end (mem x)"
    by (simp_all add: mem'_def split_mem_def)
  show "node_addrs mem' x \<union> node_addrs mem' new = node_addrs mem x"
    unfolding node_addrs_def at by (rule s(1))
  have o: "nodes_ordered (rn_start \<circ> mem) (rn_end \<circ> mem) (us @ x # vs)"
    using assms(1,2) by (simp add: range_tree_wf_def)
  have "nodes_ordered (rn_start \<circ> mem') (rn_end \<circ> mem') us" "nodes_ordered (rn_start \<circ> mem') (rn_end \<circ> mem') vs"
    using o keep nodes_ordered_cong [of us "rn_start \<circ> mem" "rn_start \<circ> mem'" "rn_end \<circ> mem" "rn_end \<circ> mem'"]
      nodes_ordered_cong [of vs "rn_start \<circ> mem" "rn_start \<circ> mem'" "rn_end \<circ> mem" "rn_end \<circ> mem'"]
    by (auto simp: nodes_ordered_append nodes_ordered_Cons)
  moreover have u: "rn_end (mem' a) < rn_start (mem x)" "\<forall>b\<in>set vs. rn_end (mem' a) < rn_start (mem' b)"
    if "a \<in> set us" for a
    using o keep that by (auto simp: nodes_ordered_append nodes_ordered_Cons)
  moreover have v: "rn_end (mem x) < rn_start (mem' b)" if "b \<in> set vs" for b
    using o keep that by (auto simp: nodes_ordered_append nodes_ordered_Cons)
  moreover have "rn_end (mem' a) < ?s" if "a \<in> set us" for a using u(1) [OF that] assms(4) by order
  moreover have "?s - 1 < rn_start (mem' b)" if "b \<in> set vs" for b using v [OF that] s(4) assms(5) by order
  ultimately show "nodes_ordered (rn_start \<circ> mem') (rn_end \<circ> mem') (us @ x # new # vs)"
    using at s(3,4) assms(5) by (simp add: nodes_ordered_append nodes_ordered_Cons del: word_le_minus_one)
qed

lemma nodes_ordered_unique:
  "nodes_ordered lo hi xs \<Longrightarrow> nodes_ordered lo hi ys \<Longrightarrow> set xs = set ys \<Longrightarrow> xs = ys"
proof (induction xs arbitrary: ys)
  case Nil
  then show ?case by simp
next
  case (Cons x xs)
  then obtain y zs where y: "ys = y # zs" by (cases ys) auto
  have o: "nodes_ordered lo hi xs" "nodes_ordered lo hi zs"
    using Cons.prems(1,2) y by (simp_all add: nodes_ordered_Cons)
  have eq: "x = y"
  proof (rule ccontr)
    assume "x \<noteq> y"
    then have "x \<in> set zs" "y \<in> set xs" using Cons.prems(3) y by auto
    then have "hi y < lo x" "hi x < lo y" "lo x \<le> hi x" "lo y \<le> hi y"
      using Cons.prems(1,2) y by (auto simp: nodes_ordered_Cons)
    then show False by order
  qed
  have "x \<notin> set xs" "y \<notin> set zs"
    using nodes_ordered_distinct [OF Cons.prems(1)] nodes_ordered_distinct [OF Cons.prems(2)] y by auto
  then have "set xs = set zs" using Cons.prems(3) y eq by auto
  then show ?case using Cons.IH [OF o] y eq by simp
qed

lemma range_split_result:
  assumes "rb_laws rb" and "range_tree_wf mem t" and "rt_head t = us @ x # vs" and "new \<notin> set (rt_head t)"
    and "rn_start (mem x) < rn_start (mem new)" and "rn_start (mem new) \<le> rn_end (mem x)"
  obtains t' where "uvm_range_tree_split rb mem t x new = (NV_OK, split_mem mem x new, t')"
    "range_tree_wf (split_mem mem x new) t'" "rt_head t' = us @ x # new # vs"
proof -
  let ?mem = "split_mem mem x new"
  note o = split_mem_ordered [OF assms(2-6)]
  have wf: "range_tree_wf ?mem t"
    using range_wf_mem [OF assms(2), of ?mem] o(1) assms(3)
    by (simp add: nodes_ordered_append nodes_ordered_Cons)
  have n: "rn_start (?mem new) \<le> rn_end (?mem new)" using o(1) by (simp add: nodes_ordered_append nodes_ordered_Cons)
  have "rn_end (?mem m) < rn_start (?mem new) \<or> rn_end (?mem new) < rn_start (?mem m)" if "m \<in> set (us @ x # vs)" for m
    using o(1) that by (auto simp: nodes_ordered_append nodes_ordered_Cons)
  then have "node_addrs ?mem new \<inter> tree_addrs ?mem t = {}"
    using assms(3) by (force simp: tree_addrs_def node_addrs_def)
  then obtain t' where t': "uvm_range_tree_add rb ?mem t new = (NV_OK, t')" "inserted new (rt_head t) (rt_head t')"
      "range_tree_wf ?mem t'"
    using range_add_result [OF assms(1) wf n] by auto
  have "rt_head t' = us @ x # new # vs"
    using t'(3) range_add_addrs(1) [OF t'(2)] assms(3) o(1)
    by (intro nodes_ordered_unique [of "rn_start \<circ> ?mem" "rn_end \<circ> ?mem"]) (auto simp: range_tree_wf_def)
  moreover have x: "x \<noteq> new" using assms(3,4) by auto
  have "uvm_range_tree_split rb mem t x new = (NV_OK, ?mem, t')"
    using t'(1) x by (simp add: uvm_range_tree_split_def split_mem_def Let_def)
  ultimately show ?thesis using that t'(3) by blast
qed

lemma hole_start_props:
  assumes "range_tree_wf mem t" and "rt_head t = xs @ ys" and "\<And>x. x \<in> set xs \<Longrightarrow> rn_end (mem x) < addr"
  shows "hole_start mem xs \<le> addr" (is ?le)
    and "\<forall>x\<in>set xs. \<forall>c. hole_start mem xs \<le> c \<longrightarrow> rn_end (mem x) < c" (is ?below)
    and "hole_start mem xs \<noteq> 0 \<longrightarrow> hole_start mem xs - 1 \<in> tree_addrs mem t" (is ?max)
proof -
  have "?le \<and> ?below \<and> ?max"
  proof (cases xs rule: rev_cases)
    case Nil
    then show ?thesis by (simp add: hole_start_def list_last_def)
  next
    case (snoc us l)
    then have h: "hole_start mem xs = rn_end (mem l) + 1" by (simp add: hole_start_def list_last_def)
    have l: "rn_end (mem l) < addr" using assms(3) snoc by simp
    then have "rn_end (mem l) \<noteq> - 1" by auto
    then have iff: "rn_end (mem l) + 1 \<le> c \<longleftrightarrow> rn_end (mem l) < c" for c by (simp add: inc_less_eq_iff)
    have le: "rn_start (mem l) \<le> rn_end (mem l)" using range_wf_le [OF assms(1), of l] assms(2) snoc by simp
    have "rn_end (mem x) < rn_start (mem l) \<or> x = l" if "x \<in> set xs" for x
      using assms(1,2) snoc that by (auto simp: range_tree_wf_def nodes_ordered_append nodes_ordered_Cons)
    then have "rn_end (mem x) \<le> rn_end (mem l)" if "x \<in> set xs" for x using le that by fastforce
    moreover have "rn_end (mem l) \<in> tree_addrs mem t"
      using le assms(2) snoc by (auto simp: tree_addrs_def node_addrs_def)
    ultimately show ?thesis unfolding h iff using l by (auto intro: le_less_trans)
  qed
  then show ?le ?below ?max by blast+
qed

lemma hole_end_props:
  assumes "range_tree_wf mem t" and "rt_head t = xs @ ys" and "\<And>y. y \<in> set ys \<Longrightarrow> addr < rn_start (mem y)"
  shows "addr \<le> hole_end mem ys" (is ?le)
    and "\<forall>y\<in>set ys. \<forall>c. c \<le> hole_end mem ys \<longrightarrow> c < rn_start (mem y)" (is ?above)
    and "hole_end mem ys \<noteq> - 1 \<longrightarrow> hole_end mem ys + 1 \<in> tree_addrs mem t" (is ?max)
proof -
  have "?le \<and> ?above \<and> ?max"
  proof (cases ys)
    case Nil
    then show ?thesis by (simp add: hole_end_def list_first_def)
  next
    case (Cons f vs)
    then have h: "hole_end mem ys = rn_start (mem f) - 1" by (simp add: hole_end_def list_first_def)
    have f: "addr < rn_start (mem f)" using assms(3) Cons by simp
    then have "rn_start (mem f) \<noteq> 0" by auto
    then have iff: "c \<le> rn_start (mem f) - 1 \<longleftrightarrow> c < rn_start (mem f)" for c by simp
    have le: "rn_start (mem f) \<le> rn_end (mem f)" using range_wf_le [OF assms(1), of f] assms(2) Cons by simp
    have "rn_end (mem f) < rn_start (mem y) \<or> y = f" if "y \<in> set ys" for y
      using assms(1,2) Cons that by (auto simp: range_tree_wf_def nodes_ordered_append nodes_ordered_Cons)
    then have "rn_start (mem f) \<le> rn_start (mem y)" if "y \<in> set ys" for y using le that by fastforce
    moreover have "rn_start (mem f) \<in> tree_addrs mem t"
      using le assms(2) Cons by (auto simp: tree_addrs_def node_addrs_def)
    ultimately show ?thesis unfolding h iff using f by (auto intro: less_le_trans)
  qed
  then show ?le ?above ?max by blast+
qed

lemma find_hole_eq:
  assumes "range_tree_wf mem t"
  obtains (used) "addr \<in> tree_addrs mem t" "uvm_range_tree_find_hole mem t addr = (NV_ERR_UVM_ADDRESS_IN_USE, 0, 0)"
  | (hole) xs ys where "addr \<notin> tree_addrs mem t" "rt_head t = xs @ ys"
      "\<And>x. x \<in> set xs \<Longrightarrow> rn_end (mem x) < addr" "\<And>y. y \<in> set ys \<Longrightarrow> addr < rn_start (mem y)"
      "uvm_range_tree_find_hole mem t addr = (NV_OK, hole_start mem xs, hole_end mem ys)"
proof -
  obtain xs ys where h: "rt_head t = xs @ ys" "\<And>x. x \<in> set xs \<Longrightarrow> rn_end (mem x) < addr"
      "\<And>y. y \<in> set ys \<Longrightarrow> addr \<le> rn_end (mem y)"
      "uvm_range_tree_iter_first mem t addr (- 1) =
         (case ys of [] \<Rightarrow> None | y # _ \<Rightarrow> if rn_start (mem y) \<le> - 1 then Some y else None)"
    using iter_first_place [OF assms, of addr "- 1"] by auto
  have d: "distinct (xs @ ys)" using range_wf_distinct [OF assms] h(1) by simp
  show ?thesis
  proof (cases ys)
    case Nil
    have "addr \<notin> tree_addrs mem t" using h(1,2) Nil by (force simp: tree_addrs_def node_addrs_def)
    then show ?thesis
      using hole [of xs ys] h Nil
      by (simp add: uvm_range_tree_find_hole_def uvm_range_tree_last_def hole_start_def hole_end_def
          list_first_def list_last_def)
  next
    case (Cons y vs)
    show ?thesis
    proof (cases "rn_start (mem y) \<le> addr")
      case True
      then have "addr \<in> tree_addrs mem t" using h(1) h(3) [of y] Cons by (auto simp: tree_addrs_def node_addrs_def)
      then show ?thesis using used h(4) Cons True by (simp add: uvm_range_tree_find_hole_def)
    next
      case False
      have "rn_end (mem y) < rn_start (mem z)" if "z \<in> set vs" for z
        using assms h(1) Cons that by (auto simp: range_tree_wf_def nodes_ordered_append nodes_ordered_Cons)
      then have above: "addr < rn_start (mem z)" if "z \<in> set ys" for z
        using that False Cons h(3) [of y] by fastforce
      then have "addr \<notin> tree_addrs mem t" using h(1,2) by (force simp: tree_addrs_def node_addrs_def)
      moreover have "uvm_range_tree_prev t y = list_last xs"
        using h(1) Cons d by (simp add: uvm_range_tree_prev_def list_prev_split)
      ultimately show ?thesis
        using hole [of xs ys] h above Cons False
        by (simp add: uvm_range_tree_find_hole_def hole_start_def hole_end_def list_first_def)
    qed
  qed
qed

lemma sample_wf: "range_tree_wf sample_mem sample_tree"
  by (simp add: range_tree_wf_def sample_tree_def sample_mem_def nodes_ordered_def)

subsection \<open>Properties\<close>

text \<open>
  C25: Adding a node to a range tree succeeds exactly if its range is disjoint from all ranges of the
  tree; the tree then covers the new range as well and stays a consistent ordered tree. Otherwise the
  tree is unchanged. This holds for every rebalancing within its laws.
\<close>

theorem range_tree_add_disjoint:
  assumes "rb_laws rb" and "range_tree_wf mem t" and "rn_start (mem n) \<le> rn_end (mem n)"
  shows "case uvm_range_tree_add rb mem t n of (status, t') \<Rightarrow>
    if node_addrs mem n \<inter> tree_addrs mem t = {}
      then status = NV_OK \<and> range_tree_wf mem t' \<and> set (rt_head t') = insert n (set (rt_head t)) \<and>
        tree_addrs mem t' = tree_addrs mem t \<union> node_addrs mem n
    else status = NV_ERR_UVM_ADDRESS_IN_USE \<and> t' = t"
proof (cases "node_addrs mem n \<inter> tree_addrs mem t = {}")
  case True
  then obtain t' where "uvm_range_tree_add rb mem t n = (NV_OK, t')" "inserted n (rt_head t) (rt_head t')"
      "range_tree_wf mem t'"
    using range_add_result [OF assms] by auto
  then show ?thesis using True range_add_addrs [of n t t'] by simp
next
  case False
  then show ?thesis using range_add_result [OF assms] by simp
qed

theorem range_tree_add_disjoint_witness:
  "fst (uvm_range_tree_add plain_rb sample_mem sample_tree 3) = NV_OK"
proof -
  have "node_addrs sample_mem 3 \<inter> tree_addrs sample_mem sample_tree = {}"
    by (auto simp: node_addrs_def tree_addrs_def sample_mem_def sample_tree_def word_le_nat_alt)
  then show ?thesis
    using range_tree_add_disjoint [OF plain_rb_laws sample_wf, of 3]
    by (simp add: sample_mem_def split: prod.splits)
qed

text \<open>
  C26: A lookup returns the node whose range contains the address, if there is one; and the iteration
  over an address interval ends and visits exactly the nodes whose ranges meet the interval, in order.
\<close>

theorem range_tree_queries:
  assumes "range_tree_wf mem t" and "s \<le> e"
  shows "(\<forall>n. uvm_range_tree_find mem t s = Some n \<longleftrightarrow> n \<in> set (rt_head t) \<and> s \<in> node_addrs mem n) \<and>
    uvm_range_tree_for_each_in mem t s e =
      Some (filter (\<lambda>n. node_addrs mem n \<inter> {s..e} \<noteq> {}) (rt_head t))"
  using for_each_in_nodes [OF assms] by (simp add: uvm_range_tree_find_def range_find_Some [OF assms(1)])

theorem range_tree_queries_witness:
  "uvm_range_tree_find sample_mem sample_tree 22 = Some 2 \<and>
   uvm_range_tree_for_each_in sample_mem sample_tree 22 45 =
     Some (filter (\<lambda>n. node_addrs sample_mem n \<inter> {22..45} \<noteq> {}) [1, 2, 4])"
proof -
  have "(2 :: nat) \<in> set (rt_head sample_tree)" "22 \<in> node_addrs sample_mem 2"
    by (simp_all add: sample_tree_def sample_mem_def node_addrs_def)
  then show ?thesis using range_tree_queries [OF sample_wf, of 22 45] by (auto simp: sample_tree_def)
qed

text \<open>
  C27: The search for a hole fails exactly if the address is covered by a node; otherwise it returns
  the largest interval around the address that no node meets, also at the two ends of the address
  space.
\<close>

theorem range_tree_largest_hole:
  assumes "range_tree_wf mem t"
  shows "case uvm_range_tree_find_hole mem t addr of (status, s, e) \<Rightarrow>
    if addr \<in> tree_addrs mem t then status = NV_ERR_UVM_ADDRESS_IN_USE
    else status = NV_OK \<and> largest_hole (tree_addrs mem t) addr s e"
  using assms
proof (cases rule: find_hole_eq [where addr = addr])
  case used
  then show ?thesis by simp
next
  case (hole xs ys)
  note s = hole_start_props [OF assms hole(2,3)] and e = hole_end_props [OF assms hole(2,4)]
  have "{hole_start mem xs..hole_end mem ys} \<inter> tree_addrs mem t = {}"
    using s(2) e(2) hole(2) by (fastforce simp: tree_addrs_def node_addrs_def)
  then show ?thesis using hole(1,5) s(1,3) e(1,3) by (simp add: largest_hole_def)
qed

theorem range_tree_largest_hole_witness:
  "fst (uvm_range_tree_find_hole sample_mem sample_tree 30) = NV_OK"
proof -
  have "30 \<notin> tree_addrs sample_mem sample_tree"
    by (simp add: tree_addrs_def node_addrs_def sample_tree_def sample_mem_def)
  then show ?thesis using range_tree_largest_hole [OF sample_wf, of 30] by (simp split: prod.splits)
qed

text \<open>
  C28: Splitting a node of the tree inside its range never collides, keeps the covered addresses, and
  puts the new node directly behind the existing one; merging the existing node with its next one
  undoes the split: it returns the new node and restores the range of the existing node and the nodes
  of the tree.
\<close>

theorem range_tree_split_merge:
  assumes "rb_laws rb" and "range_tree_wf mem t" and "x \<in> set (rt_head t)" and "new \<notin> set (rt_head t)"
    and "rn_start (mem x) < rn_start (mem new)" and "rn_start (mem new) \<le> rn_end (mem x)"
  shows "case uvm_range_tree_split rb mem t x new of (status, mem', t') \<Rightarrow>
    status = NV_OK \<and> range_tree_wf mem' t' \<and> tree_addrs mem' t' = tree_addrs mem t \<and>
    (case uvm_range_tree_merge_next rb mem' t' x of (merged, mem'', t'') \<Rightarrow>
       merged = Some new \<and> mem'' x = mem x \<and> range_tree_wf mem'' t'' \<and> rt_head t'' = rt_head t)"
proof -
  obtain us vs where h: "rt_head t = us @ x # vs" using range_node_split [OF assms(2,3)] by blast
  obtain t' where s: "uvm_range_tree_split rb mem t x new = (NV_OK, split_mem mem x new, t')"
      "range_tree_wf (split_mem mem x new) t'" "rt_head t' = us @ x # new # vs"
    using range_split_result [OF assms(1,2) h assms(4-6)] by blast
  let ?mem = "split_mem mem x new" and ?t = "uvm_range_tree_remove rb t' new"
  let ?mem' = "?mem(x := (?mem x)\<lparr>rn_end := rn_end (?mem new)\<rparr>)"
  note o = split_mem_ordered [OF assms(2) h assms(4-6)]
  have d: "distinct (us @ x # new # vs)" using range_wf_distinct [OF s(2)] s(3) by simp
  have addrs: "tree_addrs ?mem t' = tree_addrs mem t"
    using o(2,3) h s(3) by (auto simp: tree_addrs_def node_addrs_def)
  have x: "?mem' x = mem x" "\<And>n. n \<in> set us \<union> set vs \<Longrightarrow> ?mem' n = mem n"
    using d o(3) by (auto simp: split_mem_def)
  have "uvm_range_tree_next t' x = Some new"
    using d s(3) by (simp add: uvm_range_tree_next_def list_next_split list_first_def)
  moreover have "rn_start (?mem new) = rn_end (?mem x) + 1" using d by (simp add: split_mem_def)
  ultimately have m: "uvm_range_tree_merge_next rb ?mem t' x = (Some new, ?mem', ?t)"
    by (simp add: uvm_range_tree_merge_next_def)
  have r: "range_tree_wf ?mem ?t" "rt_head ?t = us @ x # vs"
    using range_wf_remove [OF assms(1) s(2), of "us @ [x]" new vs] s(3) by simp_all
  have eq: "?mem' n = mem n" if "n \<in> set (us @ x # vs)" for n
    using that x(1) x(2) [of n] by (cases "n = x") (simp_all only: set_append set_simps Un_iff insert_iff, blast+)
  have "nodes_ordered (rn_start \<circ> ?mem') (rn_end \<circ> ?mem') (us @ x # vs) =
      nodes_ordered (rn_start \<circ> mem) (rn_end \<circ> mem) (us @ x # vs)"
    by (rule nodes_ordered_cong) (simp only: comp_apply eq simp_thms)
  then have "nodes_ordered (rn_start \<circ> ?mem') (rn_end \<circ> ?mem') (us @ x # vs)"
    using assms(2) h by (simp add: range_tree_wf_def)
  then have "range_tree_wf ?mem' ?t" using range_wf_mem [OF r(1)] r(2) by simp
  then show ?thesis using s(1,2) addrs m x(1) r(2) h by simp
qed

theorem range_tree_split_merge_witness:
  "let mem = sample_mem(7 := \<lparr>rn_start = 22, rn_end = 0\<rparr>)
   in fst (uvm_range_tree_split plain_rb mem sample_tree 2 7) = NV_OK"
proof -
  let ?mem = "sample_mem(7 := \<lparr>rn_start = 22, rn_end = 0\<rparr>)"
  have "range_tree_wf ?mem sample_tree"
    by (simp add: range_tree_wf_def sample_tree_def sample_mem_def nodes_ordered_def)
  then show ?thesis
    using range_tree_split_merge [OF plain_rb_laws, of ?mem sample_tree 2 7]
    by (auto simp: sample_tree_def sample_mem_def split: prod.splits)
qed

end
