(* ===== verification/Range_Allocator.thy ===== *)
theory Range_Allocator
  imports Range_Tree Page_Mask
begin

section \<open>Range allocator\<close>

text \<open>
  \<^verbatim>\<open>uvm_range_allocator.c\<close>: first-fit allocation of aligned address ranges out of a
  range tree of free ranges. The nodes that the kernel allocator hands out are arguments (\<open>None\<close>
  when it has no memory), and the nodes that an operation gives back to it are part of its result. The second
  part is the system of all calls a client can make, with the allocations that are in use.
\<close>

subsection \<open>Model\<close>

record 'p uvm_range_allocator_t =
  ra_size :: NvU64
  ra_tree :: "'p uvm_range_tree_t"

record 'p uvm_range_allocation_t =
  al_start :: NvU64
  al_node :: "'p option"

definition uvm_range_allocator_init ::
  "'p rb_ops \<Rightarrow> 'p range_mem \<Rightarrow> 'p option \<Rightarrow> NvU64 \<Rightarrow> 'p uvm_range_allocator_t \<Rightarrow>
     NV_STATUS \<times> 'p range_mem \<times> 'p uvm_range_allocator_t" where
  "uvm_range_allocator_init rb mem kvmalloc sz ra =
     (let ra = ra\<lparr>ra_tree := uvm_range_tree_init\<rparr>
      in case kvmalloc of
           None \<Rightarrow> (NV_ERR_NO_MEMORY, mem, ra)
         | Some node \<Rightarrow>
             (let mem = mem(node := \<lparr>rn_start = 0, rn_end = sz - 1\<rparr>)
              in case uvm_range_tree_add rb mem (ra_tree ra) node of
                   (status, tree) \<Rightarrow> (NV_OK, mem, ra\<lparr>ra_tree := tree, ra_size := sz\<rparr>)))"

definition uvm_range_allocator_deinit ::
  "'p rb_ops \<Rightarrow> 'p range_mem \<Rightarrow> 'p uvm_range_allocator_t \<Rightarrow> 'p list \<times> 'p uvm_range_allocator_t" where
  "uvm_range_allocator_deinit rb mem ra =
     (case uvm_range_tree_iter_first mem (ra_tree ra) 0 (ra_size ra - 1) of
        None \<Rightarrow> ([], ra)
      | Some node \<Rightarrow> ([node], ra\<lparr>ra_tree := uvm_range_tree_remove rb (ra_tree ra) node\<rparr>))"

text \<open>
  The body of the search loop up to its \<^verbatim>\<open>continue\<close> statements: where an allocation
  would go in a node.
\<close>

definition alloc_in_node :: "'p range_mem \<Rightarrow> NvU64 \<Rightarrow> NvU64 \<Rightarrow> 'p \<Rightarrow> (NvU64 \<times> NvU64) option" where
  "alloc_in_node mem sz alignment node =
     (let aligned_start = UVM_ALIGN_UP (rn_start (mem node)) alignment;
          aligned_end = aligned_start + sz - 1
      in if aligned_start < rn_start (mem node) \<or> aligned_end < aligned_start then None
         else if aligned_end > rn_end (mem node) then None
         else Some (aligned_start, aligned_end))"

fun alloc_search ::
  "'p range_mem \<Rightarrow> NvU64 \<Rightarrow> NvU64 \<Rightarrow> 'p list \<Rightarrow> ('p \<times> NvU64 \<times> NvU64) option" where
  "alloc_search mem sz alignment [] = None"
| "alloc_search mem sz alignment (node # nodes) =
     (case alloc_in_node mem sz alignment node of
        None \<Rightarrow> alloc_search mem sz alignment nodes
      | Some (aligned_start, aligned_end) \<Rightarrow> Some (node, aligned_start, aligned_end))"

text \<open>The nodes given back are the last component; \<open>None\<close> stands for a search that does not end.\<close>

definition uvm_range_allocator_alloc ::
  "'p rb_ops \<Rightarrow> 'p range_mem \<Rightarrow> 'p option \<Rightarrow> 'p uvm_range_allocator_t \<Rightarrow> NvU64 \<Rightarrow> NvU64 \<Rightarrow>
     'p uvm_range_allocation_t \<Rightarrow>
     (NV_STATUS \<times> 'p uvm_range_allocation_t \<times> 'p range_mem \<times> 'p uvm_range_allocator_t \<times> 'p list) option" where
  "uvm_range_allocator_alloc rb mem kvmalloc ra sz alignment range_alloc =
     (let alignment = (if alignment = 0 then 1 else alignment)
      in if sz > ra_size ra then Some (NV_ERR_UVM_ADDRESS_IN_USE, range_alloc, mem, ra, [])
         else
           (let range_alloc = range_alloc\<lparr>al_node := kvmalloc\<rparr>
            in case kvmalloc of
                 None \<Rightarrow> Some (NV_ERR_NO_MEMORY, range_alloc, mem, ra, [])
               | Some new \<Rightarrow>
                   (case uvm_range_tree_for_each_in mem (ra_tree ra) 0 (ra_size ra - sz) of
                      None \<Rightarrow> None
                    | Some nodes \<Rightarrow>
                        (case alloc_search mem sz alignment nodes of
                           None \<Rightarrow>
                             Some (NV_ERR_UVM_ADDRESS_IN_USE, range_alloc\<lparr>al_node := None\<rparr>, mem, ra, [new])
                         | Some (node, aligned_start, aligned_end) \<Rightarrow>
                             (let range_alloc = range_alloc\<lparr>al_start := aligned_start\<rparr>;
                                  mem = mem(new := \<lparr>rn_start = rn_start (mem node), rn_end = aligned_end\<rparr>)
                              in if aligned_end < rn_end (mem node)
                                   then Some (NV_OK, range_alloc,
                                     uvm_range_tree_shrink_node mem node (aligned_end + 1) (rn_end (mem node)), ra, [])
                                 else Some (NV_OK, range_alloc, mem,
                                     ra\<lparr>ra_tree := uvm_range_tree_remove rb (ra_tree ra) node\<rparr>, [node]))))))"

text \<open>The status of the insertion is only asserted in the code; it is returned here.\<close>

definition uvm_range_allocator_free ::
  "'p rb_ops \<Rightarrow> 'p range_mem \<Rightarrow> 'p uvm_range_allocator_t \<Rightarrow> 'p uvm_range_allocation_t option \<Rightarrow>
     NV_STATUS \<times> 'p uvm_range_allocation_t option \<times> 'p range_mem \<times> 'p uvm_range_allocator_t \<times> 'p list" where
  "uvm_range_allocator_free rb mem ra range_alloc =
     (case range_alloc of
        None \<Rightarrow> (NV_OK, None, mem, ra, [])
      | Some alloc \<Rightarrow>
          (let node = the (al_node alloc)
           in case uvm_range_tree_add rb mem (ra_tree ra) node of (status, tree) \<Rightarrow>
              case uvm_range_tree_merge_prev rb mem tree node of (adjacent, mem, tree) \<Rightarrow>
              case uvm_range_tree_merge_next rb mem tree node of (adjacent', mem, tree) \<Rightarrow>
                (status, Some (alloc\<lparr>al_node := None\<rparr>), mem, ra\<lparr>ra_tree := tree\<rparr>,
                 (case adjacent of None \<Rightarrow> [] | Some n \<Rightarrow> [n]) @
                 (case adjacent' of None \<Rightarrow> [] | Some n \<Rightarrow> [n]))))"

subsection \<open>The system of calls\<close>

text \<open>
  What a client can do with an allocator: allocate with a fresh node of the kernel allocator, or free an
  allocation that is in use. An alignment \<open>2 ^ k\<close> with \<open>k \<ge> 64\<close> is zero.
  \<open>st_live\<close> are the nodes that the kernel allocator has handed out and not got back.
\<close>

record 'p ra_state =
  st_mem :: "'p range_mem"
  st_ra :: "'p uvm_range_allocator_t"
  st_allocs :: "'p uvm_range_allocation_t list"
  st_live :: "'p set"

definition empty_allocation :: "'p uvm_range_allocation_t" where
  "empty_allocation = \<lparr>al_start = 0, al_node = None\<rparr>"

inductive ra_reachable :: "'p rb_ops \<Rightarrow> NvU64 \<Rightarrow> 'p ra_state \<Rightarrow> bool" for rb sz where
  ra_init:
    "sz > 0 \<Longrightarrow> uvm_range_allocator_init rb mem (Some node) sz ra = (NV_OK, mem', ra') \<Longrightarrow>
     ra_reachable rb sz \<lparr>st_mem = mem', st_ra = ra', st_allocs = [], st_live = {node}\<rparr>"
| ra_alloc:
    "ra_reachable rb sz s \<Longrightarrow> new \<notin> st_live s \<Longrightarrow> n > 0 \<Longrightarrow>
     uvm_range_allocator_alloc rb (st_mem s) (Some new) (st_ra s) n (2 ^ k) empty_allocation =
       Some (status, a, mem', ra', freed) \<Longrightarrow>
     ra_reachable rb sz
       \<lparr>st_mem = mem', st_ra = ra', st_allocs = (if status = NV_OK then a # st_allocs s else st_allocs s),
        st_live = (if n > ra_size (st_ra s) then st_live s else insert new (st_live s) - set freed)\<rparr>"
| ra_free:
    "ra_reachable rb sz s \<Longrightarrow> st_allocs s = us @ a # vs \<Longrightarrow>
     uvm_range_allocator_free rb (st_mem s) (st_ra s) (Some a) = (status, a', mem', ra', freed) \<Longrightarrow>
     ra_reachable rb sz
       \<lparr>st_mem = mem', st_ra = ra', st_allocs = us @ vs, st_live = st_live s - set freed\<rparr>"

subsection \<open>Specifications\<close>

text \<open>Free ranges that touch would be one range: the tree never has such nodes.\<close>

definition separated :: "'p range_mem \<Rightarrow> 'p set \<Rightarrow> bool" where
  "separated mem N \<longleftrightarrow>
     (\<forall>a\<in>N. \<forall>b\<in>N. rn_end (mem a) < rn_start (mem b) \<longrightarrow> rn_end (mem a) + 1 \<noteq> rn_start (mem b))"

text \<open>The nodes of the allocations, and the addresses that they have taken.\<close>

definition alloc_nodes :: "'p uvm_range_allocation_t list \<Rightarrow> 'p list" where
  "alloc_nodes as = map (the \<circ> al_node) as"

definition taken_addrs :: "'p range_mem \<Rightarrow> 'p uvm_range_allocation_t list \<Rightarrow> NvU64 set" where
  "taken_addrs mem as = (\<Union>n\<in>set (alloc_nodes as). node_addrs mem n)"

definition alloc_wf :: "'p range_mem \<Rightarrow> 'p uvm_range_allocation_t \<Rightarrow> bool" where
  "alloc_wf mem a \<longleftrightarrow> (case al_node a of None \<Rightarrow> False | Some n \<Rightarrow> al_start a \<in> node_addrs mem n)"

definition ra_inv :: "NvU64 \<Rightarrow> 'p ra_state \<Rightarrow> bool" where
  "ra_inv sz s \<longleftrightarrow>
     (let mem = st_mem s; tree = ra_tree (st_ra s); as = st_allocs s
      in sz > 0 \<and> ra_size (st_ra s) = sz \<and> range_tree_wf mem tree \<and> separated mem (set (rt_head tree)) \<and>
         list_all (alloc_wf mem) as \<and> distinct (alloc_nodes as @ rt_head tree) \<and>
         st_live s = set (alloc_nodes as @ rt_head tree) \<and>
         (\<forall>n\<in>set (alloc_nodes as). \<forall>m\<in>set (alloc_nodes as). n \<noteq> m \<longrightarrow> node_addrs mem n \<inter> node_addrs mem m = {}) \<and>
         taken_addrs mem as \<inter> tree_addrs mem tree = {} \<and>
         taken_addrs mem as \<union> tree_addrs mem tree = {0..sz - 1})"

definition left_clear :: "'p range_mem \<Rightarrow> 'p set \<Rightarrow> 'p \<Rightarrow> bool" where
  "left_clear mem N x \<longleftrightarrow>
     (\<forall>a\<in>N. rn_end (mem a) < rn_start (mem x) \<longrightarrow> rn_end (mem a) + 1 \<noteq> rn_start (mem x))"

definition right_clear :: "'p range_mem \<Rightarrow> 'p set \<Rightarrow> 'p \<Rightarrow> bool" where
  "right_clear mem N x \<longleftrightarrow>
     (\<forall>b\<in>N. rn_end (mem x) < rn_start (mem b) \<longrightarrow> rn_end (mem x) + 1 \<noteq> rn_start (mem b))"

definition fit_nodes :: "'p range_mem \<Rightarrow> 'p uvm_range_allocator_t \<Rightarrow> NvU64 \<Rightarrow> 'p list" where
  "fit_nodes mem ra n = filter (\<lambda>m. rn_start (mem m) \<le> ra_size ra - n) (rt_head (ra_tree ra))"

definition sample_state :: "nat ra_state" where
  "sample_state =
     \<lparr>st_mem = (\<lambda>_. \<lparr>rn_start = 0, rn_end = 99\<rparr>),
      st_ra = \<lparr>ra_size = 100, ra_tree = \<lparr>rt_root = Node Leaf 0 Leaf, rt_head = [0]\<rparr>\<rparr>,
      st_allocs = [], st_live = {0}\<rparr>"

subsection \<open>Lemmas\<close>

text \<open>Joining two neighbours that touch, into the second or into the first one.\<close>

lemma nodes_ordered_fresh:
  "x \<notin> set ns \<Longrightarrow> nodes_ordered (rn_start \<circ> mem(x := v)) (rn_end \<circ> mem(x := v)) ns =
     nodes_ordered (rn_start \<circ> mem) (rn_end \<circ> mem) ns"
  by (rule nodes_ordered_cong) auto

lemma nodes_ordered_upd:
  assumes "nodes_ordered (rn_start \<circ> mem) (rn_end \<circ> mem) (us @ vs)" and "x \<notin> set us" and "x \<notin> set vs"
    and "rn_start v \<le> rn_end v" and "\<And>n. n \<in> set us \<Longrightarrow> rn_end (mem n) < rn_start v"
    and "\<And>n. n \<in> set vs \<Longrightarrow> rn_end v < rn_start (mem n)"
  shows "nodes_ordered (rn_start \<circ> mem(x := v)) (rn_end \<circ> mem(x := v)) (us @ x # vs)"
proof -
  have "nodes_ordered (rn_start \<circ> mem(x := v)) (rn_end \<circ> mem(x := v)) (us @ vs)"
    using assms(1-3) nodes_ordered_fresh [of x "us @ vs" mem v] by simp
  then show ?thesis using assms by (auto simp: nodes_ordered_append nodes_ordered_Cons)
qed

lemma touching_nodes:
  assumes "range_tree_wf mem t" and "rt_head t = us @ p # x # vs" and "rn_end (mem p) + 1 = rn_start (mem x)"
  shows "node_addrs mem p \<union> node_addrs mem x = {rn_start (mem p)..rn_end (mem x)}"
    and "rn_start (mem p) \<le> rn_end (mem x)"
proof -
  have o: "rn_start (mem p) \<le> rn_end (mem p)" "rn_end (mem p) < rn_start (mem x)" "rn_start (mem x) \<le> rn_end (mem x)"
    using assms(1,2) by (auto simp: range_tree_wf_def nodes_ordered_append nodes_ordered_Cons)
  then have l: "rn_start (mem p) < rn_start (mem x)" by order
  have "rn_end (mem p) = rn_start (mem x) - 1" using assms(3) by (metis add_diff_cancel)
  then show "node_addrs mem p \<union> node_addrs mem x = {rn_start (mem p)..rn_end (mem x)}"
    using word_interval_split(1) [OF l o(3)] by (simp add: node_addrs_def del: word_le_minus_one)
  show "rn_start (mem p) \<le> rn_end (mem x)" using l o(3) by order
qed

lemma join_nodes:
  assumes "range_tree_wf mem t" and "rt_head t = us @ p # x # vs" and "rn_end (mem p) + 1 = rn_start (mem x)"
    and "v = \<lparr>rn_start = rn_start (mem p), rn_end = rn_end (mem x)\<rparr>"
  shows "nodes_ordered (rn_start \<circ> mem(x := v)) (rn_end \<circ> mem(x := v)) (us @ x # vs)"
    and "nodes_ordered (rn_start \<circ> mem(p := v)) (rn_end \<circ> mem(p := v)) (us @ p # vs)"
    and "node_addrs (mem(x := v)) x = node_addrs mem p \<union> node_addrs mem x"
    and "node_addrs (mem(p := v)) p = node_addrs mem p \<union> node_addrs mem x"
proof -
  note t = touching_nodes [OF assms(1-3)]
  have o: "nodes_ordered (rn_start \<circ> mem) (rn_end \<circ> mem) (us @ p # x # vs)"
    using assms(1,2) by (simp add: range_tree_wf_def)
  then have o': "nodes_ordered (rn_start \<circ> mem) (rn_end \<circ> mem) (us @ vs)"
      "\<And>n. n \<in> set us \<Longrightarrow> rn_end (mem n) < rn_start (mem p)" "\<And>n. n \<in> set vs \<Longrightarrow> rn_end (mem x) < rn_start (mem n)"
    by (auto simp: nodes_ordered_append nodes_ordered_Cons)
  have d: "distinct (us @ p # x # vs)" using nodes_ordered_distinct [OF o] .
  show "nodes_ordered (rn_start \<circ> mem(x := v)) (rn_end \<circ> mem(x := v)) (us @ x # vs)"
    "nodes_ordered (rn_start \<circ> mem(p := v)) (rn_end \<circ> mem(p := v)) (us @ p # vs)"
    using d t(2) o' assms(4) by (intro nodes_ordered_upd; simp)+
  show "node_addrs (mem(x := v)) x = node_addrs mem p \<union> node_addrs mem x"
    "node_addrs (mem(p := v)) p = node_addrs mem p \<union> node_addrs mem x"
    using t(1) assms(4) by (simp_all add: node_addrs_def)
qed

lemma range_node_upd:
  "(v :: uvm_range_tree_node_t)\<lparr>rn_start := s\<rparr> = \<lparr>rn_start = s, rn_end = rn_end v\<rparr>"
  "(v :: uvm_range_tree_node_t)\<lparr>rn_end := e\<rparr> = \<lparr>rn_start = rn_start v, rn_end = e\<rparr>"
  by (cases v; simp)+

lemma merge_prev_cases:
  assumes "rb_laws rb" and "range_tree_wf mem t" and "x \<in> set (rt_head t)"
  obtains (keep) us vs where "uvm_range_tree_merge_prev rb mem t x = (None, mem, t)" "rt_head t = us @ x # vs"
      "\<And>p. list_last us = Some p \<Longrightarrow> rn_end (mem p) + 1 \<noteq> rn_start (mem x)"
  | (merge) us p vs mem' t' where "uvm_range_tree_merge_prev rb mem t x = (Some p, mem', t')"
      "rt_head t = us @ p # x # vs" "rt_head t' = us @ x # vs" "range_tree_wf mem' t'"
      "mem' = mem(x := \<lparr>rn_start = rn_start (mem p), rn_end = rn_end (mem x)\<rparr>)"
      "node_addrs mem' x = node_addrs mem p \<union> node_addrs mem x"
proof -
  obtain us vs where h: "rt_head t = us @ x # vs" "uvm_range_tree_prev t x = list_last us"
    using range_node_split [OF assms(2,3)] by metis
  show ?thesis
  proof (cases "\<exists>p. list_last us = Some p \<and> rn_end (mem p) + 1 = rn_start (mem x)")
    case False
    then have "uvm_range_tree_merge_prev rb mem t x = (None, mem, t)"
      using h(2) by (auto simp: uvm_range_tree_merge_prev_def split: option.splits)
    then show ?thesis using keep h(1) False by blast
  next
    case True
    then obtain p us' where p: "us = us' @ [p]" "rn_end (mem p) + 1 = rn_start (mem x)"
      by (cases us rule: rev_cases) (auto simp: list_last_def)
    have h': "rt_head t = us' @ p # x # vs" using h(1) p(1) by simp
    let ?mem = "mem(x := \<lparr>rn_start = rn_start (mem p), rn_end = rn_end (mem x)\<rparr>)"
    let ?t = "uvm_range_tree_remove rb t p"
    have "rn_end (mem p) = rn_start (mem x) - 1" using p(2) by (metis add_diff_cancel)
    then have m: "uvm_range_tree_merge_prev rb mem t x = (Some p, ?mem, ?t)"
      using h(2) p(1) by (simp add: uvm_range_tree_merge_prev_def list_last_def range_node_upd)
    note r = range_wf_remove [OF assms(1,2) h'] and j = join_nodes [OF assms(2) h' p(2) refl]
    have "range_tree_wf ?mem ?t" using range_wf_mem [OF r(1)] j(1) r(2) by simp
    then show ?thesis using merge [OF m h' r(2)] j(3) by simp
  qed
qed

lemma merge_next_cases:
  assumes "rb_laws rb" and "range_tree_wf mem t" and "x \<in> set (rt_head t)"
  obtains (keep) us vs where "uvm_range_tree_merge_next rb mem t x = (None, mem, t)" "rt_head t = us @ x # vs"
      "\<And>y. list_first vs = Some y \<Longrightarrow> rn_end (mem x) + 1 \<noteq> rn_start (mem y)"
  | (merge) us y vs mem' t' where "uvm_range_tree_merge_next rb mem t x = (Some y, mem', t')"
      "rt_head t = us @ x # y # vs" "rt_head t' = us @ x # vs" "range_tree_wf mem' t'"
      "mem' = mem(x := \<lparr>rn_start = rn_start (mem x), rn_end = rn_end (mem y)\<rparr>)"
      "node_addrs mem' x = node_addrs mem x \<union> node_addrs mem y"
proof -
  obtain us vs where h: "rt_head t = us @ x # vs" "uvm_range_tree_next t x = list_first vs"
    using range_node_split [OF assms(2,3)] by metis
  show ?thesis
  proof (cases "\<exists>y. list_first vs = Some y \<and> rn_end (mem x) + 1 = rn_start (mem y)")
    case False
    then have "uvm_range_tree_merge_next rb mem t x = (None, mem, t)"
      using h(2) by (auto simp: uvm_range_tree_merge_next_def split: option.splits)
    then show ?thesis using keep h(1) False by blast
  next
    case True
    then obtain y vs' where y: "vs = y # vs'" "rn_end (mem x) + 1 = rn_start (mem y)"
      by (cases vs) (auto simp: list_first_def)
    have h': "rt_head t = us @ x # y # vs'" using h(1) y(1) by simp
    then have h'': "rt_head t = (us @ [x]) @ y # vs'" by simp
    let ?mem = "mem(x := \<lparr>rn_start = rn_start (mem x), rn_end = rn_end (mem y)\<rparr>)"
    let ?t = "uvm_range_tree_remove rb t y"
    have m: "uvm_range_tree_merge_next rb mem t x = (Some y, ?mem, ?t)"
      using h(2) y by (simp add: uvm_range_tree_merge_next_def list_first_def range_node_upd)
    note r = range_wf_remove [OF assms(1,2) h''] and j = join_nodes [OF assms(2) h' y(2) refl]
    have "range_tree_wf ?mem ?t" using range_wf_mem [OF r(1)] j(2) r(2) by simp
    then show ?thesis using merge [OF m h'] r(2) j(4) by simp
  qed
qed

lemma separated_insert:
  assumes "x \<in> N" and "rn_start (mem x) \<le> rn_end (mem x)"
  shows "separated mem N \<longleftrightarrow> separated mem (N - {x}) \<and> left_clear mem N x \<and> right_clear mem N x"
  using assms by (auto simp: separated_def left_clear_def right_clear_def)

lemma neighbour_left_clear:
  assumes "range_tree_wf mem t" and "rt_head t = us @ x # vs"
    and "\<And>p. list_last us = Some p \<Longrightarrow> rn_end (mem p) + 1 \<noteq> rn_start (mem x)"
  shows "left_clear mem (set (rt_head t)) x"
  unfolding left_clear_def
proof (intro ballI impI)
  fix a
  assume a: "a \<in> set (rt_head t)" "rn_end (mem a) < rn_start (mem x)"
  have o: "nodes_ordered (rn_start \<circ> mem) (rn_end \<circ> mem) (us @ x # vs)"
    using assms(1,2) by (simp add: range_tree_wf_def)
  have "a \<in> set us"
  proof (rule ccontr)
    assume "a \<notin> set us"
    then have "a = x \<or> rn_end (mem x) < rn_start (mem a)" "rn_start (mem a) \<le> rn_end (mem a)"
        "rn_start (mem x) \<le> rn_end (mem x)"
      using a(1) o assms(2) range_wf_le [OF assms(1)] by (auto simp: nodes_ordered_append nodes_ordered_Cons)
    then show False using a(2) by (elim disjE) (simp, order)
  qed
  then obtain us' l where us: "us = us' @ [l]" by (cases us rule: rev_cases) auto
  show "rn_end (mem a) + 1 \<noteq> rn_start (mem x)"
  proof (cases "a = l")
    case True
    then show ?thesis using assms(3) us by (simp add: list_last_def)
  next
    case False
    then have l: "rn_end (mem a) < rn_start (mem l)" "rn_start (mem l) \<le> rn_end (mem l)" "rn_end (mem l) < rn_start (mem x)"
      using \<open>a \<in> set us\<close> us o by (auto simp: nodes_ordered_append nodes_ordered_Cons)
    then have "rn_end (mem a) + 1 \<le> rn_start (mem l)" by (simp add: inc_le)
    then show ?thesis using l by order
  qed
qed

lemma neighbour_right_clear:
  assumes "range_tree_wf mem t" and "rt_head t = us @ x # vs"
    and "\<And>y. list_first vs = Some y \<Longrightarrow> rn_end (mem x) + 1 \<noteq> rn_start (mem y)"
  shows "right_clear mem (set (rt_head t)) x"
  unfolding right_clear_def
proof (intro ballI impI)
  fix b
  assume b: "b \<in> set (rt_head t)" "rn_end (mem x) < rn_start (mem b)"
  have o: "nodes_ordered (rn_start \<circ> mem) (rn_end \<circ> mem) (us @ x # vs)"
    using assms(1,2) by (simp add: range_tree_wf_def)
  have "b \<in> set vs"
  proof (rule ccontr)
    assume "b \<notin> set vs"
    then have "b = x \<or> rn_end (mem b) < rn_start (mem x)" "rn_start (mem b) \<le> rn_end (mem b)"
        "rn_start (mem x) \<le> rn_end (mem x)"
      using b(1) o assms(2) range_wf_le [OF assms(1)] by (auto simp: nodes_ordered_append nodes_ordered_Cons)
    then show False using b(2) by (elim disjE) (simp, order)
  qed
  then obtain f vs' where vs: "vs = f # vs'" by (cases vs) auto
  show "rn_end (mem x) + 1 \<noteq> rn_start (mem b)"
  proof (cases "b = f")
    case True
    then show ?thesis using assms(3) vs by (simp add: list_first_def)
  next
    case False
    then have l: "rn_end (mem x) < rn_start (mem f)" "rn_start (mem f) \<le> rn_end (mem f)" "rn_end (mem f) < rn_start (mem b)"
      using \<open>b \<in> set vs\<close> vs o by (auto simp: nodes_ordered_append nodes_ordered_Cons)
    then have "rn_end (mem x) + 1 \<le> rn_start (mem f)" by (simp add: inc_le)
    then show ?thesis using l by order
  qed
qed

lemma node_addrs_cong: "mem n = mem' n \<Longrightarrow> node_addrs mem n = node_addrs mem' n"
  by (simp add: node_addrs_def)

lemma merge_prev_effect:
  assumes "rb_laws rb" and "range_tree_wf mem t" and "x \<in> set (rt_head t)" and "separated mem (set (rt_head t) - {x})"
  obtains r mem' t' where "uvm_range_tree_merge_prev rb mem t x = (r, mem', t')" "range_tree_wf mem' t'"
    "tree_addrs mem' t' = tree_addrs mem t" "set (rt_head t') = set (rt_head t) - set_option r" "x \<notin> set_option r"
    "set_option r \<subseteq> set (rt_head t)" "\<And>n. n \<noteq> x \<Longrightarrow> mem' n = mem n" "left_clear mem' (set (rt_head t')) x"
  using assms(1-3)
proof (cases rule: merge_prev_cases)
  case (keep us vs)
  show ?thesis
    using that [OF keep(1)] assms(2) neighbour_left_clear [OF assms(2) keep(2,3)] by simp
next
  case (merge us p vs mem' t')
  have d: "distinct (us @ p # x # vs)" using range_wf_distinct [OF assms(2)] merge(2) by simp
  have n: "mem' n = mem n" if "n \<noteq> x" for n using that merge(5) by simp
  have s: "rn_start (mem' x) = rn_start (mem p)" using merge(5) by simp
  have "left_clear mem' (set (rt_head t')) x"
    unfolding left_clear_def
  proof (intro ballI impI)
    fix a
    assume a: "a \<in> set (rt_head t')" "rn_end (mem' a) < rn_start (mem' x)"
    have "a \<noteq> x" using a(2) range_wf_le [OF merge(4), of x] merge(3) by auto
    moreover have "a \<in> set (rt_head t)" using a(1) merge(2,3) by auto
    moreover have "p \<in> set (rt_head t) - {x}" using merge(2) d by auto
    ultimately show "rn_end (mem' a) + 1 \<noteq> rn_start (mem' x)"
      using a(2) assms(4) n [of a] s unfolding separated_def by auto
  qed
  moreover have "tree_addrs mem' t' = tree_addrs mem t"
  proof -
    have "\<And>n. n \<in> set us \<union> set vs \<Longrightarrow> node_addrs mem' n = node_addrs mem n" by (rule node_addrs_cong, rule n) (use d in auto)
    then show ?thesis using merge(2,3,6) by (simp add: tree_addrs_def Un_ac)
  qed
  moreover have "set (rt_head t') = set (rt_head t) - set_option (Some p)" using d merge(2,3) by auto
  ultimately show ?thesis using that [OF merge(1,4)] d merge(2) n by auto
qed

lemma merge_next_effect:
  assumes "rb_laws rb" and "range_tree_wf mem t" and "x \<in> set (rt_head t)" and "separated mem (set (rt_head t) - {x})"
  obtains r mem' t' where "uvm_range_tree_merge_next rb mem t x = (r, mem', t')" "range_tree_wf mem' t'"
    "tree_addrs mem' t' = tree_addrs mem t" "set (rt_head t') = set (rt_head t) - set_option r" "x \<notin> set_option r"
    "set_option r \<subseteq> set (rt_head t)" "\<And>n. n \<noteq> x \<Longrightarrow> mem' n = mem n" "right_clear mem' (set (rt_head t')) x"
    "rn_start (mem' x) = rn_start (mem x)"
  using assms(1-3)
proof (cases rule: merge_next_cases)
  case (keep us vs)
  show ?thesis
    using that [OF keep(1)] assms(2) neighbour_right_clear [OF assms(2) keep(2,3)] by simp
next
  case (merge us y vs mem' t')
  have d: "distinct (us @ x # y # vs)" using range_wf_distinct [OF assms(2)] merge(2) by simp
  have n: "mem' n = mem n" if "n \<noteq> x" for n using that merge(5) by simp
  have s: "rn_end (mem' x) = rn_end (mem y)" using merge(5) by simp
  have "right_clear mem' (set (rt_head t')) x"
    unfolding right_clear_def
  proof (intro ballI impI)
    fix b
    assume b: "b \<in> set (rt_head t')" "rn_end (mem' x) < rn_start (mem' b)"
    have "b \<noteq> x" using b(2) range_wf_le [OF merge(4), of x] merge(3) by auto
    moreover have "b \<in> set (rt_head t)" using b(1) merge(2,3) by auto
    moreover have "y \<in> set (rt_head t) - {x}" using merge(2) d by auto
    ultimately show "rn_end (mem' x) + 1 \<noteq> rn_start (mem' b)"
      using b(2) assms(4) n [of b] s unfolding separated_def by auto
  qed
  moreover have "tree_addrs mem' t' = tree_addrs mem t"
  proof -
    have "\<And>n. n \<in> set us \<union> set vs \<Longrightarrow> node_addrs mem' n = node_addrs mem n" by (rule node_addrs_cong, rule n) (use d in auto)
    then show ?thesis using merge(2,3,6) by (simp add: tree_addrs_def Un_ac)
  qed
  moreover have "set (rt_head t') = set (rt_head t) - set_option (Some y)" using d merge(2,3) by auto
  ultimately show ?thesis using that [OF merge(1,4)] d merge(2,5) n by auto
qed

lemma separated_cong:
  "(\<And>n. n \<in> N \<Longrightarrow> mem n = mem' n) \<Longrightarrow> separated mem N = separated mem' N"
  by (simp add: separated_def)

lemma separated_subset: "separated mem N \<Longrightarrow> N' \<subseteq> N \<Longrightarrow> separated mem N'"
  by (auto simp: separated_def)

lemma free_effect:
  assumes "rb_laws rb" and "range_tree_wf mem (ra_tree ra)" and "separated mem (set (rt_head (ra_tree ra)))"
    and "x \<notin> set (rt_head (ra_tree ra))" and "rn_start (mem x) \<le> rn_end (mem x)"
    and "node_addrs mem x \<inter> tree_addrs mem (ra_tree ra) = {}" and "al_node a = Some x"
  obtains mem' tree freed where
    "uvm_range_allocator_free rb mem ra (Some a) =
       (NV_OK, Some (a\<lparr>al_node := None\<rparr>), mem', ra\<lparr>ra_tree := tree\<rparr>, freed)"
    "range_tree_wf mem' tree" "separated mem' (set (rt_head tree))"
    "tree_addrs mem' tree = tree_addrs mem (ra_tree ra) \<union> node_addrs mem x"
    "set (rt_head tree) = insert x (set (rt_head (ra_tree ra))) - set freed" "x \<notin> set freed"
    "set freed \<subseteq> set (rt_head (ra_tree ra))" "\<And>n. n \<noteq> x \<Longrightarrow> mem' n = mem n"
proof -
  let ?t = "ra_tree ra"
  obtain t1 where t1: "uvm_range_tree_add rb mem ?t x = (NV_OK, t1)" "inserted x (rt_head ?t) (rt_head t1)"
      "range_tree_wf mem t1"
    using range_add_result [OF assms(1,2,5)] assms(6) by auto
  have h1: "set (rt_head t1) = insert x (set (rt_head ?t))" "tree_addrs mem t1 = tree_addrs mem ?t \<union> node_addrs mem x"
    using range_add_addrs [OF t1(2)] by auto
  have "set (rt_head t1) - {x} = set (rt_head ?t)" using h1(1) assms(4) by auto
  then have s1: "x \<in> set (rt_head t1)" "separated mem (set (rt_head t1) - {x})" using h1(1) assms(3) by simp_all
  obtain r mem2 t2 where t2: "uvm_range_tree_merge_prev rb mem t1 x = (r, mem2, t2)" "range_tree_wf mem2 t2"
      "tree_addrs mem2 t2 = tree_addrs mem t1" "set (rt_head t2) = set (rt_head t1) - set_option r" "x \<notin> set_option r"
      "set_option r \<subseteq> set (rt_head t1)" "\<And>n. n \<noteq> x \<Longrightarrow> mem2 n = mem n" "left_clear mem2 (set (rt_head t2)) x"
    using merge_prev_effect [OF assms(1) t1(3) s1] by metis
  have "separated mem (set (rt_head t2) - {x})" using s1(2) by (rule separated_subset) (use t2(4) in auto)
  then have s2: "x \<in> set (rt_head t2)" "separated mem2 (set (rt_head t2) - {x})"
    using s1(1) t2(4,5) separated_cong [of "set (rt_head t2) - {x}" mem2 mem] t2(7) by auto
  obtain q mem3 t3 where t3: "uvm_range_tree_merge_next rb mem2 t2 x = (q, mem3, t3)" "range_tree_wf mem3 t3"
      "tree_addrs mem3 t3 = tree_addrs mem2 t2" "set (rt_head t3) = set (rt_head t2) - set_option q" "x \<notin> set_option q"
      "set_option q \<subseteq> set (rt_head t2)" "\<And>n. n \<noteq> x \<Longrightarrow> mem3 n = mem2 n" "right_clear mem3 (set (rt_head t3)) x"
      "rn_start (mem3 x) = rn_start (mem2 x)"
    using merge_next_effect [OF assms(1) t2(2) s2] by metis
  have x3: "x \<in> set (rt_head t3)" using s2(1) t3(4,5) by simp
  have "separated mem2 (set (rt_head t3) - {x})" using s2(2) by (rule separated_subset) (use t3(4) in auto)
  then have "separated mem3 (set (rt_head t3) - {x})"
    using separated_cong [of "set (rt_head t3) - {x}" mem3 mem2] t3(7) by auto
  moreover have "left_clear mem3 (set (rt_head t3)) x"
    unfolding left_clear_def
  proof (intro ballI impI)
    fix b
    assume b: "b \<in> set (rt_head t3)" "rn_end (mem3 b) < rn_start (mem3 x)"
    then have "b \<noteq> x" using range_wf_le [OF t3(2) x3] by auto
    then show "rn_end (mem3 b) + 1 \<noteq> rn_start (mem3 x)"
      using b t2(8) t3(4,7,9) unfolding left_clear_def by auto
  qed
  ultimately have sep: "separated mem3 (set (rt_head t3))"
    using separated_insert [of x "set (rt_head t3)" mem3] x3 range_wf_le [OF t3(2) x3] t3(8) by blast
  let ?freed = "(case r of None \<Rightarrow> [] | Some n \<Rightarrow> [n]) @ (case q of None \<Rightarrow> [] | Some n \<Rightarrow> [n])"
  have f: "set ?freed = set_option r \<union> set_option q" by (auto split: option.splits)
  have "uvm_range_allocator_free rb mem ra (Some a) =
       (NV_OK, Some (a\<lparr>al_node := None\<rparr>), mem3, ra\<lparr>ra_tree := t3\<rparr>, ?freed)"
    using t1(1) t2(1) t3(1) assms(7) by (simp add: uvm_range_allocator_free_def)
  then show ?thesis
  proof (rule that)
    show "set (rt_head t3) = insert x (set (rt_head ?t)) - set ?freed" unfolding f using t3(4) t2(4) h1(1) by auto
    show "x \<notin> set ?freed" "set ?freed \<subseteq> set (rt_head ?t)"
      unfolding f using t3(5,6) t2(4,5,6) h1(1) by auto
  qed (use t3(2,3,7) t2(3,7) h1(2) sep in auto)
qed

lemma alloc_in_node_bounds:
  "alloc_in_node mem n al m = Some (a, e) \<Longrightarrow>
     rn_start (mem m) \<le> a \<and> a \<le> e \<and> e \<le> rn_end (mem m) \<and> a = UVM_ALIGN_UP (rn_start (mem m)) al \<and> e = a + n - 1"
  by (auto simp: alloc_in_node_def Let_def not_less split: if_splits)

lemma alloc_search_Some:
  "alloc_search mem n al nodes = Some (m, a, e) \<Longrightarrow> m \<in> set nodes \<and> alloc_in_node mem n al m = Some (a, e)"
  by (induction nodes) (auto split: option.splits)

lemma alloc_search_None:
  "alloc_search mem n al nodes = None \<longleftrightarrow> (\<forall>m\<in>set nodes. alloc_in_node mem n al m = None)"
  by (induction nodes) (auto split: option.splits)

text \<open>Taking the front of a free node: the memory and the tree, as in the two branches of the code.\<close>

lemma shrink_effect:
  assumes "range_tree_wf mem t" and "separated mem (set (rt_head t))" and "m \<in> set (rt_head t)"
    and "new \<notin> set (rt_head t)" and "rn_start (mem m) \<le> e" and "e < rn_end (mem m)"
    and "mem' = uvm_range_tree_shrink_node (mem(new := \<lparr>rn_start = rn_start (mem m), rn_end = e\<rparr>)) m (e + 1) (rn_end (mem m))"
  shows "range_tree_wf mem' t" and "separated mem' (set (rt_head t))"
    and "tree_addrs mem t = tree_addrs mem' t \<union> node_addrs mem' new"
    and "tree_addrs mem' t \<inter> node_addrs mem' new = {}"
proof -
  obtain us vs where h: "rt_head t = us @ m # vs" "m \<notin> set us" "m \<notin> set vs"
    using range_node_split [OF assms(1,3)] by metis
  have o: "nodes_ordered (rn_start \<circ> mem) (rn_end \<circ> mem) (us @ m # vs)"
    using assms(1) h(1) by (simp add: range_tree_wf_def)
  have nm: "new \<noteq> m" "new \<notin> set us" "new \<notin> set vs" using assms(4) h(1) by auto
  let ?v = "\<lparr>rn_start = e + 1, rn_end = rn_end (mem m)\<rparr>" and ?mem = "mem(new := \<lparr>rn_start = rn_start (mem m), rn_end = e\<rparr>)"
  have mem': "mem' = ?mem(m := ?v)" using assms(7) by (simp add: uvm_range_tree_shrink_node_def)
  have e: "e < e + 1" "e + 1 \<le> rn_end (mem m)"
    using assms(6) inc_le [OF assms(6)] inc_less_eq_self_iff_eq [of e] by (auto simp: not_le [symmetric])
  have k: "\<And>n. n \<in> set us \<union> set vs \<Longrightarrow> mem' n = mem n" using mem' nm h by auto
  have at: "mem' m = ?v" "mem' new = \<lparr>rn_start = rn_start (mem m), rn_end = e\<rparr>" using mem' nm by auto
  have b: "\<And>n. n \<in> set us \<Longrightarrow> rn_end (mem n) < rn_start (mem m)" "\<And>n. n \<in> set vs \<Longrightarrow> rn_end (mem m) < rn_start (mem n)"
    using o by (auto simp: nodes_ordered_append nodes_ordered_Cons)
  have "nodes_ordered (rn_start \<circ> ?mem(m := ?v)) (rn_end \<circ> ?mem(m := ?v)) (us @ m # vs)"
  proof (rule nodes_ordered_upd)
    show "nodes_ordered (rn_start \<circ> ?mem) (rn_end \<circ> ?mem) (us @ vs)"
      using nodes_ordered_fresh [of new "us @ vs" mem] o nm by (simp add: nodes_ordered_append nodes_ordered_Cons)
    show "rn_end (?mem n) < rn_start ?v" if "n \<in> set us" for n
      using b(1) [OF that] assms(5) e(1) nm that by (auto; order)
  qed (use h e nm b in auto)
  then show "range_tree_wf mem' t" using range_wf_mem [OF assms(1)] h(1) mem' by simp
  have u: "node_addrs mem m = node_addrs mem' new \<union> node_addrs mem' m"
    using word_interval_split(1) [of "rn_start (mem m)" "e + 1" "rn_end (mem m)"] e at assms(5)
    by (simp add: node_addrs_def)
  have d1: "node_addrs mem' new \<inter> node_addrs mem' m = {}"
    using e(1) at by (auto simp: node_addrs_def)
  have na: "\<And>n. n \<in> set us \<union> set vs \<Longrightarrow> node_addrs mem' n = node_addrs mem n"
    by (rule node_addrs_cong, rule k)
  have dj: "\<forall>n\<in>set us \<union> set vs. node_addrs mem n \<inter> node_addrs mem m = {}"
    using b by (force simp: node_addrs_def)
  have t: "tree_addrs mem' t = (\<Union>n\<in>set us. node_addrs mem n) \<union> node_addrs mem' m \<union> (\<Union>n\<in>set vs. node_addrs mem n)"
    using na h(1) by (simp add: tree_addrs_split)
  then show "tree_addrs mem t = tree_addrs mem' t \<union> node_addrs mem' new"
    using u tree_addrs_split [OF h(1), of mem] by auto
  show "tree_addrs mem' t \<inter> node_addrs mem' new = {}" using t u dj d1 by blast
  show "separated mem' (set (rt_head t))"
    unfolding separated_def
  proof (intro ballI impI)
    fix a c
    assume ac: "a \<in> set (rt_head t)" "c \<in> set (rt_head t)" "rn_end (mem' a) < rn_start (mem' c)"
    have same: "rn_end (mem' a) = rn_end (mem a)" using ac(1) k at h(1) by (cases "a = m") auto
    show "rn_end (mem' a) + 1 \<noteq> rn_start (mem' c)"
    proof (cases "c = m")
      case True
      then have "a \<in> set us"
        using ac at e same b(2) [of a] h(1) range_wf_le [OF assms(1), of a] by (auto; order)
      then have "rn_end (mem a) < e" using b(1) [OF \<open>a \<in> set us\<close>] assms(5) by order
      then show ?thesis using same True at by auto
    next
      case False
      then show ?thesis
        using assms(2) ac same k [of c] h(1) unfolding separated_def by auto
    qed
  qed
qed

lemma remove_effect:
  assumes "rb_laws rb" and "range_tree_wf mem t" and "separated mem (set (rt_head t))" and "m \<in> set (rt_head t)"
    and "new \<notin> set (rt_head t)" and "mem' = mem(new := \<lparr>rn_start = rn_start (mem m), rn_end = rn_end (mem m)\<rparr>)"
    and "t' = uvm_range_tree_remove rb t m"
  shows "range_tree_wf mem' t'" and "separated mem' (set (rt_head t'))"
    and "tree_addrs mem t = tree_addrs mem' t' \<union> node_addrs mem' new"
    and "tree_addrs mem' t' \<inter> node_addrs mem' new = {}" and "set (rt_head t') = set (rt_head t) - {m}"
proof -
  obtain us vs where h: "rt_head t = us @ m # vs" "m \<notin> set us" "m \<notin> set vs"
    using range_node_split [OF assms(2,4)] by metis
  note r = range_wf_remove [OF assms(1,2) h(1), folded assms(7)]
  have nm: "new \<notin> set us" "new \<notin> set vs" using assms(5) h(1) by auto
  have k: "\<And>n. n \<in> set us \<union> set vs \<Longrightarrow> mem' n = mem n" using nm assms(6) by auto
  have "nodes_ordered (rn_start \<circ> mem') (rn_end \<circ> mem') (us @ vs) = nodes_ordered (rn_start \<circ> mem) (rn_end \<circ> mem) (us @ vs)"
    by (rule nodes_ordered_cong) (use k in auto)
  then show "range_tree_wf mem' t'" using range_wf_mem [OF r(1)] r by (simp add: range_tree_wf_def)
  have "separated mem (set (rt_head t'))" using assms(3) by (rule separated_subset) (use h r in auto)
  then show "separated mem' (set (rt_head t'))" using separated_cong [of "set (rt_head t')" mem' mem] k r(2) by auto
  show "set (rt_head t') = set (rt_head t) - {m}" using h r(2) by auto
  have "nodes_ordered (rn_start \<circ> mem) (rn_end \<circ> mem) (us @ m # vs)"
    using assms(2) h(1) by (simp add: range_tree_wf_def)
  then have dj: "\<forall>n\<in>set us \<union> set vs. node_addrs mem n \<inter> node_addrs mem m = {}"
    by (force simp: node_addrs_def nodes_ordered_append nodes_ordered_Cons)
  have new: "node_addrs mem' new = node_addrs mem m" using assms(6) by (simp add: node_addrs_def)
  have "\<And>n. n \<in> set us \<union> set vs \<Longrightarrow> node_addrs mem' n = node_addrs mem n"
    by (rule node_addrs_cong, rule k)
  then have t: "tree_addrs mem' t' = (\<Union>n\<in>set us \<union> set vs. node_addrs mem n)" using r(2) by (simp add: tree_addrs_def)
  then show "tree_addrs mem t = tree_addrs mem' t' \<union> node_addrs mem' new"
    using new tree_addrs_split [OF h(1), of mem] by auto
  show "tree_addrs mem' t' \<inter> node_addrs mem' new = {}" unfolding t new using dj by blast
qed

lemma for_each_fit:
  assumes "range_tree_wf mem (ra_tree ra)"
  shows "uvm_range_tree_for_each_in mem (ra_tree ra) 0 (ra_size ra - n) = Some (fit_nodes mem ra n)"
proof -
  obtain xs ys where h: "rt_head (ra_tree ra) = xs @ ys" "\<And>x. x \<in> set xs \<Longrightarrow> rn_end (mem x) < 0"
      "uvm_range_tree_iter_first mem (ra_tree ra) 0 (ra_size ra - n) =
         (case ys of [] \<Rightarrow> None | y # _ \<Rightarrow> if rn_start (mem y) \<le> ra_size ra - n then Some y else None)"
    using iter_first_place [OF assms, of 0 "ra_size ra - n"] by auto
  have "xs = []" using h(2) by (cases xs) auto
  then show ?thesis
    using iter_nodes [OF assms h(1), of "length (rt_head (ra_tree ra))" "ra_size ra - n"] h(1,3)
    by (simp add: uvm_range_tree_for_each_in_def fit_nodes_def)
qed

lemma alloc_cases:
  assumes "rb_laws rb" and "range_tree_wf mem (ra_tree ra)" and "separated mem (set (rt_head (ra_tree ra)))"
    and "new \<notin> set (rt_head (ra_tree ra))" and "al' = (if al = 0 then 1 else al)"
  obtains (big) "ra_size ra < n"
      "uvm_range_allocator_alloc rb mem (Some new) ra n al a0 = Some (NV_ERR_UVM_ADDRESS_IN_USE, a0, mem, ra, [])"
  | (full) "n \<le> ra_size ra" "\<And>m. m \<in> set (fit_nodes mem ra n) \<Longrightarrow> alloc_in_node mem n al' m = None"
      "uvm_range_allocator_alloc rb mem (Some new) ra n al a0 =
         Some (NV_ERR_UVM_ADDRESS_IN_USE, a0\<lparr>al_node := None\<rparr>, mem, ra, [new])"
  | (ok) m a e mem' tree freed where "n \<le> ra_size ra" "m \<in> set (fit_nodes mem ra n)"
      "alloc_in_node mem n al' m = Some (a, e)"
      "uvm_range_allocator_alloc rb mem (Some new) ra n al a0 =
         Some (NV_OK, a0\<lparr>al_node := Some new, al_start := a\<rparr>, mem', ra\<lparr>ra_tree := tree\<rparr>, freed)"
      "range_tree_wf mem' tree" "separated mem' (set (rt_head tree))"
      "tree_addrs mem (ra_tree ra) = tree_addrs mem' tree \<union> node_addrs mem' new"
      "tree_addrs mem' tree \<inter> node_addrs mem' new = {}"
      "set (rt_head tree) = set (rt_head (ra_tree ra)) - set freed" "set freed \<subseteq> set (rt_head (ra_tree ra))"
      "mem' new = \<lparr>rn_start = rn_start (mem m), rn_end = e\<rparr>"
      "\<And>k. k \<noteq> new \<Longrightarrow> k \<notin> set (rt_head (ra_tree ra)) \<Longrightarrow> mem' k = mem k"
proof (cases "ra_size ra < n")
  case True
  then show ?thesis using big by (simp add: uvm_range_allocator_alloc_def)
next
  case False
  then have le: "n \<le> ra_size ra" by simp
  show ?thesis
  proof (cases "alloc_search mem n al' (fit_nodes mem ra n)")
    case None
    then have "uvm_range_allocator_alloc rb mem (Some new) ra n al a0 =
        Some (NV_ERR_UVM_ADDRESS_IN_USE, a0\<lparr>al_node := None\<rparr>, mem, ra, [new])"
      using False assms(5) by (simp add: uvm_range_allocator_alloc_def for_each_fit [OF assms(2)] Let_def)
    then show ?thesis using full False None by (simp add: alloc_search_None)
  next
    case (Some res)
    obtain m a e where res: "res = (m, a, e)" by (cases res)
    note s = alloc_search_Some [OF Some [unfolded res]]
    have m: "m \<in> set (rt_head (ra_tree ra))" "new \<noteq> m" using s assms(4) by (auto simp: fit_nodes_def)
    have b: "rn_start (mem m) \<le> e" "e \<le> rn_end (mem m)" using alloc_in_node_bounds [OF conjunct2 [OF s]] by auto
    let ?mem = "mem(new := \<lparr>rn_start = rn_start (mem m), rn_end = e\<rparr>)"
    show ?thesis
    proof (cases "e < rn_end (mem m)")
      case True
      let ?mem' = "uvm_range_tree_shrink_node ?mem m (e + 1) (rn_end (mem m))"
      have "uvm_range_allocator_alloc rb mem (Some new) ra n al a0 =
          Some (NV_OK, a0\<lparr>al_node := Some new, al_start := a\<rparr>, ?mem', ra\<lparr>ra_tree := ra_tree ra\<rparr>, [])"
        using False Some res assms(5) True m(2)
        by (simp add: uvm_range_allocator_alloc_def for_each_fit [OF assms(2)] Let_def)
      moreover have "\<And>k. k \<noteq> new \<Longrightarrow> k \<notin> set (rt_head (ra_tree ra)) \<Longrightarrow> ?mem' k = mem k"
        using m(1) by (auto simp: uvm_range_tree_shrink_node_def)
      moreover have "?mem' new = \<lparr>rn_start = rn_start (mem m), rn_end = e\<rparr>"
        using m(2) by (simp add: uvm_range_tree_shrink_node_def)
      ultimately show ?thesis
        using ok [of m a e ?mem' "ra_tree ra" "[]"] le s
          shrink_effect [OF assms(2,3) m(1) assms(4) b(1) True refl] by simp
    next
      case whole: False
      then have e: "e = rn_end (mem m)" using b(2) by simp
      let ?tree = "uvm_range_tree_remove rb (ra_tree ra) m"
      have "uvm_range_allocator_alloc rb mem (Some new) ra n al a0 =
          Some (NV_OK, a0\<lparr>al_node := Some new, al_start := a\<rparr>, ?mem, ra\<lparr>ra_tree := ?tree\<rparr>, [m])"
        using False Some res assms(5) whole m(2)
        by (simp add: uvm_range_allocator_alloc_def for_each_fit [OF assms(2)] Let_def)
      then show ?thesis
        using ok [of m a e ?mem ?tree "[m]"] le s m e
          remove_effect [OF assms(1-3) m(1) assms(4), of ?mem ?tree] by simp
    qed
  qed
qed

lemma ra_invI:
  assumes "sz > 0" "ra_size ra = sz" "range_tree_wf mem (ra_tree ra)" "separated mem (set (rt_head (ra_tree ra)))"
    "list_all (alloc_wf mem) as" "distinct (alloc_nodes as @ rt_head (ra_tree ra))"
    "live = set (alloc_nodes as @ rt_head (ra_tree ra))"
    "\<And>n m. n \<in> set (alloc_nodes as) \<Longrightarrow> m \<in> set (alloc_nodes as) \<Longrightarrow> n \<noteq> m \<Longrightarrow> node_addrs mem n \<inter> node_addrs mem m = {}"
    "taken_addrs mem as \<inter> tree_addrs mem (ra_tree ra) = {}"
    "taken_addrs mem as \<union> tree_addrs mem (ra_tree ra) = {0..sz - 1}"
  shows "ra_inv sz \<lparr>st_mem = mem, st_ra = ra, st_allocs = as, st_live = live\<rparr>"
  using assms by (simp add: ra_inv_def Let_def)

lemma ra_invD:
  assumes "ra_inv sz s"
  shows "sz > 0" "ra_size (st_ra s) = sz" "range_tree_wf (st_mem s) (ra_tree (st_ra s))"
    "separated (st_mem s) (set (rt_head (ra_tree (st_ra s))))"
    "\<And>a. a \<in> set (st_allocs s) \<Longrightarrow> alloc_wf (st_mem s) a"
    "distinct (alloc_nodes (st_allocs s) @ rt_head (ra_tree (st_ra s)))"
    "st_live s = set (alloc_nodes (st_allocs s) @ rt_head (ra_tree (st_ra s)))"
    "\<And>n m. n \<in> set (alloc_nodes (st_allocs s)) \<Longrightarrow> m \<in> set (alloc_nodes (st_allocs s)) \<Longrightarrow> n \<noteq> m \<Longrightarrow>
       node_addrs (st_mem s) n \<inter> node_addrs (st_mem s) m = {}"
    "taken_addrs (st_mem s) (st_allocs s) \<inter> tree_addrs (st_mem s) (ra_tree (st_ra s)) = {}"
    "taken_addrs (st_mem s) (st_allocs s) \<union> tree_addrs (st_mem s) (ra_tree (st_ra s)) = {0..sz - 1}"
  using assms by (auto simp: ra_inv_def Let_def list_all_iff)

lemma alloc_wf_cong: "(\<And>n. al_node a = Some n \<Longrightarrow> mem' n = mem n) \<Longrightarrow> alloc_wf mem' a = alloc_wf mem a"
  by (auto simp: alloc_wf_def node_addrs_def split: option.splits)

lemma alloc_wf_node: "alloc_wf mem a \<Longrightarrow> \<exists>n. al_node a = Some n \<and> rn_start (mem n) \<le> rn_end (mem n)"
  by (auto simp: alloc_wf_def node_addrs_def split: option.splits)

lemma alloc_node_mem: "a \<in> set as \<Longrightarrow> al_node a = Some n \<Longrightarrow> n \<in> set (alloc_nodes as)"
  by (force simp: alloc_nodes_def)

lemma allocs_wf_cong:
  assumes "\<And>n. n \<in> set (alloc_nodes as) \<Longrightarrow> mem' n = mem n"
  shows "list_all (alloc_wf mem') as = list_all (alloc_wf mem) as"
proof (rule list.pred_cong [OF refl])
  fix a
  assume "a \<in> set as"
  then show "alloc_wf mem' a = alloc_wf mem a"
    by (intro alloc_wf_cong assms) (rule alloc_node_mem)
qed

lemma taken_cong:
  "(\<And>n. n \<in> set (alloc_nodes as) \<Longrightarrow> mem' n = mem n) \<Longrightarrow> taken_addrs mem' as = taken_addrs mem as"
  by (simp add: taken_addrs_def node_addrs_def)

lemma ra_init_inv:
  assumes "rb_laws rb" and "sz > 0" and "uvm_range_allocator_init rb mem (Some node) sz ra = (NV_OK, mem', ra')"
  shows "ra_inv sz \<lparr>st_mem = mem', st_ra = ra', st_allocs = [], st_live = {node}\<rparr>"
proof -
  let ?mem = "mem(node := \<lparr>rn_start = 0, rn_end = sz - 1\<rparr>)"
  have "range_tree_wf ?mem uvm_range_tree_init" by (simp add: range_tree_wf_def uvm_range_tree_init_def)
  moreover have e: "tree_addrs ?mem uvm_range_tree_init = {}" by (simp add: tree_addrs_def uvm_range_tree_init_def)
  ultimately obtain t where t: "uvm_range_tree_add rb ?mem uvm_range_tree_init node = (NV_OK, t)"
      "inserted node (rt_head uvm_range_tree_init) (rt_head t)" "range_tree_wf ?mem t"
    using range_add_result [OF assms(1), of ?mem uvm_range_tree_init node] by auto
  have h: "rt_head t = [node]" using t(2) by (simp add: inserted_def uvm_range_tree_init_def)
  have "mem' = ?mem" "ra' = ra\<lparr>ra_tree := t, ra_size := sz\<rparr>"
    using assms(3) t(1) by (auto simp: uvm_range_allocator_init_def Let_def)
  then show ?thesis
    using assms(2) h t(3)
    by (intro ra_invI) (auto simp: alloc_nodes_def taken_addrs_def tree_addrs_def node_addrs_def separated_def)
qed

lemma ra_alloc_inv:
  assumes "rb_laws rb" and "ra_inv sz s" and "new \<notin> st_live s"
    and "uvm_range_allocator_alloc rb (st_mem s) (Some new) (st_ra s) n (2 ^ k) empty_allocation =
       Some (status, a, mem', ra', freed)"
  shows "ra_inv sz
       \<lparr>st_mem = mem', st_ra = ra', st_allocs = (if status = NV_OK then a # st_allocs s else st_allocs s),
        st_live = (if n > ra_size (st_ra s) then st_live s else insert new (st_live s) - set freed)\<rparr>"
proof -
  note i = ra_invD [OF assms(2)]
  have fresh: "new \<notin> set (rt_head (ra_tree (st_ra s)))" "new \<notin> set (alloc_nodes (st_allocs s))"
    using assms(3) i(7) by auto
  have "\<lparr>st_mem = st_mem s, st_ra = st_ra s, st_allocs = st_allocs s, st_live = st_live s\<rparr> = s" by (cases s) simp
  then have same: "ra_inv sz \<lparr>st_mem = st_mem s, st_ra = st_ra s, st_allocs = st_allocs s, st_live = st_live s\<rparr>"
    using assms(2) by (simp only:)
  from assms(1) i(3,4) fresh(1) refl show ?thesis
  proof (cases rule: alloc_cases [where n = n and al = "2 ^ k" and ?a0.0 = empty_allocation])
    case big
    then show ?thesis using assms(2,4) same by simp
  next
    case full
    then show ?thesis using assms(2-4) same by (simp add: Diff_insert_absorb)
  next
    case (ok m b e mem2 tree freed2)
    have r: "status = NV_OK" "a = \<lparr>al_start = b, al_node = Some new\<rparr>" "mem' = mem2" "ra' = (st_ra s)\<lparr>ra_tree := tree\<rparr>"
        "freed = freed2"
      using assms(4) ok(4) by (auto simp: empty_allocation_def)
    have keep: "mem2 j = st_mem s j" if "j \<in> set (alloc_nodes (st_allocs s))" for j
      using ok(12) [of j] that i(6) fresh(2) by auto
    have b: "rn_start (mem2 new) \<le> b" "b \<le> rn_end (mem2 new)"
      using alloc_in_node_bounds [OF ok(3)] ok(11) by auto
    have nodes: "alloc_nodes (a # st_allocs s) = new # alloc_nodes (st_allocs s)" using r(2) by (simp add: alloc_nodes_def)
    have taken: "taken_addrs mem2 (st_allocs s) = taken_addrs (st_mem s) (st_allocs s)" using keep by (rule taken_cong)
    then have t: "taken_addrs mem2 (a # st_allocs s) = node_addrs mem2 new \<union> taken_addrs (st_mem s) (st_allocs s)"
      unfolding taken_addrs_def nodes by simp
    have dj: "node_addrs mem2 new \<inter> taken_addrs (st_mem s) (st_allocs s) = {}" using ok(7) i(9) by blast
    have "ra_inv sz \<lparr>st_mem = mem2, st_ra = (st_ra s)\<lparr>ra_tree := tree\<rparr>, st_allocs = a # st_allocs s,
        st_live = insert new (st_live s) - set freed2\<rparr>"
    proof (rule ra_invI)
      show "list_all (alloc_wf mem2) (a # st_allocs s)"
        using i(5) b r(2) allocs_wf_cong [of "st_allocs s" mem2 "st_mem s", OF keep]
        by (simp add: list_all_iff) (simp add: alloc_wf_def node_addrs_def)
      show "distinct (alloc_nodes (a # st_allocs s) @ rt_head (ra_tree ((st_ra s)\<lparr>ra_tree := tree\<rparr>)))"
        unfolding nodes using i(6) fresh ok(9) range_wf_distinct [OF ok(5)] by auto
      show "insert new (st_live s) - set freed2 =
          set (alloc_nodes (a # st_allocs s) @ rt_head (ra_tree ((st_ra s)\<lparr>ra_tree := tree\<rparr>)))"
        unfolding nodes using i(6,7) fresh ok(9,10) by auto
      show "node_addrs mem2 p \<inter> node_addrs mem2 q = {}"
        if "p \<in> set (alloc_nodes (a # st_allocs s))" "q \<in> set (alloc_nodes (a # st_allocs s))" "p \<noteq> q" for p q
      proof -
        note pq = that
        have old: "node_addrs mem2 j = node_addrs (st_mem s) j" if "j \<in> set (alloc_nodes (st_allocs s))" for j
          using node_addrs_cong [of mem2 j "st_mem s", OF keep [OF that]] .
        have sub: "node_addrs mem2 j \<inter> node_addrs mem2 new = {}" if "j \<in> set (alloc_nodes (st_allocs s))" for j
          using old [OF that] that dj unfolding taken_addrs_def by blast
        consider "p = new" "q \<in> set (alloc_nodes (st_allocs s))" | "q = new" "p \<in> set (alloc_nodes (st_allocs s))"
          | "p \<in> set (alloc_nodes (st_allocs s))" "q \<in> set (alloc_nodes (st_allocs s))"
          using pq unfolding nodes by auto
        then show ?thesis
        proof cases
          case 1
          then show ?thesis using sub [of q] by blast
        next
          case 2
          then show ?thesis using sub [of p] by blast
        next
          case 3
          then show ?thesis using old i(8) [OF 3 pq(3)] by simp
        qed
      qed
    qed (use i ok t dj in auto)
    moreover have "\<not> ra_size (st_ra s) < n" using ok(1) by simp
    ultimately show ?thesis using r by simp
  qed
qed

lemma ra_free_inv:
  assumes "rb_laws rb" and "ra_inv sz s" and "st_allocs s = us @ a # vs"
    and "uvm_range_allocator_free rb (st_mem s) (st_ra s) (Some a) = (status, a', mem', ra', freed)"
  shows "status = NV_OK" and "ra_inv sz
       \<lparr>st_mem = mem', st_ra = ra', st_allocs = us @ vs, st_live = st_live s - set freed\<rparr>"
proof -
  note i = ra_invD [OF assms(2)]
  let ?mem = "st_mem s" and ?t = "ra_tree (st_ra s)"
  obtain x where x: "al_node a = Some x" "rn_start (?mem x) \<le> rn_end (?mem x)"
    using alloc_wf_node [OF i(5) [of a]] assms(3) by auto
  have nodes: "alloc_nodes (st_allocs s) = alloc_nodes us @ x # alloc_nodes vs"
      "alloc_nodes (us @ vs) = alloc_nodes us @ alloc_nodes vs"
    using assms(3) x(1) by (simp_all add: alloc_nodes_def)
  have d: "x \<notin> set (rt_head ?t)" "x \<notin> set (alloc_nodes (us @ vs))" using i(6) unfolding nodes by auto
  have taken: "taken_addrs ?mem (st_allocs s) = node_addrs ?mem x \<union> taken_addrs ?mem (us @ vs)"
    unfolding taken_addrs_def nodes by auto
  have dj: "node_addrs ?mem x \<inter> taken_addrs ?mem (us @ vs) = {}"
  proof -
    have "node_addrs ?mem x \<inter> node_addrs ?mem n = {}" if "n \<in> set (alloc_nodes (us @ vs))" for n
      using i(8) [of x n] that d(2) unfolding nodes by auto
    then show ?thesis unfolding taken_addrs_def by blast
  qed
  have "node_addrs ?mem x \<inter> tree_addrs ?mem ?t = {}" using i(9) taken by blast
  then obtain mem2 tree freed2 where f:
      "uvm_range_allocator_free rb ?mem (st_ra s) (Some a) =
         (NV_OK, Some (a\<lparr>al_node := None\<rparr>), mem2, (st_ra s)\<lparr>ra_tree := tree\<rparr>, freed2)"
      "range_tree_wf mem2 tree" "separated mem2 (set (rt_head tree))"
      "tree_addrs mem2 tree = tree_addrs ?mem ?t \<union> node_addrs ?mem x"
      "set (rt_head tree) = insert x (set (rt_head ?t)) - set freed2" "x \<notin> set freed2"
      "set freed2 \<subseteq> set (rt_head ?t)" "\<And>n. n \<noteq> x \<Longrightarrow> mem2 n = ?mem n"
    using free_effect [OF assms(1) i(3,4) d(1) x(2) _ x(1)] by metis
  have r: "mem' = mem2" "ra' = (st_ra s)\<lparr>ra_tree := tree\<rparr>" "freed = freed2" using f(1) assms(4) by auto
  show "status = NV_OK" using f(1) assms(4) by simp
  have keep: "mem2 n = ?mem n" if "n \<in> set (alloc_nodes (us @ vs))" for n using f(8) [of n] that d(2) by auto
  have t: "taken_addrs mem2 (us @ vs) = taken_addrs ?mem (us @ vs)" using keep by (rule taken_cong)
  show "ra_inv sz \<lparr>st_mem = mem', st_ra = ra', st_allocs = us @ vs, st_live = st_live s - set freed\<rparr>"
    unfolding r
  proof (rule ra_invI)
    show "list_all (alloc_wf mem2) (us @ vs)"
      using i(5) assms(3) allocs_wf_cong [of "us @ vs" mem2 ?mem, OF keep] by (simp add: list_all_iff)
    show "distinct (alloc_nodes (us @ vs) @ rt_head (ra_tree ((st_ra s)\<lparr>ra_tree := tree\<rparr>)))"
      using i(6) range_wf_distinct [OF f(2)] f(5) unfolding nodes by auto
    show "st_live s - set freed2 = set (alloc_nodes (us @ vs) @ rt_head (ra_tree ((st_ra s)\<lparr>ra_tree := tree\<rparr>)))"
      using i(6,7) f(5,6,7) unfolding nodes by auto
    show "node_addrs mem2 p \<inter> node_addrs mem2 q = {}"
      if "p \<in> set (alloc_nodes (us @ vs))" "q \<in> set (alloc_nodes (us @ vs))" "p \<noteq> q" for p q
      using i(8) [of p q] that node_addrs_cong [of mem2 p ?mem] node_addrs_cong [of mem2 q ?mem]
        keep [OF that(1)] keep [OF that(2)] unfolding nodes by auto
  qed (use i f(2-4) t taken dj in auto)
qed

lemma ra_reachable_inv:
  assumes "rb_laws rb" and "ra_reachable rb sz s"
  shows "ra_inv sz s"
  using assms(2)
proof induction
  case (ra_init mem node ra mem' ra')
  then show ?case using ra_init_inv [OF assms(1)] by blast
next
  case (ra_alloc s new n k status a mem' ra' freed)
  then show ?case using ra_alloc_inv [OF assms(1)] by blast
next
  case (ra_free s us a vs status a' mem' ra' freed)
  then show ?case using ra_free_inv(2) [OF assms(1)] by blast
qed

lemma separated_cover_single:
  assumes "range_tree_wf mem t" and "separated mem (set (rt_head t))" and "tree_addrs mem t = {0..e}"
  obtains x where "rt_head t = [x]" "mem x = \<lparr>rn_start = 0, rn_end = e\<rparr>"
proof -
  have "0 \<in> tree_addrs mem t" using assms(3) by simp
  then obtain x ns where h: "rt_head t = x # ns" by (cases "rt_head t") (auto simp: tree_addrs_def)
  have le: "rn_start (mem n) \<le> rn_end (mem n)" if "n \<in> set (x # ns)" for n
    using range_wf_le [OF assms(1), of n] that h by simp
  have later: "rn_end (mem x) < rn_start (mem n)" if "n \<in> set ns" for n
    using assms(1) h that by (auto simp: range_tree_wf_def nodes_ordered_Cons)
  have "ns = []"
  proof (rule ccontr)
    assume "ns \<noteq> []"
    then obtain y ms where y: "ns = y # ms" by (cases ns) auto
    have after: "rn_end (mem y) < rn_start (mem n)" if "n \<in> set ms" for n
      using assms(1) h y that by (auto simp: range_tree_wf_def nodes_ordered_Cons)
    have xy: "rn_end (mem x) < rn_start (mem y)" using later y by simp
    then have up: "rn_end (mem x) + 1 \<le> rn_start (mem y)" and nz: "rn_end (mem x) \<noteq> - 1" by (auto simp: inc_le)
    then have "rn_end (mem x) < rn_end (mem x) + 1" using inc_less_eq_self_iff_eq [of "rn_end (mem x)"] by (simp add: not_le)
    note gap = this
    have "rn_start (mem y) \<in> tree_addrs mem t" using h y le [of y] by (auto simp: tree_addrs_def node_addrs_def)
    then have "rn_end (mem x) + 1 \<in> tree_addrs mem t" using assms(3) up by auto
    then obtain n where n: "n \<in> set (x # ns)" "rn_start (mem n) \<le> rn_end (mem x) + 1" "rn_end (mem x) + 1 \<le> rn_end (mem n)"
      using h by (auto simp: tree_addrs_def node_addrs_def)
    have "n \<noteq> x" using n(3) gap by auto
    have "n = y"
    proof (rule ccontr)
      assume "n \<noteq> y"
      then have "n \<in> set ms" using n(1) \<open>n \<noteq> x\<close> y by simp
      from after [OF this] le [of y] y n(2) up show False by simp
    qed
    then have "rn_end (mem x) + 1 = rn_start (mem y)" using n(2) up by simp
    then show False using assms(2) h y xy by (auto simp: separated_def)
  qed
  then have "node_addrs mem x = {0..e}" using assms(3) h by (simp add: tree_addrs_def)
  then have "rn_start (mem x) = 0 \<and> rn_end (mem x) = e" using Icc_eq_Icc [of "rn_start (mem x)" "rn_end (mem x)" 0 e]
    by (simp add: node_addrs_def)
  then show ?thesis using that [of x] h \<open>ns = []\<close> by (cases "mem x") simp
qed

text \<open>The arithmetic of one attempt: it succeeds exactly if an aligned range fits into the node.\<close>

lemma unat64_less: "unat (w :: NvU64) < 2 ^ 64"
  by (rule less_le_trans [OF unsigned_less]) simp

lemma word_range_end:
  fixes a n :: NvU64
  assumes "n > 0"
  shows "a + n - 1 \<ge> a \<and> a + n - 1 \<le> e \<longleftrightarrow> unat a + unat n \<le> unat e + 1"
proof (cases "unat a + (unat n - 1) < 2 ^ 64")
  case True
  have n1: "unat (n - 1) = unat n - 1" using assms by (simp add: unat_minus_one)
  have "unat (a + (n - 1)) = unat a + (unat n - 1)" using True n1 by (simp add: unat_word_ariths)
  then have "unat (a + n - 1) = unat a + (unat n - 1)" by (metis add_diff_eq)
  moreover have "unat n > 0" using assms by (simp add: unat_gt_0)
  ultimately show ?thesis unfolding word_le_nat_alt by linarith
next
  case False
  have n1: "unat (n - 1) = unat n - 1" using assms by (simp add: unat_minus_one)
  have b: "unat a < 2 ^ 64" "unat n < 2 ^ 64" "unat e < 2 ^ 64" by (rule unat64_less)+
  have "unat (a + (n - 1)) = (unat a + (unat n - 1)) mod 2 ^ 64" using n1 by (simp add: unat_word_ariths)
  also have "\<dots> = unat a + (unat n - 1) - 2 ^ 64" using False b by (simp add: mod_if)
  finally have "unat (a + (n - 1)) < unat a" using False b by linarith
  then have "unat (a + n - 1) < unat a" by (metis add_diff_eq)
  moreover have "\<not> unat a + unat n \<le> unat e + 1" using False b by linarith
  ultimately show ?thesis unfolding word_le_nat_alt by linarith
qed

lemma align_up_least:
  fixes s :: nat
  assumes "0 < q"
  shows "s \<le> (s + (q - 1)) div q * q" and "\<And>p. q dvd p \<Longrightarrow> s \<le> p \<Longrightarrow> (s + (q - 1)) div q * q \<le> p"
proof -
  have "s + (q - 1) < (s + (q - 1)) div q * q + q" using dividend_less_div_times [OF assms, of "s + (q - 1)"] by (simp add: add.commute)
  then show "s \<le> (s + (q - 1)) div q * q" by linarith
  fix p
  assume "q dvd p" "s \<le> p"
  then obtain c where c: "p = c * q" by (metis dvd_def mult.commute)
  have "s + (q - 1) < (c + 1) * q" using \<open>s \<le> p\<close> c assms by (simp add: add.commute) 
  then have "(s + (q - 1)) div q < c + 1" using assms by (simp add: less_mult_imp_div_less)
  then show "(s + (q - 1)) div q * q \<le> p" unfolding c by (intro mult_le_mono1) simp
qed

lemma align_up_overflow:
  assumes "k < 64" and "\<not> unat x + (2 ^ k - 1) < 2 ^ 64"
  shows "UVM_ALIGN_UP x (2 ^ k) < x"
proof -
  define q where "q = (2::nat) ^ k"
  have q: "0 < q" "q \<le> 2 ^ 63" using assms(1) power_increasing [of k 63 "2 :: nat"] unfolding q_def by simp_all
  have b: "unat x < 2 ^ 64" by (rule unat64_less)
  have "(2::NvU64) ^ k - 1 = of_nat (2 ^ k - 1)" by (simp add: of_nat_diff)
  moreover have "q - 1 < 2 ^ 64" using q by simp
  ultimately have "unat ((2::NvU64) ^ k - 1) = q - 1"
    by (simp only: unat_of_nat q_def) (simp add: take_bit_nat_eq_self)
  then have "unat (x + (2 ^ k - 1)) = (unat x + (q - 1)) mod 2 ^ 64" by (simp add: unat_word_ariths)
  also have "\<dots> = unat x + (q - 1) - 2 ^ 64" using assms(2) b q unfolding q_def [symmetric] by (simp add: mod_if)
  finally have "unat (x + (2 ^ k - 1)) < q" using b q by linarith
  then have "unat (UVM_ALIGN_UP x (2 ^ k)) = 0" unfolding UVM_ALIGN_UP_def unat_align_down by (simp add: q_def)
  moreover have "unat x > 0" using assms(2) q unfolding q_def [symmetric] by (cases "unat x = 0") simp_all
  ultimately show ?thesis by (simp add: word_less_nat_alt)
qed

lemma alloc_in_node_fits:
  assumes "n > 0" and "k < 64"
  shows "alloc_in_node mem n (2 ^ k) m \<noteq> None \<longleftrightarrow>
    (\<exists>p. 2 ^ k dvd p \<and> unat (rn_start (mem m)) \<le> p \<and> p + unat n \<le> unat (rn_end (mem m)) + 1)"
proof -
  define q where "q = (2::nat) ^ k"
  let ?s = "rn_start (mem m)" and ?e = "rn_end (mem m)"
  let ?a = "UVM_ALIGN_UP ?s (2 ^ k)"
  have q: "0 < q" "q dvd 2 ^ 64" using assms(2) le_imp_power_dvd [of k 64 "2 :: nat"] unfolding q_def by simp_all
  have b: "unat ?e < 2 ^ 64" "unat n > 0" using unat64_less [of ?e] assms(1) by (simp_all add: unat_gt_0)
  have iff: "alloc_in_node mem n (2 ^ k) m \<noteq> None \<longleftrightarrow> ?s \<le> ?a \<and> unat ?a + unat n \<le> unat ?e + 1"
    using word_range_end [OF assms(1), of ?a ?e] by (auto simp: alloc_in_node_def Let_def)
  show ?thesis
  proof (cases "unat ?s + (q - 1) < 2 ^ 64")
    case True
    have a: "unat ?a = (unat ?s + (q - 1)) div q * q" using unat_align_up [of ?s k] True by (simp add: q_def)
    note l = align_up_least [OF q(1), where s = "unat ?s"]
    have "?s \<le> ?a" using l(1) a by (simp add: word_le_nat_alt)
    moreover have "unat ?a + unat n \<le> unat ?e + 1 \<longleftrightarrow>
        (\<exists>p. q dvd p \<and> unat ?s \<le> p \<and> p + unat n \<le> unat ?e + 1)"
    proof
      assume "unat ?a + unat n \<le> unat ?e + 1"
      then show "\<exists>p. q dvd p \<and> unat ?s \<le> p \<and> p + unat n \<le> unat ?e + 1" using l(1) a by (intro exI [of _ "unat ?a"]) simp
    next
      assume "\<exists>p. q dvd p \<and> unat ?s \<le> p \<and> p + unat n \<le> unat ?e + 1"
      then obtain p where p: "q dvd p" "unat ?s \<le> p" "p + unat n \<le> unat ?e + 1" by blast
      show "unat ?a + unat n \<le> unat ?e + 1" using l(2) [OF p(1,2)] p(3) a by linarith
    qed
    ultimately show ?thesis using iff by (simp add: q_def)
  next
    case False
    have "\<not> p + unat n \<le> unat ?e + 1" if "q dvd p" "unat ?s \<le> p" for p
    proof -
      have "2 ^ 64 \<le> p"
      proof (rule ccontr)
        assume "\<not> 2 ^ 64 \<le> p"
        then have "q \<le> 2 ^ 64 - p" using that(1) q(2) by (intro dvd_imp_le) (auto intro: dvd_diff_nat)
        then show False using False that(2) \<open>\<not> 2 ^ 64 \<le> p\<close> q(1) by linarith
      qed
      then show ?thesis using b by linarith
    qed
    moreover have "\<not> ?s \<le> ?a" using align_up_overflow [OF assms(2), of ?s] False by (simp add: q_def not_le)
    ultimately show ?thesis using iff by (auto simp: q_def)
  qed
qed

lemma sample_reachable: "ra_reachable plain_rb 100 sample_state"
proof -
  let ?ra = "\<lparr>ra_size = 0, ra_tree = uvm_range_tree_init\<rparr> :: nat uvm_range_allocator_t"
  let ?mem = "(\<lambda>_. \<lparr>rn_start = 0, rn_end = 99\<rparr>) :: nat range_mem"
  have upd: "?mem(0 := \<lparr>rn_start = 0, rn_end = 99\<rparr>) = ?mem" by auto
  have "uvm_range_allocator_init plain_rb ?mem (Some 0) 100 ?ra =
      (NV_OK, ?mem, \<lparr>ra_size = 100, ra_tree = \<lparr>rt_root = Node Leaf 0 Leaf, rt_head = [0]\<rparr>\<rparr>)"
    by (simp add: uvm_range_allocator_init_def uvm_range_tree_add_def range_node_find_def uvm_range_tree_init_def
        plain_rb_def list_add_def upd)
  from ra_reachable.ra_init [OF _ this] show ?thesis by (simp add: sample_state_def)
qed

subsection \<open>Properties\<close>

text \<open>
  C29: In every state that calls of a client can reach, the free ranges and the ranges of the
  allocations partition the address range of the allocator: allocations are pairwise disjoint and
  contain their aligned start, no free range is lost, free ranges that touch have been joined, and the
  nodes in use are exactly those of the tree and of the allocations. Freeing an allocation never
  fails.
\<close>

theorem range_allocator_partition:
  assumes "rb_laws rb" and "ra_reachable rb sz s"
  shows "ra_inv sz s \<and>
    (\<forall>a\<in>set (st_allocs s). fst (uvm_range_allocator_free rb (st_mem s) (st_ra s) (Some a)) = NV_OK)"
proof (intro conjI ballI)
  show inv: "ra_inv sz s" using ra_reachable_inv [OF assms] .
  fix a
  assume "a \<in> set (st_allocs s)"
  then obtain us vs where "st_allocs s = us @ a # vs" by (meson split_list)
  then show "fst (uvm_range_allocator_free rb (st_mem s) (st_ra s) (Some a)) = NV_OK"
    using ra_free_inv(1) [OF assms(1) inv] by (metis prod.exhaust_sel)
qed

theorem range_allocator_partition_witness:
  "ra_inv 100 sample_state"
  using range_allocator_partition [OF plain_rb_laws sample_reachable] by simp

text \<open>
  C30: Once a client has freed everything, the allocator is as after its initialisation: the tree has
  a single node that spans the whole range, and the deinitialisation finds it, gives it back and
  leaves an empty tree.
\<close>

theorem range_allocator_drains:
  assumes "rb_laws rb" and "ra_reachable rb sz s" and "st_allocs s = []"
  shows "\<exists>x. rt_head (ra_tree (st_ra s)) = [x] \<and> st_mem s x = \<lparr>rn_start = 0, rn_end = sz - 1\<rparr> \<and> st_live s = {x} \<and>
    (case uvm_range_allocator_deinit rb (st_mem s) (st_ra s) of (freed, ra) \<Rightarrow> freed = [x] \<and> rt_head (ra_tree ra) = [])"
proof -
  note i = ra_invD [OF ra_reachable_inv [OF assms(1,2)]]
  have "taken_addrs (st_mem s) (st_allocs s) = {}" using assms(3) by (simp add: taken_addrs_def alloc_nodes_def)
  then have "tree_addrs (st_mem s) (ra_tree (st_ra s)) = {0..sz - 1}" using i(10) by simp
  then obtain x where x: "rt_head (ra_tree (st_ra s)) = [x]" "st_mem s x = \<lparr>rn_start = 0, rn_end = sz - 1\<rparr>"
    using separated_cover_single [OF i(3,4)] by blast
  have "uvm_range_tree_iter_first (st_mem s) (ra_tree (st_ra s)) 0 (sz - 1) = Some x"
  proof -
    obtain xs ys where f: "rt_head (ra_tree (st_ra s)) = xs @ ys" "\<And>x. x \<in> set xs \<Longrightarrow> rn_end (st_mem s x) < 0"
        "uvm_range_tree_iter_first (st_mem s) (ra_tree (st_ra s)) 0 (sz - 1) =
           (case ys of [] \<Rightarrow> None | y # _ \<Rightarrow> if rn_start (st_mem s y) \<le> sz - 1 then Some y else None)"
      using iter_first_place [OF i(3), of 0 "sz - 1"] by auto
    have "xs = []" using f(2) by (cases xs) auto
    then have "ys = [x]" using f(1) x(1) by simp
    then show ?thesis using f(3) x(2) by simp
  qed
  then show ?thesis
    using x i(2,7) assms(3)
    by (auto simp: uvm_range_allocator_deinit_def uvm_range_tree_remove_def alloc_nodes_def list_del_def)
qed

theorem range_allocator_drains_witness:
  "\<exists>x. rt_head (ra_tree (st_ra sample_state)) = [x] \<and> st_live sample_state = {x}"
  using range_allocator_drains [OF plain_rb_laws sample_reachable] by (auto simp: sample_state_def)

text \<open>
  C31: An allocation from a reachable state returns. It succeeds exactly if an aligned range of the
  size fits into one of the free ranges, computed without overflow; the result is aligned, was free
  and is free no more. Otherwise the allocator and its memory are unchanged and the status is an
  error.
\<close>

theorem range_allocator_complete:
  assumes "rb_laws rb" and "ra_reachable rb sz s" and "new \<notin> st_live s" and "0 < n" and "k < 64"
  shows "\<exists>status a mem ra freed.
    uvm_range_allocator_alloc rb (st_mem s) (Some new) (st_ra s) n (2 ^ k) a0 = Some (status, a, mem, ra, freed) \<and>
    (if \<exists>m p. m \<in> set (rt_head (ra_tree (st_ra s))) \<and> 2 ^ k dvd p \<and> unat (rn_start (st_mem s m)) \<le> p \<and>
          p + unat n \<le> unat (rn_end (st_mem s m)) + 1
     then status = NV_OK \<and> 2 ^ k dvd unat (al_start a) \<and> al_start a \<le> al_start a + n - 1 \<and>
       {al_start a..al_start a + n - 1} \<subseteq> tree_addrs (st_mem s) (ra_tree (st_ra s)) \<and>
       {al_start a..al_start a + n - 1} \<inter> tree_addrs mem (ra_tree ra) = {}
     else status = NV_ERR_UVM_ADDRESS_IN_USE \<and> mem = st_mem s \<and> ra = st_ra s)"
proof -
  note i = ra_invD [OF ra_reachable_inv [OF assms(1,2)]]
  let ?fits = "\<lambda>m p. 2 ^ k dvd p \<and> unat (rn_start (st_mem s m)) \<le> p \<and> p + unat n \<le> unat (rn_end (st_mem s m)) + 1"
  have sz: "unat (sz - 1) = unat sz - 1" "unat sz > 0" using i(1) by (simp_all add: unat_minus_one unat_gt_0)
  have top: "unat (rn_end (st_mem s m)) + 1 \<le> unat sz" if "m \<in> set (rt_head (ra_tree (st_ra s)))" for m
  proof -
    have "rn_end (st_mem s m) \<in> tree_addrs (st_mem s) (ra_tree (st_ra s))"
      using range_wf_le [OF i(3) that] that by (auto simp: tree_addrs_def node_addrs_def)
    then have "rn_end (st_mem s m) \<le> sz - 1" using i(10) by auto
    then show ?thesis using sz unfolding word_le_nat_alt by linarith
  qed
  have fresh: "new \<notin> set (rt_head (ra_tree (st_ra s)))" using assms(3) i(7) by simp
  have al: "2 ^ k = (if (2::NvU64) ^ k = 0 then 1 else 2 ^ k)" using assms(5) by simp
  have fit_node: "m \<in> set (fit_nodes (st_mem s) (st_ra s) n)"
    if "m \<in> set (rt_head (ra_tree (st_ra s)))" "n \<le> sz" "?fits m p" for m p
  proof -
    have "unat (sz - n) = unat sz - unat n" using that(2) by (simp add: unat_sub)
    then have "rn_start (st_mem s m) \<le> sz - n" using that(3) top [OF that(1)] unfolding word_le_nat_alt by linarith
    then show ?thesis using that(1) i(2) by (simp add: fit_nodes_def)
  qed
  from assms(1) i(3,4) fresh al show ?thesis
  proof (cases rule: alloc_cases [where n = n and ?a0.0 = a0])
    case big
    then have "unat sz < unat n" using i(2) by (simp add: word_less_nat_alt)
    then have "\<not> ?fits m p" if "m \<in> set (rt_head (ra_tree (st_ra s)))" for m p using top [OF that] by linarith
    then show ?thesis using big(2) by auto
  next
    case full
    then have "\<not> ?fits m p" if "m \<in> set (rt_head (ra_tree (st_ra s)))" for m p
      using fit_node [OF that, of p] alloc_in_node_fits [OF assms(4,5), of "st_mem s" m] i(2) by auto
    then show ?thesis using full(3) by auto
  next
    case (ok m b e mem tree freed)
    note bounds = alloc_in_node_bounds [OF ok(3)]
    have m: "m \<in> set (rt_head (ra_tree (st_ra s)))" using ok(2) by (simp add: fit_nodes_def)
    have "\<exists>p. ?fits m p" using alloc_in_node_fits [OF assms(4,5), of "st_mem s" m] ok(3) by auto
    moreover have "2 ^ k dvd unat b"
    proof -
      have "unat b = unat (rn_start (st_mem s m) + (2 ^ k - 1)) div 2 ^ k * 2 ^ k"
        using bounds by (simp add: UVM_ALIGN_UP_def unat_align_down)
      then show ?thesis by simp
    qed
    moreover have "{b..e} \<subseteq> node_addrs mem new"
      using bounds ok(11) by (auto simp: node_addrs_def intro: order_trans)
    ultimately show ?thesis using ok(4,7,8) bounds m by (auto; blast)
  qed
qed

theorem range_allocator_complete_witness:
  "\<exists>a mem ra freed.
    uvm_range_allocator_alloc plain_rb (st_mem sample_state) (Some 1) (st_ra sample_state) 10 (2 ^ 4) empty_allocation =
      Some (NV_OK, a, mem, ra, freed) \<and> 2 ^ 4 dvd unat (al_start a)"
proof -
  let ?fits = "\<lambda>m p. m \<in> set (rt_head (ra_tree (st_ra sample_state))) \<and> 2 ^ 4 dvd p \<and>
    unat (rn_start (st_mem sample_state m)) \<le> p \<and> p + unat (10 :: NvU64) \<le> unat (rn_end (st_mem sample_state m)) + 1"
  have "?fits 0 0" by (simp add: sample_state_def)
  then have fits: "\<exists>m p. ?fits m p" by blast
  have "1 \<notin> st_live sample_state" by (simp add: sample_state_def)
  then show ?thesis
    using range_allocator_complete [OF plain_rb_laws sample_reachable, of 1 10 4 empty_allocation]
    unfolding if_P [OF fits] by fastforce
qed

end
