(* ===== verification/Prefetch.thy ===== *)
theory Prefetch
  imports Mem_Hooks Range_Tree Perf_Tree
begin

section \<open>Prefetching\<close>

text \<open>
  \<^verbatim>\<open>uvm_perf_prefetch.c\<close> with its policy hooks: the bitmap tree over the pages of a
  block, the region to prefetch around a faulted page (the native heuristic, or what a policy asks for within
  the validator's limits), the mask for a batch of faults, and the hint of a block. The region of a block with
  a heterogeneous-memory policy is the one of \<^verbatim>\<open>uvm_hmm.c\<close> and
  \<^verbatim>\<open>uvm_va_policy.c\<close>, over a range tree of policy nodes. Of a block and of its address
  space the model has what this code reads: residency and thrashing masks, the registered GPUs with their big
  page sizes, and the range groups.

  The table of policy callbacks may change between two calls, and so may what a policy answers: the table that
  a call sees is an argument, indexed by the page and by the number of the call.
\<close>

subsection \<open>Types\<close>

type_synonym uvm_processor_id_t = NvU32

abbreviation (input) UVM_ID_CPU :: uvm_processor_id_t where
  "UVM_ID_CPU \<equiv> 0"

abbreviation (input) UVM_ID_INVALID :: uvm_processor_id_t where
  "UVM_ID_INVALID \<equiv> 257"

abbreviation (input) UVM_PAGE_SIZE_64K :: NvU64 where
  "UVM_PAGE_SIZE_64K \<equiv> 0x10000"

record uvm_perf_prefetch_bitmap_tree_iter_t =
  bi_level_idx :: int
  bi_node_idx :: uvm_page_index_t

record prefetch_params =
  uvm_perf_prefetch_enable :: NvU32
  uvm_perf_prefetch_threshold :: NvU32
  uvm_perf_prefetch_min_faults :: NvU32

record prefetch_globals =
  g_uvm_perf_prefetch_enable :: bool
  g_uvm_perf_prefetch_threshold :: NvU32
  g_uvm_perf_prefetch_min_faults :: NvU32

datatype prefetch_diag_phase = UVM_BPF_PREFETCH_DIAG_SELECTED | UVM_BPF_PREFETCH_DIAG_FINISHED

record uvm_bpf_prefetch_diagnostic_ctx =
  pd_raw_action :: NvS64
  pd_requested_first :: NvU64
  pd_requested_outer :: NvU64
  pd_max_first :: NvU64
  pd_max_outer :: NvU64
  pd_output_first :: NvU64
  pd_output_outer :: NvU64
  pd_phase :: prefetch_diag_phase
  pd_request_attempted :: bool
  pd_request_conflict :: bool
  pd_initial_region_result :: nv_gpu_transition_result
  pd_initial_effect :: nv_gpu_prefetch_initial_effect
  pd_native_iterations :: NvU32
  pd_native_completed :: NvU32

record uvm_perf_prefetch_hint_t =
  hint_pages :: uvm_page_mask_t
  hint_residency :: uvm_processor_id_t

type_synonym 'pmm hook_env = "nat \<Rightarrow> 'pmm mem_ops_mem \<times> mem_ops_slot"

subsection \<open>The bitmap tree\<close>

definition uvm_perf_tree_iter_max_leaves ::
  "uvm_perf_prefetch_bitmap_tree_t \<Rightarrow> uvm_perf_prefetch_bitmap_tree_iter_t \<Rightarrow> NvU16" where
  "uvm_perf_tree_iter_max_leaves tree iter =
     push_bit (nat ((uint (bt_level_count tree) - 1) - bi_level_idx iter)) 1"

definition uvm_perf_tree_iter_leaf_range_start ::
  "uvm_perf_prefetch_bitmap_tree_t \<Rightarrow> uvm_perf_prefetch_bitmap_tree_iter_t \<Rightarrow> NvU16" where
  "uvm_perf_tree_iter_leaf_range_start tree iter =
     bi_node_idx iter AND NOT (uvm_perf_tree_iter_max_leaves tree iter - 1)"

definition uvm_perf_tree_iter_leaf_range ::
  "uvm_perf_prefetch_bitmap_tree_t \<Rightarrow> uvm_perf_prefetch_bitmap_tree_iter_t \<Rightarrow> NvU16" where
  "uvm_perf_tree_iter_leaf_range tree iter =
     (let range_leaves = uvm_perf_tree_iter_max_leaves tree iter;
          range_start = uvm_perf_tree_iter_leaf_range_start tree iter;
          range_end_max = range_start + range_leaves;
          range_end = min range_end_max (bt_leaf_count tree)
      in range_end - range_start)"

definition uvm_perf_prefetch_bitmap_tree_iter_init ::
  "uvm_perf_prefetch_bitmap_tree_t \<Rightarrow> uvm_page_index_t \<Rightarrow>
      uvm_perf_prefetch_bitmap_tree_iter_t" where
  "uvm_perf_prefetch_bitmap_tree_iter_init tree page_index =
     \<lparr>bi_level_idx = sint (bt_level_count tree - 1), bi_node_idx = page_index\<rparr>"

definition uvm_perf_prefetch_bitmap_tree_iter_get_range ::
  "uvm_perf_prefetch_bitmap_tree_t \<Rightarrow> uvm_perf_prefetch_bitmap_tree_iter_t \<Rightarrow>
      uvm_va_block_region_t" where
  "uvm_perf_prefetch_bitmap_tree_iter_get_range tree iter =
     (let range_leaves = uvm_perf_tree_iter_leaf_range tree iter;
          range_start = uvm_perf_tree_iter_leaf_range_start tree iter
      in uvm_va_block_region range_start (range_start + range_leaves))"

definition uvm_perf_prefetch_bitmap_tree_iter_get_count ::
  "uvm_perf_prefetch_bitmap_tree_t \<Rightarrow> uvm_perf_prefetch_bitmap_tree_iter_t \<Rightarrow> NvU16" where
  "uvm_perf_prefetch_bitmap_tree_iter_get_count tree iter =
     ucast (uvm_page_mask_region_weight (bt_pages tree) (uvm_perf_prefetch_bitmap_tree_iter_get_range tree iter))"

text \<open>What the traversal macro visits: the counter and the iterator, from the leaf up to the root.\<close>

function counters_from ::
  "uvm_perf_prefetch_bitmap_tree_t \<Rightarrow> uvm_perf_prefetch_bitmap_tree_iter_t \<Rightarrow>
     (NvU16 \<times> uvm_perf_prefetch_bitmap_tree_iter_t) list" where
  "counters_from tree iter =
     (if bi_level_idx iter < 0 then []
      else (uvm_perf_prefetch_bitmap_tree_iter_get_count tree iter, iter) #
        counters_from tree (iter\<lparr>bi_level_idx := bi_level_idx iter - 1\<rparr>))"
  by auto

termination by (relation "measure (\<lambda>(tree, iter). nat (bi_level_idx iter + 1))") auto

declare counters_from.simps [simp del]

definition uvm_perf_prefetch_bitmap_tree_traverse_counters ::
  "uvm_perf_prefetch_bitmap_tree_t \<Rightarrow> uvm_page_index_t \<Rightarrow>
     (NvU16 \<times> uvm_perf_prefetch_bitmap_tree_iter_t) list" where
  "uvm_perf_prefetch_bitmap_tree_traverse_counters tree page =
     counters_from tree (uvm_perf_prefetch_bitmap_tree_iter_init tree page)"

subsection \<open>The region around a faulted page\<close>

abbreviation (input) type_outer :: NvU64 where
  "type_outer \<equiv> 0xFFFF"

definition block_outer :: NvU64 where
  "block_outer = of_nat PAGES_PER_UVM_VA_BLOCK"

definition validated_pages :: "nv_gpu_transition_region_t \<Rightarrow> uvm_va_block_region_t" where
  "validated_pages r = \<lparr>reg_first = ucast (tr_first r), reg_outer = ucast (tr_outer r)\<rparr>"

text \<open>One round of the policy's own traversal.\<close>

definition prefetch_iterate ::
  "'pmm hook_env \<Rightarrow> uvm_perf_prefetch_bitmap_tree_t \<Rightarrow> uvm_va_block_region_t \<Rightarrow>
     NvU16 \<times> uvm_perf_prefetch_bitmap_tree_iter_t \<Rightarrow> uvm_va_block_region_t \<Rightarrow>
         uvm_va_block_region_t" where
  "prefetch_iterate env tree max_region = (\<lambda>(counter, iter) prefetch_region.
     (let relative_region = uvm_perf_prefetch_bitmap_tree_iter_get_range tree iter
      in case nv_gpu_transition_translate_region (ucast (reg_first max_region))
                (ucast (reg_first relative_region)) (ucast (reg_outer relative_region))
                (ucast (bt_offset tree)) (ucast (reg_outer max_region)) block_outer type_outer of
           (translate_result, absolute_region) \<Rightarrow>
             if translate_result \<noteq> NV_GPU_TRANSITION_APPLY then prefetch_region
             else
               (let current_region = validated_pages absolute_region
                in case env (Suc (nat (bi_level_idx iter))) of (mem, slot) \<Rightarrow>
                   case uvm_bpf_call_gpu_page_prefetch_iter mem slot tree max_region current_region
                          (ucast counter) of
                     (iterator_action, iterator_decision) \<Rightarrow>
                       (case nv_gpu_transition_validate_region iterator_decision (ucast (reg_first max_region))
                               (ucast (reg_outer max_region)) block_outer type_outer of
                          (iterator_region_result, validated_region) \<Rightarrow>
                            if nv_gpu_transition_prefetch_iterator_effect iterator_action iterator_region_result =
                               NV_GPU_PREFETCH_ITERATOR_COMMIT
                              then validated_pages validated_region
                            else prefetch_region))))"

text \<open>One round of the native heuristic: the last subtree that is over the threshold wins.\<close>

definition prefetch_native ::
  "NvU32 \<Rightarrow> uvm_perf_prefetch_bitmap_tree_t \<Rightarrow> NvU16 \<times>
      uvm_perf_prefetch_bitmap_tree_iter_t \<Rightarrow>
     uvm_va_block_region_t \<Rightarrow> uvm_va_block_region_t" where
  "prefetch_native threshold tree = (\<lambda>(counter, iter) relative_region.
     (let subregion = uvm_perf_prefetch_bitmap_tree_iter_get_range tree iter;
          subregion_pages = ucast (uvm_va_block_region_num_pages subregion) :: NvU16
      in if ucast counter * 100 > ucast subregion_pages * threshold then subregion else relative_region))"

definition compute_prefetch_region ::
  "'pmm hook_env \<Rightarrow> NvU32 \<Rightarrow> uvm_page_index_t \<Rightarrow>
      uvm_perf_prefetch_bitmap_tree_t \<Rightarrow>
     uvm_va_block_region_t \<Rightarrow> uvm_va_block_region_t \<times> uvm_bpf_prefetch_diagnostic_ctx list" where
  "compute_prefetch_region env threshold page_index tree max_region =
     (case env 0 of (mem, slot) \<Rightarrow>
      case uvm_bpf_call_gpu_page_prefetch mem slot page_index tree max_region of (raw_action, initial_decision)
          \<Rightarrow>
      case nv_gpu_transition_validate_region initial_decision (ucast (reg_first max_region))
             (ucast (reg_outer max_region)) block_outer type_outer of (region_result, validated_region) \<Rightarrow>
        (let initial_effect = nv_gpu_transition_prefetch_initial_effect raw_action region_result;
             diagnostic =
               \<lparr>pd_raw_action = raw_action, pd_requested_first = pf_first initial_decision,
                pd_requested_outer = pf_outer initial_decision, pd_max_first = ucast (reg_first max_region),
                pd_max_outer = ucast (reg_outer max_region), pd_output_first = 0, pd_output_outer = 0,
                pd_phase = UVM_BPF_PREFETCH_DIAG_SELECTED, pd_request_attempted = pf_attempted initial_decision,
                pd_request_conflict = pf_conflict initial_decision, pd_initial_region_result = region_result,
                pd_initial_effect = initial_effect, pd_native_iterations = 0, pd_native_completed = 0\<rparr>;
             prefetch_region = uvm_va_block_region 0 0;
             visits = uvm_perf_prefetch_bitmap_tree_traverse_counters tree
                        (page_index - reg_first max_region + bt_offset tree);
             (prefetch_region, finished) =
               (if initial_effect = NV_GPU_PREFETCH_INITIAL_BYPASS then
                  (validated_pages validated_region, diagnostic)
                else if initial_effect = NV_GPU_PREFETCH_INITIAL_ITERATE then
                  (fold (prefetch_iterate env tree max_region) visits prefetch_region, diagnostic)
                else
                  (let relative_region = fold (prefetch_native threshold tree) visits (uvm_va_block_region 0 0);
                       diagnostic = diagnostic\<lparr>pd_native_iterations := of_nat (length visits),
            pd_native_completed := 1\<rparr>
                   in if reg_outer relative_region \<noteq> 0 then
                        (case nv_gpu_transition_translate_region (ucast (reg_first max_region))
                                (ucast (reg_first relative_region)) (ucast (reg_outer relative_region))
                                (ucast (bt_offset tree)) (ucast (reg_outer max_region)) block_outer type_outer of
                           (region_result, validated_region) \<Rightarrow>
                             (if region_result = NV_GPU_TRANSITION_APPLY then validated_pages validated_region
                              else prefetch_region,
                              diagnostic))
                      else (prefetch_region, diagnostic)))
         in (prefetch_region,
             [diagnostic,
              finished\<lparr>pd_output_first := ucast (reg_first prefetch_region),
                       pd_output_outer := ucast (reg_outer prefetch_region),
                       pd_phase := UVM_BPF_PREFETCH_DIAG_FINISHED\<rparr>])))"

subsection \<open>Building the tree\<close>

definition grow_fault_granularity_if_no_thrashing ::
  "uvm_perf_prefetch_bitmap_tree_t \<Rightarrow> uvm_va_block_region_t \<Rightarrow> uvm_page_index_t
      \<Rightarrow> uvm_page_mask_t \<Rightarrow>
     uvm_page_mask_t option \<Rightarrow> uvm_perf_prefetch_bitmap_tree_t" where
  "grow_fault_granularity_if_no_thrashing tree region first faulted_pages thrashing_pages =
     (if \<not> uvm_page_mask_region_empty faulted_pages region \<and>
         (case thrashing_pages of None \<Rightarrow> True | Some thrashing \<Rightarrow>
            uvm_page_mask_region_empty thrashing region)
        then tree\<lparr>bt_pages := uvm_page_mask_region_fill (bt_pages tree)
               \<lparr>reg_first = reg_first region - first + bt_offset tree,
                reg_outer = reg_outer region - first + bt_offset tree\<rparr>\<rparr>
      else tree)"

text \<open>The loop over the big pages; \<open>None\<close> if it does not end.\<close>

partial_function (option) grow_big_pages ::
  "uvm_page_index_t \<Rightarrow> uvm_va_block_region_t \<Rightarrow> uvm_page_index_t \<Rightarrow>
      uvm_page_mask_t \<Rightarrow> uvm_page_mask_t option \<Rightarrow>
     uvm_page_index_t \<Rightarrow> uvm_perf_prefetch_bitmap_tree_t \<Rightarrow>
         uvm_perf_prefetch_bitmap_tree_t option" where
  "grow_big_pages pages_per_big_page big_pages_region first faulted_pages thrashing_pages page_index tree =
     (if page_index < reg_outer big_pages_region then
        grow_big_pages pages_per_big_page big_pages_region first faulted_pages thrashing_pages
          (page_index + pages_per_big_page)
          (grow_fault_granularity_if_no_thrashing tree
             (uvm_va_block_region page_index (page_index + pages_per_big_page)) first faulted_pages thrashing_pages)
      else Some tree)"

definition grow_fault_granularity ::
  "uvm_perf_prefetch_bitmap_tree_t \<Rightarrow> NvU64 \<Rightarrow> uvm_va_block_region_t \<Rightarrow>
      uvm_va_block_region_t \<Rightarrow>
     uvm_page_mask_t \<Rightarrow> uvm_page_mask_t option \<Rightarrow> uvm_perf_prefetch_bitmap_tree_t option" where
  "grow_fault_granularity tree big_page_size big_pages_region max_region faulted_pages thrashing_pages =
     (let pages_per_big_page = ucast (big_page_size div PAGE_SIZE) :: uvm_page_index_t;
          first = reg_first max_region
      in if reg_outer big_pages_region = 0 then
           Some (grow_fault_granularity_if_no_thrashing tree max_region first faulted_pages thrashing_pages)
         else
           (let tree =
              (if reg_first big_pages_region > first then
                 grow_fault_granularity_if_no_thrashing tree
                   (uvm_va_block_region first (reg_first big_pages_region)) first faulted_pages thrashing_pages
               else tree)
            in map_option
                 (\<lambda>tree.
                    if reg_outer big_pages_region < reg_outer max_region then
                      grow_fault_granularity_if_no_thrashing tree
                        (uvm_va_block_region (reg_outer big_pages_region) (reg_outer max_region)) first
                        faulted_pages thrashing_pages
                    else tree)
                 (grow_big_pages pages_per_big_page big_pages_region first faulted_pages thrashing_pages
                    (reg_first big_pages_region) tree)))"

definition tree_level_count :: "NvU16 \<Rightarrow> NvU8" where
  "tree_level_count leaves = of_nat (ilog2 (roundup_pow_of_two (unat leaves)) + 1)"

definition init_bitmap_tree_from_region ::
  "uvm_va_block_region_t \<Rightarrow> uvm_page_mask_t option \<Rightarrow> uvm_page_mask_t \<Rightarrow>
      uvm_perf_prefetch_bitmap_tree_t" where
  "init_bitmap_tree_from_region max_region resident_mask faulted_pages =
     (let pages = (case resident_mask of Some m \<Rightarrow> m OR faulted_pages | None \<Rightarrow> faulted_pages);
          leaves = ucast (uvm_va_block_region_num_pages max_region) :: NvU16
      in \<lparr>bt_pages = uvm_page_mask_shift_right pages (unat (reg_first max_region)), bt_offset = 0,
          bt_leaf_count = leaves, bt_level_count = tree_level_count leaves\<rparr>)"

text \<open>
  What the code reads of an address space and of a block. The virtual memory area of the context, which
  is the one of the fault, is kept with the block; a policy is the default one, the one of a node of the
  block's policy tree, or the one of the block's managed range.
\<close>

record prefetch_va_space =
  page_prefetch_enabled :: bool
  registered_gpu_va_spaces :: "uvm_processor_id_t \<Rightarrow> bool"
  gpu_big_page_size :: "uvm_processor_id_t \<Rightarrow> NvU64"
  range_group_mem :: "NvU64 range_mem"
  range_group_ranges :: "NvU64 uvm_range_tree_t"

datatype uvm_va_policy_ref = Policy_Default | Policy_Node NvU64 | Policy_Range

record prefetch_va_block = uvm_va_block_t +
  last_migration_proc_id :: uvm_processor_id_t
  fault_migrations_to_last_proc :: NvU16
  vb_is_hmm :: bool
  va_policy_mem :: "NvU64 range_mem"
  va_policy_tree :: "NvU64 uvm_range_tree_t"
  policy_preferred :: "uvm_va_policy_ref \<Rightarrow> uvm_processor_id_t"
  vma_start :: NvU64
  vma_end :: NvU64
  vb_resident :: "uvm_processor_id_t list"
  vb_resident_mask :: "uvm_processor_id_t \<Rightarrow> uvm_page_mask_t"
  vb_gpu_state :: "uvm_processor_id_t \<Rightarrow> bool"
  vb_cpu_read :: uvm_page_mask_t
  vb_thrashing :: "uvm_page_mask_t option"

definition update_bitmap_tree_from_va_block ::
  "uvm_perf_prefetch_bitmap_tree_t \<Rightarrow> prefetch_va_space \<Rightarrow> prefetch_va_block
      \<Rightarrow> uvm_processor_id_t \<Rightarrow>
     uvm_page_mask_t \<Rightarrow> uvm_va_block_region_t \<Rightarrow> uvm_perf_prefetch_bitmap_tree_t option" where
  "update_bitmap_tree_from_va_block tree va_space va_block new_residency faulted_pages max_region =
     (let big_page_size =
        (if new_residency \<noteq> UVM_ID_CPU \<and> new_residency \<noteq> UVM_ID_INVALID \<and>
            registered_gpu_va_spaces va_space new_residency
           then gpu_big_page_size va_space new_residency else UVM_PAGE_SIZE_64K);
          big_pages_region = uvm_va_block_big_page_region_subset va_block max_region big_page_size;
          tree =
            (if int (unat (reg_first big_pages_region)) - int (unat (reg_first max_region)) > 0 then
               (let offset = ucast (big_page_size div PAGE_SIZE) - (reg_first big_pages_region - reg_first
            max_region);
                    leaves = ucast (uvm_va_block_region_num_pages max_region) + offset
                in \<lparr>bt_pages = uvm_page_mask_shift_left (bt_pages tree) (unat offset), bt_offset = offset,
                    bt_leaf_count = leaves, bt_level_count = tree_level_count leaves\<rparr>)
             else tree)
      in grow_fault_granularity tree big_page_size big_pages_region max_region faulted_pages
           (vb_thrashing va_block))"

subsection \<open>The mask of a batch of faults\<close>

definition prefetch_page ::
  "(uvm_page_index_t \<Rightarrow> 'pmm hook_env) \<Rightarrow> NvU32 \<Rightarrow> uvm_va_block_region_t
      \<Rightarrow> uvm_perf_prefetch_bitmap_tree_t \<Rightarrow>
     uvm_page_index_t \<Rightarrow> uvm_page_mask_t \<Rightarrow> unit option \<times> uvm_page_mask_t" where
  "prefetch_page env threshold max_region tree page_index prefetch_mask =
     (let region = fst (compute_prefetch_region (env page_index) threshold page_index tree max_region);
          prefetch_mask = uvm_page_mask_region_fill prefetch_mask region
      in (if reg_outer region = reg_outer max_region then Some () else None, prefetch_mask))"

definition compute_prefetch_mask ::
  "(uvm_page_index_t \<Rightarrow> 'pmm hook_env) \<Rightarrow> NvU32 \<Rightarrow> uvm_va_block_region_t
      \<Rightarrow> uvm_va_block_region_t \<Rightarrow>
     uvm_perf_prefetch_bitmap_tree_t \<Rightarrow> uvm_page_mask_t \<Rightarrow> uvm_page_mask_t" where
  "compute_prefetch_mask env threshold faulted_region max_region tree faulted_pages =
     snd (fold_exit (prefetch_page env threshold max_region tree)
            (for_each_va_block_page_in_region_mask (Some faulted_pages) faulted_region) 0)"

subsection \<open>The region of a policy\<close>

text \<open>
  The policy of a block that is not one of heterogeneous memory is the one of its range; only blocks of
  heterogeneous memory have a policy tree, so the prefetch region below meets the other two only.
\<close>

definition uvm_va_policy_get_region :: "prefetch_va_block \<Rightarrow> uvm_va_block_region_t \<Rightarrow>
    uvm_va_policy_ref" where
  "uvm_va_policy_get_region va_block region =
     (if vb_is_hmm va_block then
        (case uvm_range_tree_find (va_policy_mem va_block) (va_policy_tree va_block)
                (uvm_va_block_region_start va_block region) of
           Some node \<Rightarrow> Policy_Node node
         | None \<Rightarrow> Policy_Default)
      else Policy_Range)"

definition uvm_hmm_get_prefetch_region ::
  "prefetch_va_block \<Rightarrow> uvm_va_policy_ref \<Rightarrow> NvU64 \<Rightarrow> uvm_va_block_region_t" where
  "uvm_hmm_get_prefetch_region va_block policy address =
     (let start = max (vb_start va_block) (vma_start va_block);
          end' = min (vb_end va_block) (vma_end va_block - 1);
          (start, end') =
            (case policy of
               Policy_Node node \<Rightarrow>
                 (max start (rn_start (va_policy_mem va_block node)),
                  min end' (rn_end (va_policy_mem va_block node)))
             | _ \<Rightarrow>
                 (case uvm_range_tree_find_hole_in (va_policy_mem va_block) (va_policy_tree va_block)
                         address start end' of (status, start, end') \<Rightarrow> (start, end')))
      in uvm_va_block_region_from_start_end va_block start end')"

subsection \<open>Hints\<close>

definition max_prefetch_region ::
  "prefetch_va_block \<Rightarrow> uvm_va_policy_ref \<Rightarrow> uvm_va_block_region_t \<Rightarrow>
      uvm_va_block_region_t" where
  "max_prefetch_region va_block policy faulted_region =
     (if vb_is_hmm va_block
        then uvm_hmm_get_prefetch_region va_block policy (uvm_va_block_region_start va_block faulted_region)
      else uvm_va_block_region_from_block va_block)"

text \<open>
  The two halves of the function that is called before the migrations of a batch of faults: the pages to
  consider, and the removal of those that must not be prefetched.
\<close>

definition candidate_pages ::
  "(uvm_page_index_t \<Rightarrow> 'pmm hook_env) \<Rightarrow> prefetch_globals \<Rightarrow>
      prefetch_va_space \<Rightarrow> prefetch_va_block \<Rightarrow>
     uvm_processor_id_t \<Rightarrow> uvm_page_mask_t \<Rightarrow> uvm_va_block_region_t \<Rightarrow>
         uvm_va_policy_ref \<Rightarrow>
     uvm_page_mask_t option \<Rightarrow> uvm_page_mask_t option" where
  "candidate_pages env g va_space va_block new_residency faulted_pages faulted_region policy thrashing_pages =
     (let max_region = max_prefetch_region va_block policy faulted_region;
          resident_mask =
            (if new_residency = UVM_ID_CPU \<or> vb_gpu_state va_block new_residency
               then Some (vb_resident_mask va_block new_residency) else None)
      in if vb_resident va_block = [] \<and> new_residency = policy_preferred va_block policy
           then Some (uvm_page_mask_region_fill 0 max_region)
         else
           map_option
             (\<lambda>tree.
                compute_prefetch_mask env (g_uvm_perf_prefetch_threshold g) faulted_region max_region tree
                  (case thrashing_pages of Some t \<Rightarrow> faulted_pages AND NOT t | None \<Rightarrow>
            faulted_pages))
             (update_bitmap_tree_from_va_block
                (init_bitmap_tree_from_region max_region resident_mask faulted_pages)
                va_space va_block new_residency faulted_pages max_region))"

definition exclude_pages ::
  "prefetch_va_block \<Rightarrow> uvm_processor_id_t \<Rightarrow> uvm_page_mask_t \<Rightarrow>
      uvm_page_mask_t option \<Rightarrow> uvm_page_mask_t \<Rightarrow>
     uvm_page_mask_t" where
  "exclude_pages va_block new_residency faulted_pages thrashing_pages prefetch_pages =
     (let prefetch_pages = prefetch_pages AND NOT faulted_pages;
          prefetch_pages =
            (if new_residency = UVM_ID_CPU \<and> \<not> vb_is_hmm va_block
               then prefetch_pages AND NOT (vb_resident_mask va_block new_residency AND vb_cpu_read va_block)
             else prefetch_pages)
      in case thrashing_pages of Some t \<Rightarrow> prefetch_pages AND NOT t | None \<Rightarrow> prefetch_pages)"

text \<open>The number of pages to prefetch, the mask of them, and the block with its counters updated.\<close>

definition uvm_perf_prefetch_prenotify_fault_migrations ::
  "(uvm_page_index_t \<Rightarrow> 'pmm hook_env) \<Rightarrow> prefetch_globals \<Rightarrow>
      prefetch_va_space \<Rightarrow> prefetch_va_block \<Rightarrow>
     uvm_processor_id_t \<Rightarrow> uvm_page_mask_t \<Rightarrow> uvm_va_block_region_t \<Rightarrow>
     (nat \<times> uvm_page_mask_t \<times> prefetch_va_block) option" where
  "uvm_perf_prefetch_prenotify_fault_migrations env g va_space va_block new_residency faulted_pages faulted_region =
     (let policy = uvm_va_policy_get_region va_block faulted_region;
          thrashing_pages = vb_thrashing va_block;
          va_block =
            (if last_migration_proc_id va_block \<noteq> new_residency
               then va_block\<lparr>last_migration_proc_id := new_residency, fault_migrations_to_last_proc :=
            0\<rparr>
             else va_block)
      in case candidate_pages env g va_space va_block new_residency faulted_pages faulted_region policy
                thrashing_pages of
           None \<Rightarrow> None
         | Some prefetch_pages \<Rightarrow>
             (let prefetch_pages = exclude_pages va_block new_residency faulted_pages thrashing_pages prefetch_pages;
                  va_block = va_block\<lparr>fault_migrations_to_last_proc :=
                    fault_migrations_to_last_proc va_block +
                    ucast (uvm_page_mask_region_weight faulted_pages faulted_region)\<rparr>
              in Some (uvm_page_mask_weight prefetch_pages, prefetch_pages, va_block)))"

definition uvm_perf_prefetch_enabled :: "prefetch_globals \<Rightarrow> prefetch_va_space \<Rightarrow> bool" where
  "uvm_perf_prefetch_enabled g va_space =
     (if \<not> g_uvm_perf_prefetch_enable g then False else page_prefetch_enabled va_space)"

definition uvm_perf_prefetch_compute_ats ::
  "(uvm_page_index_t \<Rightarrow> 'pmm hook_env) \<Rightarrow> prefetch_globals \<Rightarrow>
      prefetch_va_space \<Rightarrow> uvm_page_mask_t \<Rightarrow>
     uvm_va_block_region_t \<Rightarrow> uvm_va_block_region_t \<Rightarrow> uvm_page_mask_t option
         \<Rightarrow> uvm_page_mask_t" where
  "uvm_perf_prefetch_compute_ats env g va_space faulted_pages faulted_region max_region residency_mask =
     (if \<not> uvm_perf_prefetch_enabled g va_space then 0
      else compute_prefetch_mask env (g_uvm_perf_prefetch_threshold g) faulted_region max_region
             (init_bitmap_tree_from_region max_region residency_mask faulted_pages) faulted_pages)"

text \<open>Only pages of range groups with a fault of their own stay in the mask.\<close>

definition clear_range_group ::
  "prefetch_va_space \<Rightarrow> prefetch_va_block \<Rightarrow> uvm_page_mask_t \<Rightarrow> NvU64
      \<Rightarrow> bool \<times> uvm_page_mask_t \<Rightarrow>
     bool \<times> uvm_page_mask_t" where
  "clear_range_group va_space va_block faulted_pages rgr = (\<lambda>(changed, prefetch_pages).
     (let region = uvm_va_block_region_from_start_end va_block
            (max (rn_start (range_group_mem va_space rgr)) (vb_start va_block))
            (min (rn_end (range_group_mem va_space rgr)) (vb_end va_block))
      in if uvm_page_mask_region_empty faulted_pages region \<and>
            \<not> uvm_page_mask_region_empty prefetch_pages region
           then (True, uvm_page_mask_region_clear prefetch_pages region)
         else (changed, prefetch_pages)))"

definition uvm_perf_prefetch_get_hint_va_block ::
  "(uvm_page_index_t \<Rightarrow> 'pmm hook_env) \<Rightarrow> prefetch_globals \<Rightarrow>
      prefetch_va_space \<Rightarrow> prefetch_va_block \<Rightarrow>
     uvm_processor_id_t \<Rightarrow> uvm_page_mask_t \<Rightarrow> uvm_va_block_region_t \<Rightarrow>
     (uvm_perf_prefetch_hint_t \<times> prefetch_va_block) option" where
  "uvm_perf_prefetch_get_hint_va_block env g va_space va_block new_residency faulted_pages faulted_region =
     (if \<not> uvm_perf_prefetch_enabled g va_space
        then Some (\<lparr>hint_pages = 0, hint_residency = UVM_ID_INVALID\<rparr>, va_block)
      else
        (case uvm_perf_prefetch_prenotify_fault_migrations env g va_space va_block new_residency
                faulted_pages faulted_region of
           None \<Rightarrow> None
         | Some (pending, prefetch_pages, va_block) \<Rightarrow>
             if ucast (fault_migrations_to_last_proc va_block) \<ge> g_uvm_perf_prefetch_min_faults g \<and>
            pending > 0 then
               (case uvm_range_tree_for_each_in (range_group_mem va_space) (range_group_ranges va_space)
                       (vb_start va_block) (vb_end va_block) of
                  None \<Rightarrow> None
                | Some rgrs \<Rightarrow>
                    (case fold (clear_range_group va_space va_block faulted_pages) rgrs (False, prefetch_pages) of
                       (changed, prefetch_pages) \<Rightarrow>
                         (let pending = (if changed then uvm_page_mask_weight prefetch_pages else pending)
                          in Some (\<lparr>hint_pages = prefetch_pages,
                                    hint_residency =
                                      (if pending > 0 then last_migration_proc_id va_block else
            UVM_ID_INVALID)\<rparr>,
                                   va_block))))
             else Some (\<lparr>hint_pages = prefetch_pages, hint_residency = UVM_ID_INVALID\<rparr>, va_block)))"

subsection \<open>Configuration\<close>

definition uvm_perf_prefetch_init :: "prefetch_params \<Rightarrow> prefetch_globals \<Rightarrow> NV_STATUS
    \<times> prefetch_globals" where
  "uvm_perf_prefetch_init params g =
     (let g = g\<lparr>g_uvm_perf_prefetch_enable := uvm_perf_prefetch_enable params \<noteq> 0\<rparr>
      in if \<not> g_uvm_perf_prefetch_enable g then (NV_OK, g)
         else
           (let g = g\<lparr>g_uvm_perf_prefetch_threshold :=
                  (if uvm_perf_prefetch_threshold params \<le> 100 then uvm_perf_prefetch_threshold params else
            51)\<rparr>;
                g = g\<lparr>g_uvm_perf_prefetch_min_faults :=
                  (if uvm_perf_prefetch_min_faults params \<ge> 1 \<and> uvm_perf_prefetch_min_faults params \<le> 20
                     then uvm_perf_prefetch_min_faults params else 1)\<rparr>
            in (NV_OK, g)))"

definition uvm_test_set_page_prefetch_policy ::
  "NvU32 \<Rightarrow> prefetch_va_space \<Rightarrow> NV_STATUS \<times> prefetch_va_space" where
  "uvm_test_set_page_prefetch_policy policy va_space =
     (if policy \<ge> 2 then (NV_ERR_INVALID_ARGUMENT, va_space)
      else (NV_OK, va_space\<lparr>page_prefetch_enabled := (policy = 0)\<rparr>))"

subsection \<open>Specifications\<close>

text \<open>Empty, or a part of the allowed region.\<close>

definition region_confined :: "uvm_va_block_region_t \<Rightarrow> uvm_va_block_region_t \<Rightarrow> bool" where
  "region_confined max_region r \<longleftrightarrow> r = uvm_va_block_region 0 0 \<or>
     reg_first max_region \<le> reg_first r \<and> reg_first r < reg_outer r \<and> reg_outer r \<le> reg_outer
         max_region \<and>
     unat (reg_outer r) \<le> 512"

text \<open>A tree with the number of levels that its leaves need, of at most as many leaves as a block has
    pages.\<close>

definition tree_wf :: "uvm_perf_prefetch_bitmap_tree_t \<Rightarrow> bool" where
  "tree_wf tree \<longleftrightarrow> 0 < bt_leaf_count tree \<and> bt_leaf_count tree \<le> 512 \<and>
     bt_level_count tree = tree_level_count (bt_leaf_count tree)"

text \<open>The subtree of height \<open>j\<close> that contains leaf \<open>q\<close> of \<open>n\<close>: its
    first leaf, the one after its last, its set leaves.\<close>

definition subtree_first :: "nat \<Rightarrow> nat \<Rightarrow> nat" where
  "subtree_first q j = q div 2 ^ j * 2 ^ j"

definition subtree_outer :: "nat \<Rightarrow> nat \<Rightarrow> nat \<Rightarrow> nat" where
  "subtree_outer n q j = min (subtree_first q j + 2 ^ j) n"

definition subtree_count :: "uvm_page_mask_t \<Rightarrow> nat \<Rightarrow> nat \<Rightarrow> nat
    \<Rightarrow> nat" where
  "subtree_count m n q j = length (filter (bit m) [subtree_first q j..<subtree_outer n q j])"

definition tree_iter :: "nat \<Rightarrow> uvm_page_index_t \<Rightarrow> nat \<Rightarrow>
    uvm_perf_prefetch_bitmap_tree_iter_t" where
  "tree_iter n q j = \<lparr>bi_level_idx = int (leaves_to_levels n - 1 - j), bi_node_idx = q\<rparr>"

text \<open>The heights at which the share of set leaves is over the threshold, and the region of the highest
    one.\<close>

definition native_levels :: "nat \<Rightarrow> uvm_perf_prefetch_bitmap_tree_t \<Rightarrow> nat \<Rightarrow>
    nat set" where
  "native_levels threshold tree q =
     (let n = unat (bt_leaf_count tree)
      in {j. j < leaves_to_levels n \<and>
             threshold * (subtree_outer n q j - subtree_first q j) < 100 * subtree_count (bt_pages tree) n q j})"

definition native_region :: "nat \<Rightarrow> uvm_perf_prefetch_bitmap_tree_t \<Rightarrow> nat \<Rightarrow>
    uvm_va_block_region_t \<Rightarrow> uvm_va_block_region_t" where
  "native_region threshold tree q m =
     (let J = native_levels threshold tree q;
          a = subtree_first q (Max J); b = subtree_outer (unat (bt_leaf_count tree)) q (Max J);
          f = unat (reg_first m); off = unat (bt_offset tree)
      in if J \<noteq> {} \<and> off \<le> a \<and> f + b - off \<le> min (unat (reg_outer m)) 512
           then uvm_va_block_region (of_nat (f + a - off)) (of_nat (f + b - off))
         else uvm_va_block_region 0 0)"

text \<open>A nonempty region of pages of the block.\<close>

definition region_in_block :: "('a) uvm_va_block_t_scheme \<Rightarrow> uvm_va_block_region_t \<Rightarrow>
    bool" where
  "region_in_block b r \<longleftrightarrow> reg_first r < reg_outer r \<and>
     unat (vb_start b) + 4096 * unat (reg_outer r) \<le> unat (vb_end b) + 1"

text \<open>
  What the callers guarantee: the trees are well-formed, big pages are powers of two between a page and a
  block, and for a block of heterogeneous memory the faulted pages are in the block and in the virtual
  memory area.
\<close>

definition prefetch_wf :: "prefetch_va_space \<Rightarrow> prefetch_va_block \<Rightarrow>
    uvm_va_block_region_t \<Rightarrow> bool" where
  "prefetch_wf va_space b fr \<longleftrightarrow>
     block_wf b \<and> range_tree_wf (range_group_mem va_space) (range_group_ranges va_space) \<and>
     (\<forall>gpu. registered_gpu_va_spaces va_space gpu \<longrightarrow> (\<exists>k. 12 \<le> k \<and> k
         \<le> 21 \<and> gpu_big_page_size va_space gpu = 2 ^ k)) \<and>
     (vb_is_hmm b \<longrightarrow>
        region_in_block b fr \<and> range_tree_wf (va_policy_mem b) (va_policy_tree b) \<and>
        vma_start b \<le> uvm_va_block_region_start b fr \<and> uvm_va_block_region_start b fr < vma_end b)"

text \<open>The part of a range group within the block.\<close>

definition group_region :: "prefetch_va_space \<Rightarrow> prefetch_va_block \<Rightarrow> NvU64 \<Rightarrow>
    uvm_va_block_region_t" where
  "group_region va_space b rgr =
     uvm_va_block_region_from_start_end b (max (rn_start (range_group_mem va_space rgr)) (vb_start b))
       (min (rn_end (range_group_mem va_space rgr)) (vb_end b))"

text \<open>Pages that a hint may contain.\<close>

definition may_prefetch ::
  "prefetch_va_block \<Rightarrow> uvm_processor_id_t \<Rightarrow> uvm_page_mask_t \<Rightarrow>
      uvm_va_block_region_t \<Rightarrow> nat \<Rightarrow> bool" where
  "may_prefetch b new_residency faulted fr i \<longleftrightarrow>
     i \<in> set (region_pages (max_prefetch_region b (uvm_va_policy_get_region b fr) fr)) \<and> \<not> bit
         faulted i \<and>
     (case vb_thrashing b of Some t \<Rightarrow> \<not> bit t i | None \<Rightarrow> True) \<and>
     \<not> (new_residency = UVM_ID_CPU \<and> \<not> vb_is_hmm b \<and> bit (vb_resident_mask b UVM_ID_CPU) i
         \<and> bit (vb_cpu_read b) i)"

text \<open>The block after a batch of faults.\<close>

definition note_faults ::
  "prefetch_va_block \<Rightarrow> uvm_processor_id_t \<Rightarrow> uvm_page_mask_t \<Rightarrow>
      uvm_va_block_region_t \<Rightarrow> prefetch_va_block" where
  "note_faults b new_residency faulted fr =
     b\<lparr>last_migration_proc_id := new_residency,
       fault_migrations_to_last_proc :=
         (if last_migration_proc_id b = new_residency then fault_migrations_to_last_proc b else 0) +
         ucast (uvm_page_mask_region_weight faulted fr)\<rparr>"

text \<open>Concrete inputs.\<close>

definition sample_bitmap_tree :: "NvU16 \<Rightarrow> uvm_perf_prefetch_bitmap_tree_t" where
  "sample_bitmap_tree offset = \<lparr>bt_pages = 0b11111110, bt_offset = offset, bt_leaf_count = 8,
      bt_level_count = 4\<rparr>"

definition no_policy :: "'pmm hook_env" where
  "no_policy n = (\<lambda>_. \<lparr>gpu_test_trigger = None, gpu_page_prefetch = None, gpu_page_prefetch_iter
      = None,
     gpu_block_activate = None, gpu_block_access = None, gpu_evict_prepare = None\<rparr>, None)"

definition sample_va_space :: prefetch_va_space where
  "sample_va_space = \<lparr>page_prefetch_enabled = True, registered_gpu_va_spaces = (\<lambda>gpu. gpu = 1),
     gpu_big_page_size = (\<lambda>_. 0x10000),
     range_group_mem = (\<lambda>_. \<lparr>rn_start = 0x200000, rn_end = 0x3fffff\<rparr>),
     range_group_ranges = \<lparr>rt_root = Node Leaf 1 Leaf, rt_head = [1]\<rparr>\<rparr>"

definition sample_va_block :: prefetch_va_block where
  "sample_va_block = \<lparr>vb_start = 0x200000, vb_end = 0x3fffff, last_migration_proc_id = 0,
     fault_migrations_to_last_proc = 0, vb_is_hmm = False, va_policy_mem = (\<lambda>_. \<lparr>rn_start = 0,
         rn_end = 0\<rparr>),
     va_policy_tree = \<lparr>rt_root = Leaf, rt_head = []\<rparr>, policy_preferred = (\<lambda>_. 1),
         vma_start = 0, vma_end = 0,
     vb_resident = [], vb_resident_mask = (\<lambda>_. 0), vb_gpu_state = (\<lambda>_. True), vb_cpu_read = 0,
         vb_thrashing = Some 6\<rparr>"

subsection \<open>Lemmas\<close>

lemma validated_pages_zero [simp]: "validated_pages transition_region_zero = uvm_va_block_region 0 0"
  by (simp add: validated_pages_def transition_region_zero_def uvm_va_block_region_def)

lemma validated_pages_confined:
  assumes "ucast (reg_first m) \<le> tr_first r" "tr_first r < tr_outer r" "tr_outer r \<le> ucast (reg_outer m)"
    "tr_outer r \<le> block_outer"
  shows "region_confined m (validated_pages r)"
proof -
  have "unat (tr_outer r) \<le> 512" using assms(4) by (simp add: block_outer_def word_le_nat_alt)
  moreover have "unat (tr_first r) < unat (tr_outer r)" using assms(2) by (simp add: word_less_nat_alt)
  ultimately have "unat (ucast (tr_outer r) :: NvU16) = unat (tr_outer r)"
    "unat (ucast (tr_first r) :: NvU16) = unat (tr_first r)"
    by (simp_all add: unsigned_ucast_eq take_bit_nat_eq_self)
  moreover have "unat (ucast (reg_first m) :: NvU64) = unat (reg_first m)"
    "unat (ucast (reg_outer m) :: NvU64) = unat (reg_outer m)"
    by (simp_all add: unsigned_ucast_eq take_bit_nat_eq_self unat16_less [THEN order.strict_trans])
  ultimately show ?thesis
    using assms by (simp add: region_confined_def validated_pages_def block_outer_def word_le_nat_alt
        word_less_nat_alt)
qed

lemma validate_confined:
  assumes "nv_gpu_transition_validate_region d (ucast (reg_first m)) (ucast (reg_outer m)) block_outer type_outer =
    (NV_GPU_TRANSITION_APPLY, r)"
  shows "region_confined m (validated_pages r)"
proof (cases "pf_first d = 0 \<and> pf_outer d = 0")
  case True
  then show ?thesis using assms by (simp add: validate_region_apply_iff region_confined_def)
next
  case False
  then show ?thesis using assms by (intro validated_pages_confined) (auto simp: validate_region_apply_iff)
qed

lemma translate_confined:
  assumes "nv_gpu_transition_translate_region (ucast (reg_first m)) a b off (ucast (reg_outer m)) block_outer
      type_outer =
    (NV_GPU_TRANSITION_APPLY, r)"
  shows "region_confined m (validated_pages r)"
  using translate_region_apply [OF assms] by (intro validated_pages_confined) auto

lemma iterate_confined:
  "region_confined m r \<Longrightarrow> region_confined m (prefetch_iterate env tree m v r)"
  by (auto simp: prefetch_iterate_def prefetch_iterator_effect_eq Let_def split: prod.splits intro: validate_confined)

lemma fold_iterate_confined:
  "region_confined m r \<Longrightarrow> region_confined m (fold (prefetch_iterate env tree m) vs r)"
  by (induction vs arbitrary: r) (auto intro: iterate_confined)

lemma empty_confined [simp]: "region_confined m (uvm_va_block_region 0 0)"
  by (simp add: region_confined_def)

lemma compute_region_confined:
  "region_confined m (fst (compute_prefetch_region env threshold p tree m))"
  by (auto simp: compute_prefetch_region_def prefetch_initial_effect_eq Let_def split: prod.splits
      intro: validate_confined translate_confined fold_iterate_confined)

lemma levels_le_10: "n \<le> 512 \<Longrightarrow> leaves_to_levels n \<le> 10"
proof (cases "1 < n")
  case True
  assume n: "n \<le> 512"
  have "2 ^ ilog2 (n - 1) \<le> n - 1" using True by (intro ilog2_bounds [THEN conjunct1]) simp
  then have "(2::nat) ^ ilog2 (n - 1) < 2 ^ 9" using n True by simp
  then have "ilog2 (n - 1) < 9" by (simp only: power_strict_increasing_iff)
  then show ?thesis using True by (simp add: leaves_to_levels_def ilog2_roundup)
qed (simp add: leaves_to_levels_def ilog2_roundup)

lemma levels_pos: "0 < leaves_to_levels n"
  by (simp add: leaves_to_levels_def)

lemma tree_levels:
  assumes "tree_wf tree"
  shows "uint (bt_level_count tree) = int (leaves_to_levels (unat (bt_leaf_count tree)))"
    "sint (bt_level_count tree - 1) = int (leaves_to_levels (unat (bt_leaf_count tree)) - 1)"
proof -
  let ?L = "leaves_to_levels (unat (bt_leaf_count tree))"
  have L: "bt_level_count tree = of_nat ?L" "0 < ?L" "?L \<le> 10"
    using assms levels_le_10 [of "unat (bt_leaf_count tree)"] levels_pos
    by (auto simp: tree_wf_def tree_level_count_def leaves_to_levels_def word_le_nat_alt)
  have "unat (of_nat ?L :: NvU8) = ?L" using L(3) by (simp add: unat_of_nat take_bit_nat_eq_self)
  then show "uint (bt_level_count tree) = int ?L" unfolding L(1) by (simp only: uint_nat)
  obtain l where l: "?L = Suc l" using L(2) gr0_implies_Suc by blast
  then have "sint (of_nat l :: NvU8) = int l" using L(3) by (simp add: signed_of_nat signed_take_bit_int_eq_self)
  then show "sint (bt_level_count tree - 1) = int (?L - 1)" unfolding L(1) l by simp
qed

lemma iter_max_leaves:
  assumes "tree_wf tree" "j < leaves_to_levels (unat (bt_leaf_count tree))"
  shows "uvm_perf_tree_iter_max_leaves tree (tree_iter (unat (bt_leaf_count tree)) q j) = 2 ^ j"
  using assms(2) by (simp add: uvm_perf_tree_iter_max_leaves_def tree_iter_def tree_levels(1) [OF assms(1)]
      nat_diff_distrib
      push_bit_of_1 of_nat_diff)

lemma iter_get_range:
  assumes wf: "tree_wf tree" and j: "j < leaves_to_levels (unat (bt_leaf_count tree))" and q: "q < bt_leaf_count tree"
  defines "n \<equiv> unat (bt_leaf_count tree)"
  defines "r \<equiv> uvm_perf_prefetch_bitmap_tree_iter_get_range tree (tree_iter n q j)"
  shows "unat (reg_first r) = subtree_first (unat q) j" "unat (reg_outer r) = subtree_outer n (unat q) j"
proof -
  have n: "n \<le> 512" using wf by (simp add: n_def tree_wf_def word_le_nat_alt)
  have q': "unat q < n" using q by (simp add: n_def word_less_nat_alt)
  have "j \<le> 9" using j levels_le_10 [OF n] by (simp add: n_def)
  then have "(2::nat) ^ j \<le> 2 ^ 9" by (rule power_increasing) simp
  then have P: "(2::nat) ^ j \<le> 512" by simp
  have "unat ((2::NvU16) ^ j) = unat (of_nat (2 ^ j) :: NvU16)" by simp
  then have p: "unat ((2::NvU16) ^ j) = 2 ^ j" using P by (simp only: unat_of_nat16)
  let ?s = "uvm_perf_tree_iter_leaf_range_start tree (tree_iter n q j)"
  have s: "unat ?s = subtree_first (unat q) j"
    using iter_max_leaves [OF wf j, of q]
    by (simp add: uvm_perf_tree_iter_leaf_range_start_def n_def subtree_first_def unat_and_not_mask)
      (simp add: tree_iter_def unat_and_not_mask)
  have s_le: "unat ?s \<le> unat q" by (simp add: s subtree_first_def)
  have e: "unat (?s + 2 ^ j) = unat ?s + 2 ^ j" using s_le q' n P p by (simp add: unat_word_ariths)
  have m: "unat (min (?s + 2 ^ j) (bt_leaf_count tree)) = subtree_outer n (unat q) j"
    using e s by (auto simp: min_def subtree_outer_def word_le_nat_alt n_def)
  have le: "?s \<le> min (?s + 2 ^ j) (bt_leaf_count tree)"
    using s_le q' e by (simp add: word_le_nat_alt n_def min_def)
  have "uvm_perf_tree_iter_leaf_range tree (tree_iter n q j) = min (?s + 2 ^ j) (bt_leaf_count tree) - ?s"
    using iter_max_leaves [OF wf j, of q] by (simp add: uvm_perf_tree_iter_leaf_range_def Let_def n_def)
  then have "?s + uvm_perf_tree_iter_leaf_range tree (tree_iter n q j) = min (?s + 2 ^ j) (bt_leaf_count tree)"
    by simp
  then show "unat (reg_first r) = subtree_first (unat q) j" "unat (reg_outer r) = subtree_outer n (unat q) j"
    by (simp_all add: r_def uvm_perf_prefetch_bitmap_tree_iter_get_range_def uvm_va_block_region_def s m Let_def)
qed

lemma traverse_visits:
  assumes "tree_wf tree"
  defines "n \<equiv> unat (bt_leaf_count tree)"
  shows "uvm_perf_prefetch_bitmap_tree_traverse_counters tree q =
    map (\<lambda>j. (uvm_perf_prefetch_bitmap_tree_iter_get_count tree (tree_iter n q j), tree_iter n q j))
      [0..<leaves_to_levels n]"
proof -
  have "counters_from tree (tree_iter n q j) =
      map (\<lambda>j. (uvm_perf_prefetch_bitmap_tree_iter_get_count tree (tree_iter n q j), tree_iter n q j))
        [j..<leaves_to_levels n]" if "j < leaves_to_levels n" for j
    using that
  proof (induction "leaves_to_levels n - j" arbitrary: j)
    case (Suc x)
    show ?case
    proof (cases "Suc j < leaves_to_levels n")
      case True
      have "(tree_iter n q j)\<lparr>bi_level_idx := bi_level_idx (tree_iter n q j) - 1\<rparr> = tree_iter n q
          (Suc j)"
        using True by (simp add: tree_iter_def of_nat_diff)
      moreover have "\<not> bi_level_idx (tree_iter n q j) < 0" by (simp add: tree_iter_def)
      ultimately have "counters_from tree (tree_iter n q j) =
          (uvm_perf_prefetch_bitmap_tree_iter_get_count tree (tree_iter n q j), tree_iter n q j) #
          counters_from tree (tree_iter n q (Suc j))"
        by (subst counters_from.simps) (simp only: if_False)
      then show ?thesis using Suc.hyps(1) [of "Suc j"] Suc.hyps(2) True by (simp add: upt_conv_Cons)
    next
      case False
      then have "j = leaves_to_levels n - 1" using Suc.prems by simp
      then show ?thesis using Suc.prems
        by (subst counters_from.simps, subst counters_from.simps) (simp add: upt_conv_Cons tree_iter_def)
    qed
  qed simp
  from this [of 0] show ?thesis using levels_pos [of n] tree_levels(2) [OF assms(1)]
    by (simp add: uvm_perf_prefetch_bitmap_tree_traverse_counters_def uvm_perf_prefetch_bitmap_tree_iter_init_def
        tree_iter_def n_def)
qed

lemma fold_last_level:
  "fold (\<lambda>j r. if P j then g j else r) [0..<L] r =
     (if {j. j < L \<and> P j} = {} then r else g (Max {j. j < L \<and> P j}))"
proof (induction L)
  case (Suc L)
  have "{j. j < Suc L \<and> P j} = (if P L then insert L {j. j < L \<and> P j} else {j. j < L \<and> P j})"
    by (auto simp: less_Suc_eq)
  moreover have "Max (insert L {j. j < L \<and> P j}) = L" by (intro Max_eqI) auto
  ultimately show ?case using Suc by (simp del: Collect_empty_eq)
qed simp

lemma subtree_bounds:
  assumes "q < n"
  shows "subtree_first q j \<le> q" "q < subtree_outer n q j" "subtree_outer n q j \<le> n"
proof -
  show "subtree_first q j \<le> q" by (simp add: subtree_first_def)
  have "q < subtree_first q j + 2 ^ j"
    using dividend_less_div_times [of "2 ^ j" q] by (simp add: subtree_first_def)
  then show "q < subtree_outer n q j" using assms by (simp add: subtree_outer_def)
  show "subtree_outer n q j \<le> n" by (simp add: subtree_outer_def)
qed

lemma native_step:
  assumes wf: "tree_wf tree" and j: "j < leaves_to_levels (unat (bt_leaf_count tree))"
    and q: "q < bt_leaf_count tree" and th: "threshold \<le> 100"
  defines "n \<equiv> unat (bt_leaf_count tree)"
  shows "prefetch_native threshold tree (uvm_perf_prefetch_bitmap_tree_iter_get_count tree (tree_iter n q j),
      tree_iter n q j) r =
    (if unat threshold * (subtree_outer n (unat q) j - subtree_first (unat q) j) < 100 * subtree_count
        (bt_pages tree) n (unat q) j
       then uvm_perf_prefetch_bitmap_tree_iter_get_range tree (tree_iter n q j) else r)"
proof -
  let ?r = "uvm_perf_prefetch_bitmap_tree_iter_get_range tree (tree_iter n q j)"
  let ?a = "subtree_first (unat q) j" and ?b = "subtree_outer n (unat q) j"
  note r = iter_get_range [OF wf j q, folded n_def]
  have n: "n \<le> 512" using wf by (simp add: n_def tree_wf_def word_le_nat_alt)
  have "unat q < n" using q by (simp add: n_def word_less_nat_alt)
  note b = subtree_bounds [OF this, of j]
  have rw: "region_wf ?r" using r b n by (simp add: region_wf_def word_le_nat_alt)
  let ?c = "subtree_count (bt_pages tree) n (unat q) j"
  have c: "?c \<le> ?b - ?a"
    using length_filter_le [of "bit (bt_pages tree)" "[?a..<?b]"] by (simp add: subtree_count_def)
  then have c512: "?c \<le> 512" using b n by linarith
  have "uvm_page_mask_region_weight (bt_pages tree) ?r = of_nat ?c"
    using rw r by (simp add: region_weight region_wf_def region_pages_def subtree_count_def)
  then have "unat (uvm_page_mask_region_weight (bt_pages tree) ?r) = ?c"
    using c512 by (simp add: unat_of_nat take_bit_nat_eq_self)
  then have cnt: "unat (ucast (uvm_perf_prefetch_bitmap_tree_iter_get_count tree (tree_iter n q j)) :: NvU32) = ?c"
    using c512 by (simp add: uvm_perf_prefetch_bitmap_tree_iter_get_count_def unsigned_ucast_eq unsigned_take_bit_eq
        take_bit_nat_eq_self)
  have "unat (uvm_va_block_region_num_pages ?r) = ?b - ?a"
    using rw r b unat16_less [of "reg_outer ?r"] unat16_less [of "reg_first ?r"]
    by (simp add: uvm_va_block_region_num_pages_def unat_sub word_le_nat_alt unsigned_ucast_eq take_bit_nat_eq_self
        region_wf_def)
  then have pg: "unat (ucast (ucast (uvm_va_block_region_num_pages ?r) :: NvU16) :: NvU32) = ?b - ?a"
    using b n by (simp add: unsigned_ucast_eq unsigned_take_bit_eq take_bit_nat_eq_self)
  have "unat (ucast (uvm_perf_prefetch_bitmap_tree_iter_get_count tree (tree_iter n q j)) * 100 :: NvU32) = ?c * 100"
    using cnt c512 by (simp add: unat_word_ariths)
  moreover have "(?b - ?a) * unat threshold \<le> 512 * 100"
    using b n th by (intro mult_le_mono) (auto simp: word_le_nat_alt)
  then have "unat (ucast (ucast (uvm_va_block_region_num_pages ?r) :: NvU16) * threshold) = (?b - ?a) * unat
      threshold"
    using pg by (simp add: unat_word_ariths)
  ultimately show ?thesis by (simp add: prefetch_native_def Let_def word_less_nat_alt mult.commute)
qed

lemma fold_native:
  assumes wf: "tree_wf tree" and q: "q < bt_leaf_count tree" and th: "threshold \<le> 100"
  defines "J \<equiv> native_levels (unat threshold) tree (unat q)"
  shows "fold (prefetch_native threshold tree) (uvm_perf_prefetch_bitmap_tree_traverse_counters tree q) r =
    (if J = {} then r
     else uvm_perf_prefetch_bitmap_tree_iter_get_range tree (tree_iter (unat (bt_leaf_count tree)) q (Max J)))"
proof -
  let ?n = "unat (bt_leaf_count tree)"
  let ?P = "\<lambda>j. unat threshold * (subtree_outer ?n (unat q) j - subtree_first (unat q) j) <
    100 * subtree_count (bt_pages tree) ?n (unat q) j"
  have "fold (prefetch_native threshold tree) (uvm_perf_prefetch_bitmap_tree_traverse_counters tree q) r =
      fold (\<lambda>j r. if ?P j then uvm_perf_prefetch_bitmap_tree_iter_get_range tree (tree_iter ?n q j) else r)
        [0..<leaves_to_levels ?n] r"
    unfolding traverse_visits [OF wf] fold_map
    by (intro fold_cong refl) (simp add: native_step [OF wf _ q th] comp_def fun_eq_iff)
  then show ?thesis unfolding fold_last_level by (simp add: J_def native_levels_def Let_def del: Collect_empty_eq)
qed

lemma validated_of_nat:
  "validated_pages \<lparr>tr_first = of_nat x, tr_outer = of_nat y\<rparr> = uvm_va_block_region (of_nat x)
      (of_nat y)"
proof -
  have "ucast (of_nat z :: NvU64) = (of_nat z :: NvU16)" for z
    by (rule bit_word_eqI) (simp add: bit_simps)
  then show ?thesis by (simp add: validated_pages_def uvm_va_block_region_def)
qed

lemma translate_native:
  assumes f: "unat (reg_first r) = a" and b: "unat (reg_outer r) = b" and ab: "a < b" "b \<le> 512"
  shows "(case nv_gpu_transition_translate_region (ucast (reg_first m)) (ucast (reg_first r)) (ucast (reg_outer r))
               (ucast (off :: NvU16)) (ucast (reg_outer m)) block_outer type_outer of (result, r) \<Rightarrow>
      if result = NV_GPU_TRANSITION_APPLY then validated_pages r else uvm_va_block_region 0 0) =
    (if unat off \<le> a \<and> unat (reg_first m) + b - unat off \<le> min (unat (reg_outer m)) 512
       then uvm_va_block_region (of_nat (unat (reg_first m) + a - unat off)) (of_nat (unat (reg_first m) + b -
           unat off))
     else uvm_va_block_region 0 0)"
proof -
  define mf mo o' where n: "mf = unat (reg_first m)" "mo = unat (reg_outer m)" "o' = unat off"
  have "unat (ucast w :: NvU64) = unat w" for w :: NvU16
    by (simp add: unsigned_ucast_eq take_bit_nat_eq_self unat16_less [THEN order.strict_trans])
  then have u: "uint (ucast w :: NvU64) = int (unat w)" for w :: NvU16 by (simp only: uint_nat)
  have s: "int mf + int b < 2 ^ 64" "int mf + int a < 2 ^ 64"
    using unat16_less [of "reg_first m", folded n] ab by simp_all
  have bo: "uint block_outer = 512" "uint (65535 :: NvU64) = 65535" by (simp_all add: block_outer_def)
  show ?thesis
  proof (cases "o' \<le> a \<and> mf + b - o' \<le> min mo 512")
    case True
    then have d: "int mf + int a - int o' = int (mf + a - o')" "int mf + int b - int o' = int (mf + b - o')"
      "mf \<le> mf + a - o'" "mf + a - o' < mf + b - o'"
      using ab by linarith+
    show ?thesis
      using True d(3,4) s unfolding translate_region_eq u f b n [symmetric] Let_def bo d(1,2)
      by (simp add: validated_of_nat del: of_nat_add of_nat_diff)
  next
    case False
    then have "\<not> (int mf \<le> int mf + int a - int o' \<and> int mf + int b - int o' \<le> min (int mo)
        (min 512 65535))"
      by auto
    then show ?thesis
      using False unfolding translate_region_eq u f b n [symmetric] Let_def bo by auto
  qed
qed

lemma compute_region_native_fold:
  assumes call: "env 0 = (mem, slot)" "uvm_bpf_call_gpu_page_prefetch mem slot page tree m = (raw, d)"
    and native: "nv_gpu_transition_prefetch_initial_effect raw
      (fst (nv_gpu_transition_validate_region d (ucast (reg_first m)) (ucast (reg_outer m)) block_outer type_outer)) =
      NV_GPU_PREFETCH_INITIAL_NATIVE"
    and rel: "page - reg_first m + bt_offset tree = q" "fold (prefetch_native threshold tree)
      (uvm_perf_prefetch_bitmap_tree_traverse_counters tree q) (uvm_va_block_region 0 0) = rel"
  shows "fst (compute_prefetch_region env threshold page tree m) =
    (if reg_outer rel \<noteq> 0 then
       (case nv_gpu_transition_translate_region (ucast (reg_first m)) (ucast (reg_first rel)) (ucast (reg_outer rel))
               (ucast (bt_offset tree)) (ucast (reg_outer m)) block_outer type_outer of (result, r) \<Rightarrow>
          if result = NV_GPU_TRANSITION_APPLY then validated_pages r else uvm_va_block_region 0 0)
     else uvm_va_block_region 0 0)"
proof -
  obtain res vr where v: "nv_gpu_transition_validate_region d (ucast (reg_first m)) (ucast (reg_outer m)) block_outer
      type_outer = (res, vr)" by fastforce
  show ?thesis using native
    by (simp add: compute_prefetch_region_def call v rel Let_def split: prod.splits)
qed

lemma compute_region_native:
  assumes wf: "tree_wf tree" and th: "threshold \<le> 100"
    and at: "page - reg_first m + bt_offset tree = q" and q: "q < bt_leaf_count tree"
    and call: "env 0 = (mem, slot)" "uvm_bpf_call_gpu_page_prefetch mem slot page tree m = (raw, d)"
    and native: "nv_gpu_transition_prefetch_initial_effect raw
      (fst (nv_gpu_transition_validate_region d (ucast (reg_first m)) (ucast (reg_outer m)) block_outer type_outer)) =
      NV_GPU_PREFETCH_INITIAL_NATIVE"
  shows "fst (compute_prefetch_region env threshold page tree m) =
    native_region (unat threshold) tree (unat q) m"
proof -
  let ?n = "unat (bt_leaf_count tree)"
  let ?J = "native_levels (unat threshold) tree (unat q)"
  let ?r = "uvm_perf_prefetch_bitmap_tree_iter_get_range tree (tree_iter ?n q (Max ?J))"
  have q': "unat q < ?n" using q by (simp add: word_less_nat_alt)
  have n: "?n \<le> 512" using wf by (simp add: tree_wf_def word_le_nat_alt)
  have "finite ?J" by (rule finite_subset [of _ "{..<leaves_to_levels ?n}"]) (auto simp: native_levels_def Let_def)
  then have "?J \<noteq> {} \<Longrightarrow> Max ?J < leaves_to_levels ?n"
    using Max_in [of ?J] by (auto simp: native_levels_def Let_def)
  note r = iter_get_range [OF wf this q]
  note fold = compute_region_native_fold [where env = env, OF call native at fold_native [OF wf q th, of
      "uvm_va_block_region 0 0"]]
  show ?thesis
  proof (cases "?J = {}")
    case True
    then show ?thesis using fold
      by (simp add: native_region_def uvm_va_block_region_def)
  next
    case False
    note b = subtree_bounds [OF q', of "Max ?J"]
    note t = translate_native [OF r [OF False]]
    have "reg_outer ?r \<noteq> 0" using r(2) [OF False] b by (metis not_less0 unat_0)
    then show ?thesis
      using False b n t [of m "bt_offset tree"] fold
      by (simp only: native_region_def Let_def) simp
  qed
qed

lemma native_root_padding:
  assumes wf: "tree_wf tree" and q: "q < unat (bt_leaf_count tree)" and off: "0 < bt_offset tree"
    and over: "threshold * unat (bt_leaf_count tree) <
      100 * length (filter (bit (bt_pages tree)) [0..<unat (bt_leaf_count tree)])"
  shows "native_region threshold tree q m = uvm_va_block_region 0 0"
proof -
  let ?n = "unat (bt_leaf_count tree)" and ?J = "native_levels threshold tree q"
  let ?l = "leaves_to_levels ?n - 1"
  have n: "0 < ?n" using wf by (simp add: tree_wf_def word_less_nat_alt)
  note top = levels_bounds(1) [OF n]
  have first: "subtree_first q ?l = 0" using q top by (simp add: subtree_first_def)
  have outer: "subtree_outer ?n q ?l = ?n" using top by (simp add: subtree_outer_def first)
  have l: "?l \<in> ?J"
    using over levels_pos [of ?n] by (simp add: native_levels_def Let_def first outer subtree_count_def
        del: One_nat_def)
  have J: "j \<le> ?l" if "j \<in> ?J" for j
  proof -
    have "j < leaves_to_levels ?n" using that by (simp add: native_levels_def Let_def)
    then show ?thesis by linarith
  qed
  have "finite ?J" by (rule finite_subset [of _ "{..?l}"]) (use J in blast)+
  then have "Max ?J = ?l" using J l by (intro Max_eqI)
  then show ?thesis using off first
    by (simp add: native_region_def Let_def word_less_nat_alt del: One_nat_def)
qed

lemma confined_wf: "region_confined m r \<Longrightarrow> region_wf r"
  by (auto simp: region_confined_def region_wf_def uvm_va_block_region_def)

lemma confined_pages: "region_confined m r \<Longrightarrow> set (region_pages r) \<subseteq> set (region_pages m)"
  by (auto simp: region_confined_def region_pages_def uvm_va_block_region_def word_le_nat_alt)

lemma mask_confined:
  assumes "bit (compute_prefetch_mask env threshold fr m tree faulted) i"
  shows "i \<in> set (region_pages m)"
proof -
  let ?I = "\<lambda>mask. \<forall>i. bit mask i \<longrightarrow> i \<in> set (region_pages m)"
  let ?f = "prefetch_page env threshold m tree"
    and ?xs = "for_each_va_block_page_in_region_mask (Some faulted) fr"
  have step: "?I s'" if "?I s" "?f p s = (r, s')" for p s r s'
  proof -
    note c = compute_region_confined [of m "env p" threshold p tree]
    show ?thesis using that confined_pages [OF c] bit_region_fill [OF confined_wf [OF c]]
      by (auto simp: prefetch_page_def Let_def)
  qed
  obtain r s where "fold_exit ?f ?xs 0 = (r, s)" by fastforce
  moreover have "?I s \<and> (\<forall>e. r = Some e \<longrightarrow> True)"
  proof (rule fold_exit_inv [where f = ?f and xs = ?xs and s = 0 and I = ?I])
    show "?I 0" by simp
    show "fold_exit ?f ?xs 0 = (r, s)" by fact
  qed (use step in blast)
  ultimately show ?thesis using assms by (simp add: compute_prefetch_mask_def)
qed

lemma grow_big_pages_ends:
  assumes "0 < unat ppbp" "unat (reg_outer br) + unat ppbp \<le> 65536"
  shows "\<exists>t. grow_big_pages ppbp br first faulted thr page tree = Some t"
proof (induction "unat (reg_outer br) - unat page" arbitrary: page tree rule: less_induct)
  case less
  show ?case
  proof (cases "page < reg_outer br")
    case True
    then have "unat page < unat (reg_outer br)" by (simp add: word_less_nat_alt)
    moreover have "unat (page + ppbp) = unat page + unat ppbp"
      using assms(2) \<open>unat page < unat (reg_outer br)\<close> by (simp add: unat_word_ariths)
    ultimately have "unat (reg_outer br) - unat (page + ppbp) < unat (reg_outer br) - unat page"
      using assms(1) by simp
    from less [OF this] show ?thesis using True by (subst grow_big_pages.simps) simp
  next
    case False
    then show ?thesis by (subst grow_big_pages.simps) simp
  qed
qed

lemma grow_ends:
  assumes "unat (reg_outer br) \<le> 512" "12 \<le> k" "k \<le> 21" "bps = 2 ^ k"
  shows "\<exists>t. grow_fault_granularity tree bps br m faulted thr = Some t"
proof -
  have p: "unat (bps div 4096) = 2 ^ (k - 12)" and le: "(2::nat) ^ (k - 12) \<le> 512"
  proof -
    have "unat (of_nat (2 ^ k) :: NvU64) = 2 ^ k"
      using assms(3) power_strict_increasing [of k 64 "2::nat"] by (simp only: unat_of_nat) (simp add:
          take_bit_nat_eq_self)
    then have "unat (bps div 4096) = 2 ^ k div 4096" by (simp add: unat_div assms(4))
    then show "unat (bps div 4096) = 2 ^ (k - 12)" by (simp add: power_ge_12 [OF assms(2)])
    have "(2::nat) ^ (k - 12) \<le> 2 ^ 9" using assms(3) by (intro power_increasing) auto
    then show "(2::nat) ^ (k - 12) \<le> 512" by simp
  qed
  then have q: "unat (ucast (bps div 4096) :: NvU16) = 2 ^ (k - 12)"
    using assms(3) by (simp add: unsigned_ucast_eq take_bit_nat_eq_self)
  have "\<exists>t. grow_big_pages (ucast (bps div 4096)) br (reg_first m) faulted thr (reg_first br) t' = Some
      t" for t'
    using q le assms(1) by (intro grow_big_pages_ends) simp_all
  then show ?thesis by (auto simp: grow_fault_granularity_def Let_def)
qed

lemma in_block_outer: "block_wf b \<Longrightarrow> region_in_block b r \<Longrightarrow> unat (reg_outer r)
    \<le> 512"
  by (simp add: block_wf_def region_in_block_def)

lemma region_addresses:
  assumes "block_wf b" and "region_in_block b r"
  shows "unat (uvm_va_block_region_start b r) = unat (vb_start b) + 4096 * unat (reg_first r)"
    "unat (uvm_va_block_region_end b r) + 1 = unat (vb_start b) + 4096 * unat (reg_outer r)"
proof -
  define s e f t where n: "s = unat (vb_start b)" "e = unat (vb_end b)" "f = unat (reg_first r)" "t = unat
      (reg_outer r)"
  have w: "s \<le> e" "e < 9223372036854775808" "f < t" "s + 4096 * t \<le> e + 1" "t \<le> 512"
    using assms in_block_outer [OF assms] by (auto simp: n block_wf_def region_in_block_def word_le_nat_alt
        word_less_nat_alt)
  have page: "unat (ucast p * 4096 :: NvU64) = 4096 * unat p" if "unat p \<le> 512" for p :: NvU16
    using that by (simp add: unat_word_ariths unsigned_ucast_eq take_bit_nat_eq_self)
  have f: "unat (ucast (reg_first r) * 4096 :: NvU64) = 4096 * f" and t: "unat (ucast (reg_outer r) * 4096 ::
      NvU64) = 4096 * t"
    using page [of "reg_first r"] page [of "reg_outer r"] w by (simp_all add: n)
  show "unat (uvm_va_block_region_start b r) = unat (vb_start b) + 4096 * unat (reg_first r)"
    unfolding uvm_va_block_region_start_def n [symmetric] using w f by (simp add: unat_word_ariths n [symmetric])
  have u: "unat (vb_start b + ucast (reg_outer r) * 4096) = s + 4096 * t"
    using w t by (simp add: unat_word_ariths n [symmetric])
  then have "vb_start b + ucast (reg_outer r) * 4096 \<noteq> 0" using w by (metis add_is_0 mult_is_0 not_less0
      unat_0 zero_neq_numeral)
  then have "unat (uvm_va_block_region_end b r) = s + 4096 * t - 1"
    unfolding uvm_va_block_region_end_def by (simp add: unat_minus_one u)
  then show "unat (uvm_va_block_region_end b r) + 1 = unat (vb_start b) + 4096 * unat (reg_outer r)"
    using w by (simp add: n)
qed

lemma big_page_subset_outer:
  assumes wf: "block_wf b" and r: "region_in_block b r" and k: "12 \<le> k" "k \<le> 21"
  shows "unat (reg_outer (uvm_va_block_big_page_region_subset b r (2 ^ k))) \<le> 512"
proof -
  define c :: uvm_va_block_t where "c = \<lparr>vb_start = uvm_va_block_region_start b r, vb_end =
      uvm_va_block_region_end b r\<rparr>"
  define s e f t where n: "s = unat (vb_start b)" "e = unat (vb_end b)" "f = unat (reg_first r)" "t = unat
      (reg_outer r)"
  have w: "s mod 4096 = 0" "e < 9223372036854775808" "f < t" "s + 4096 * t \<le> e + 1" "t \<le> 512"
    using wf r in_block_outer [OF wf r] by (auto simp: n block_wf_def region_in_block_def word_less_nat_alt)
  note a = region_addresses [OF wf r, folded n]
  have c: "unat (vb_start c) = s + 4096 * f" "unat (vb_end c) + 1 = s + 4096 * t" using a by (simp_all add: c_def)
  have cwf: "block_wf c"
    unfolding block_wf_def c using w c by (auto simp: word_le_nat_alt mod_add_left_eq [symmetric])
  have all: "uvm_va_block_big_page_region_subset b r (2 ^ k) =
      (let br = uvm_va_block_big_page_region_all c (2 ^ k)
       in if reg_outer br \<noteq> 0 then \<lparr>reg_first = reg_first br + reg_first r, reg_outer = reg_outer
           br + reg_first r\<rparr> else br)"
    by (simp add: uvm_va_block_big_page_region_subset_def uvm_va_block_big_page_region_all_def c_def Let_def)
  have "unat (reg_outer (uvm_va_block_big_page_region_all c (2 ^ k))) \<le> t - f"
  proof (cases "first_big c k < outer_big c k")
    case True
    have "outer_big c k - unat (vb_start c) \<le> (t - f) * 4096" using outer_big_bounds [of c k] c by simp
    then have "(outer_big c k - unat (vb_start c)) div 4096 \<le> t - f" by (simp add: div_le_mono [of _ "(t -
        f) * 4096" 4096, simplified])
    then show ?thesis using big_page_all(2) [OF cwf k True] by simp
  next
    case False
    then show ?thesis using big_page_all(1) [OF cwf k] by simp
  qed
  then have "unat (reg_outer (uvm_va_block_big_page_region_all c (2 ^ k))) + f \<le> 512" using w by linarith
  then show ?thesis by (simp add: all Let_def unat_word_ariths n [symmetric])
qed

lemma region_from_block_in: 
  assumes "block_wf b"
  shows "region_in_block b (uvm_va_block_region_from_block b)"
proof -
  define s e where n: "s = unat (vb_start b)" "e = unat (vb_end b)"
  have w: "s \<le> e" "s mod 4096 = 0" "(e + 1) mod 4096 = 0" "e < s + 2097152" "e < 9223372036854775808"
    using assms by (auto simp: n block_wf_def word_le_nat_alt)
  have "unat (vb_end b - vb_start b) = e - s" using w by (simp add: unat_sub word_le_nat_alt n)
  then have "unat (uvm_va_block_size b) = e - s + 1"
    using w by (simp add: uvm_va_block_size_def unat_word_ariths)
  moreover obtain i j where "s = 4096 * i" "e + 1 = 4096 * j" using w(2,3) by (auto simp: mod_eq_0_iff_dvd
      elim!: dvdE)
  moreover from this have "i < j" "j \<le> i + 512" using w by linarith+
  ultimately have "unat (uvm_va_block_num_cpu_pages b) = j - i" and ij: "s = 4096 * i" "e + 1 = 4096 * j" "i <
      j" "j \<le> i + 512"
    by (simp_all add: uvm_va_block_num_cpu_pages_def unat_div)
  then have "unat (ucast (uvm_va_block_num_cpu_pages b) :: NvU16) = j - i"
    by (simp add: unsigned_ucast_eq take_bit_nat_eq_self)
  then show ?thesis using ij
    by (simp add: region_in_block_def uvm_va_block_region_from_block_def uvm_va_block_region_def
        word_less_nat_alt n [symmetric])
qed

lemma region_from_start_end_in:
  assumes wf: "block_wf b" and "vb_start b \<le> x" "x \<le> y" "y \<le> vb_end b"
  shows "region_in_block b (uvm_va_block_region_from_start_end b x y)"
proof -
  define s e p q where n: "s = unat (vb_start b)" "e = unat (vb_end b)" "p = unat x" "q = unat y"
  have w: "s \<le> p" "p \<le> q" "q \<le> e" "s mod 4096 = 0" "(e + 1) mod 4096 = 0" "e < s + 2097152"
    using assms by (auto simp: n block_wf_def word_le_nat_alt)
  note i = page_index_unat [OF wf, folded n]
  have x: "unat (uvm_va_block_cpu_page_index b x) = (p - s) div 4096" and y: "unat (uvm_va_block_cpu_page_index
      b y) = (q - s) div 4096"
    using i(1) [of x] i(1) [of y] w by (simp_all add: n)
  define c d where cd: "c = (p - s) div 4096" "d = (q - s) div 4096"
  have "c \<le> d" unfolding cd using w by (intro div_le_mono) simp
  moreover have "d < 512" using w by (simp add: cd div_less_iff_less_mult)
  moreover obtain i j where ij: "s = 4096 * i" "e + 1 = 4096 * j"
    using w(4,5) by (auto simp: mod_eq_0_iff_dvd elim!: dvdE)
  then have "d < j - i" using w by (simp add: cd div_less_iff_less_mult)
  then have "4096 * (d + 1 + i) \<le> 4096 * j" by (intro mult_le_mono2) simp
  then have "s + 4096 * (d + 1) \<le> e + 1" unfolding ij by (simp add: distrib_left)
  ultimately show ?thesis using x y
    by (simp add: region_in_block_def uvm_va_block_region_from_start_end_def word_less_nat_alt unat_word_ariths
        n [symmetric] cd [symmetric])
qed

lemma find_hole_in_bounds:
  assumes "range_tree_wf mem t" "fst (range_node_find mem t addr) = None" "s \<le> addr" "addr \<le> e"
    "uvm_range_tree_find_hole_in mem t addr s e = (status, s', e')"
  shows "s \<le> s' \<and> s' \<le> addr \<and> addr \<le> e' \<and> e' \<le> e"
  using assms(1)
proof (cases rule: find_hole_eq [where addr = addr])
  case used
  then show ?thesis using assms(2) range_find_None [OF assms(1)] by simp
next
  case (hole xs ys)
  have "hole_start mem xs \<le> addr" "addr \<le> hole_end mem ys"
    using hole_start_props(1) [OF assms(1) hole(2,3)] hole_end_props(1) [OF assms(1) hole(2,4)] by simp_all
  then show ?thesis using assms(3-5) hole(5) by (auto simp: uvm_range_tree_find_hole_in_def)
qed

lemma max_region_in_block:
  assumes "prefetch_wf va_space b fr"
  shows "region_in_block b (max_prefetch_region b (uvm_va_policy_get_region b fr) fr)"
proof (cases "vb_is_hmm b")
  case False
  then show ?thesis using assms by (simp add: max_prefetch_region_def prefetch_wf_def region_from_block_in)
next
  case True
  let ?a = "uvm_va_block_region_start b fr" and ?mem = "va_policy_mem b" and ?t = "va_policy_tree b"
  let ?s = "max (vb_start b) (vma_start b)" and ?e = "min (vb_end b) (vma_end b - 1)"
  have wf: "block_wf b" "region_in_block b fr" "range_tree_wf ?mem ?t" "vma_start b \<le> ?a" "?a < vma_end b"
    using assms True by (simp_all add: prefetch_wf_def)
  note a = region_addresses(1) [OF wf(1,2)]
  have "vb_start b \<le> ?a" using a by (simp add: word_le_nat_alt)
  moreover have "?a \<le> vb_end b"
    using a wf(2) by (simp add: word_le_nat_alt word_less_nat_alt region_in_block_def)
  moreover have "?a \<le> vma_end b - 1" using wf(5) by (cases "vma_end b = 0") simp_all
  ultimately have se: "?s \<le> ?a" "?a \<le> ?e" using wf(4) by simp_all
  have in_block: "region_in_block b (uvm_va_block_region_from_start_end b s e)"
    if "?s \<le> s \<and> s \<le> ?a \<and> ?a \<le> e \<and> e \<le> ?e" for s e
    using that by (intro region_from_start_end_in [OF wf(1)]) auto
  show ?thesis
  proof (cases "uvm_range_tree_find ?mem ?t ?a")
    case None
    obtain status s e where h: "uvm_range_tree_find_hole_in ?mem ?t ?a ?s ?e = (status, s, e)" by (metis prod_cases3)
    have "fst (range_node_find ?mem ?t ?a) = None" using None by (simp add: uvm_range_tree_find_def)
    note in_block [OF find_hole_in_bounds [OF wf(3) this se h]]
    then show ?thesis using True None h
      by (simp add: max_prefetch_region_def uvm_hmm_get_prefetch_region_def uvm_va_policy_get_region_def Let_def)
  next
    case (Some node)
    then have "rn_start (?mem node) \<le> ?a" "?a \<le> rn_end (?mem node)"
      using range_find_Some [OF wf(3), of ?a node] by (auto simp: uvm_range_tree_find_def node_addrs_def)
    then have "region_in_block b (uvm_va_block_region_from_start_end b (max ?s (rn_start (?mem node))) (min ?e
        (rn_end (?mem node))))"
      using se by (intro in_block) (auto simp: min_le_iff_disj)
    then show ?thesis using True Some
      by (simp add: max_prefetch_region_def uvm_hmm_get_prefetch_region_def uvm_va_policy_get_region_def Let_def)
  qed
qed

lemma mask_weight_0 [simp]: "uvm_page_mask_weight m = 0 \<longleftrightarrow> m = 0"
proof
  assume "uvm_page_mask_weight m = 0"
  then have "\<not> bit m i" if "i < 512" for i
    using that by (simp add: uvm_page_mask_weight_def bitmap_weight_def filter_empty_conv)
  then show "m = 0" by (intro bit_word_eqI) simp
qed (simp add: uvm_page_mask_weight_def bitmap_weight_def)

lemma mask_weight_pos [simp]: "0 < uvm_page_mask_weight m \<longleftrightarrow> m \<noteq> 0"
  using mask_weight_0 [of m] by linarith

lemma region_block_cong [simp]:
  "uvm_va_policy_get_region (b\<lparr>last_migration_proc_id := p, fault_migrations_to_last_proc := c\<rparr>)
      fr = uvm_va_policy_get_region b fr"
  "max_prefetch_region (b\<lparr>last_migration_proc_id := p, fault_migrations_to_last_proc := c\<rparr>)
      policy fr = max_prefetch_region b policy fr"
  "block_wf (b\<lparr>last_migration_proc_id := p, fault_migrations_to_last_proc := c\<rparr>) = block_wf b"
  "region_in_block (b\<lparr>last_migration_proc_id := p, fault_migrations_to_last_proc := c\<rparr>) r =
      region_in_block b r"
  "group_region va_space (b\<lparr>last_migration_proc_id := p, fault_migrations_to_last_proc := c\<rparr>) rgr
      = group_region va_space b rgr"
  by (simp_all add: uvm_va_policy_get_region_def max_prefetch_region_def uvm_hmm_get_prefetch_region_def block_wf_def
      region_in_block_def group_region_def uvm_va_block_region_from_start_end_def uvm_va_block_cpu_page_index_def
      uvm_va_block_region_start_def uvm_va_block_region_from_block_def uvm_va_block_num_cpu_pages_def
      uvm_va_block_size_def Let_def split: uvm_va_policy_ref.splits option.splits prod.splits)

lemma update_tree_ends:
  assumes "prefetch_wf va_space b fr" "block_wf c" "region_in_block c m"
  shows "\<exists>t. update_bitmap_tree_from_va_block tree va_space c new_residency faulted m = Some t"
proof -
  let ?bps = "if new_residency \<noteq> UVM_ID_CPU \<and> new_residency \<noteq> UVM_ID_INVALID \<and>
      registered_gpu_va_spaces va_space new_residency then gpu_big_page_size va_space new_residency else 0x10000"
  obtain k where k: "12 \<le> k" "k \<le> 21" "?bps = 2 ^ k"
  proof (cases "new_residency \<noteq> UVM_ID_CPU \<and> new_residency \<noteq> UVM_ID_INVALID \<and>
      registered_gpu_va_spaces va_space new_residency")
    case True
    then show ?thesis using assms(1) that by (auto simp: prefetch_wf_def)
  next
    case False
    then show ?thesis using that [of 16] by auto
  qed
  have "unat (reg_outer (uvm_va_block_big_page_region_subset c m ?bps)) \<le> 512"
    unfolding k(3) by (rule big_page_subset_outer [OF assms(2,3) k(1,2)])
  then show ?thesis unfolding update_bitmap_tree_from_va_block_def Let_def by (rule grow_ends [OF _ k])
qed

lemma prenotify_result:
  assumes "prefetch_wf va_space b fr"
  obtains pages where
    "uvm_perf_prefetch_prenotify_fault_migrations env g va_space b new_residency faulted fr =
       Some (uvm_page_mask_weight pages, pages, note_faults b new_residency faulted fr)"
    "\<And>i. bit pages i \<Longrightarrow> may_prefetch b new_residency faulted fr i"
proof -
  let ?pol = "uvm_va_policy_get_region b fr"
  let ?m = "max_prefetch_region b ?pol fr"
  let ?b = "if last_migration_proc_id b \<noteq> new_residency
    then b\<lparr>last_migration_proc_id := new_residency, fault_migrations_to_last_proc := 0\<rparr> else b"
  have wf: "block_wf b" using assms by (simp add: prefetch_wf_def)
  have m: "region_in_block b ?m" by (rule max_region_in_block [OF assms])
  have mwf: "region_wf ?m" using m in_block_outer [OF wf m] by (auto simp: region_wf_def region_in_block_def)
  have bw: "block_wf ?b" "region_in_block ?b ?m" "max_prefetch_region ?b ?pol fr = ?m" using wf m by simp_all
  obtain p0 where c: "candidate_pages env g va_space ?b new_residency faulted fr ?pol (vb_thrashing b) = Some p0"
    and p0: "\<And>i. bit p0 i \<Longrightarrow> i \<in> set (region_pages ?m)"
  proof (cases "vb_resident ?b = [] \<and> new_residency = policy_preferred ?b ?pol")
    case True
    then show ?thesis
      using that [of "uvm_page_mask_region_fill 0 ?m"] bit_region_fill [OF mwf, of 0]
      unfolding candidate_pages_def bw(3) Let_def by simp
  next
    case False
    let ?res = "if new_residency = UVM_ID_CPU \<or> vb_gpu_state ?b new_residency
      then Some (vb_resident_mask ?b new_residency) else None"
    obtain t where "update_bitmap_tree_from_va_block (init_bitmap_tree_from_region ?m ?res faulted)
        va_space ?b new_residency faulted ?m = Some t"
      using update_tree_ends [OF assms bw(1,2)] by blast
    then have "candidate_pages env g va_space ?b new_residency faulted fr ?pol (vb_thrashing b) =
        Some (compute_prefetch_mask env (g_uvm_perf_prefetch_threshold g) fr ?m t
          (case vb_thrashing b of Some t \<Rightarrow> faulted AND NOT t | None \<Rightarrow> faulted))"
      using False unfolding candidate_pages_def bw(3) Let_def by (simp only: if_False option.map)
    then show ?thesis by (rule that) (rule mask_confined)
  qed
  let ?p = "exclude_pages ?b new_residency faulted (vb_thrashing b) p0"
  have "uvm_perf_prefetch_prenotify_fault_migrations env g va_space b new_residency faulted fr =
      Some (uvm_page_mask_weight ?p, ?p, note_faults b new_residency faulted fr)"
    unfolding uvm_perf_prefetch_prenotify_fault_migrations_def Let_def c option.case
    by (simp add: note_faults_def)
  moreover have "may_prefetch b new_residency faulted fr i" if "bit ?p i" for i
    using that p0 [of i] unfolding may_prefetch_def
    by (auto simp: exclude_pages_def Let_def bit_and_iff bit_or_iff bit_not_iff split: option.splits if_splits)
  ultimately show ?thesis by (rule that)
qed

lemma clear_groups:
  assumes "fold (clear_range_group va_space b faulted) rgrs (c, m) = (c', m')"
  shows "(\<forall>i. bit m' i \<longrightarrow> bit m i) \<and> (\<not> c' \<longrightarrow> m' = m) \<and> (c
      \<longrightarrow> c') \<and>
    (\<forall>rgr\<in>set rgrs. region_wf (group_region va_space b rgr) \<longrightarrow>
       uvm_page_mask_region_empty faulted (group_region va_space b rgr) \<longrightarrow>
       uvm_page_mask_region_empty m' (group_region va_space b rgr))"
  using assms
proof (induction rgrs arbitrary: c m)
  case (Cons rgr rgrs)
  obtain c1 m1 where s: "clear_range_group va_space b faulted rgr (c, m) = (c1, m1)" by fastforce
  let ?r = "group_region va_space b rgr"
  have rest: "fold (clear_range_group va_space b faulted) rgrs (c1, m1) = (c', m')" using Cons.prems s by simp
  note ih = Cons.IH [OF rest]
  have step: "(\<forall>i. bit m1 i \<longrightarrow> bit m i) \<and> (\<not> c1 \<longrightarrow> m1 = m)
      \<and> (c \<longrightarrow> c1) \<and>
      (region_wf ?r \<longrightarrow> uvm_page_mask_region_empty faulted ?r \<longrightarrow>
          uvm_page_mask_region_empty m1 ?r)"
    using s bit_region_clear [of ?r m]
    by (auto simp: clear_range_group_def Let_def group_region_def [symmetric] uvm_page_mask_region_clear_def
        bit_bitmap_clear region_empty_iff split: if_splits)
  have "uvm_page_mask_region_empty m1 ?r \<Longrightarrow> uvm_page_mask_region_empty m' ?r"
    using ih by (auto simp: region_empty_iff)
  then show ?case using ih step by auto
qed simp

lemma group_region_wf:
  assumes "block_wf b" "node_addrs (range_group_mem va_space) rgr \<inter> {vb_start b..vb_end b} \<noteq> {}"
  shows "region_wf (group_region va_space b rgr)"
proof -
  obtain a where "a \<in> node_addrs (range_group_mem va_space) rgr" "a \<in> {vb_start b..vb_end b}"
    using assms(2) by blast
  then have "rn_start (range_group_mem va_space rgr) \<le> a" "a \<le> rn_end (range_group_mem va_space rgr)"
      "vb_start b \<le> a" "a \<le> vb_end b"
    by (simp_all add: node_addrs_def)
  then have r: "region_in_block b (group_region va_space b rgr)"
    unfolding group_region_def by (intro region_from_start_end_in [OF assms(1)]) auto
  show ?thesis using r in_block_outer [OF assms(1) r] by (auto simp: region_wf_def region_in_block_def)
qed

lemma get_hint_result:
  assumes wf: "prefetch_wf va_space b fr"
  obtains hint b' where
    "uvm_perf_prefetch_get_hint_va_block env g va_space b new_residency faulted fr = Some (hint, b')"
    "\<And>i. bit (hint_pages hint) i \<Longrightarrow> may_prefetch b new_residency faulted fr i"
    "b' = (if uvm_perf_prefetch_enabled g va_space then note_faults b new_residency faulted fr else b)"
    "\<not> uvm_perf_prefetch_enabled g va_space \<Longrightarrow> hint_pages hint = 0"
    "hint_residency hint = (if uvm_perf_prefetch_enabled g va_space \<and> hint_pages hint \<noteq> 0 \<and>
       g_uvm_perf_prefetch_min_faults g \<le> ucast (fault_migrations_to_last_proc b') then new_residency else
           UVM_ID_INVALID)"
    "\<And>rgr. hint_residency hint \<noteq> UVM_ID_INVALID \<Longrightarrow> rgr \<in> set (rt_head
        (range_group_ranges va_space)) \<Longrightarrow>
       node_addrs (range_group_mem va_space) rgr \<inter> {vb_start b..vb_end b} \<noteq> {} \<Longrightarrow>
       uvm_page_mask_region_empty faulted (group_region va_space b rgr) \<Longrightarrow>
       uvm_page_mask_region_empty (hint_pages hint) (group_region va_space b rgr)"
proof (cases "uvm_perf_prefetch_enabled g va_space")
  case False
  then show ?thesis
    using that [of "\<lparr>hint_pages = 0, hint_residency = UVM_ID_INVALID\<rparr>" b]
    by (simp add: uvm_perf_prefetch_get_hint_va_block_def)
next
  case True
  obtain pages where p: "uvm_perf_prefetch_prenotify_fault_migrations env g va_space b new_residency faulted fr =
       Some (uvm_page_mask_weight pages, pages, note_faults b new_residency faulted fr)"
    "\<And>i. bit pages i \<Longrightarrow> may_prefetch b new_residency faulted fr i"
    using prenotify_result [OF wf] by blast
  let ?b = "note_faults b new_residency faulted fr"
  let ?due = "g_uvm_perf_prefetch_min_faults g \<le> ucast (fault_migrations_to_last_proc ?b) \<and> 0 <
      uvm_page_mask_weight pages"
  have b: "vb_start ?b = vb_start b" "vb_end ?b = vb_end b" "last_migration_proc_id ?b = new_residency"
    "group_region va_space ?b = group_region va_space b" "block_wf b"
    using wf by (simp_all add: note_faults_def prefetch_wf_def fun_eq_iff)
  show ?thesis
  proof (cases ?due)
    case False
    then show ?thesis
      using that [of "\<lparr>hint_pages = pages, hint_residency = UVM_ID_INVALID\<rparr>" ?b] True p
      by (auto simp: uvm_perf_prefetch_get_hint_va_block_def)
  next
    case due: True
    let ?groups = "filter (\<lambda>n. node_addrs (range_group_mem va_space) n \<inter> {vb_start b..vb_end b}
        \<noteq> {})
      (rt_head (range_group_ranges va_space))"
    have it: "uvm_range_tree_for_each_in (range_group_mem va_space) (range_group_ranges va_space) (vb_start b)
        (vb_end b) =
        Some ?groups"
      using wf by (intro for_each_in_nodes) (auto simp: prefetch_wf_def block_wf_def)
    obtain c m where f: "fold (clear_range_group va_space ?b faulted) ?groups (False, pages) = (c, m)" by fastforce
    note cl = clear_groups [OF f, unfolded b]
    have w: "0 < (if c then uvm_page_mask_weight m else uvm_page_mask_weight pages) \<longleftrightarrow> m
        \<noteq> 0"
      using cl due by auto
    let ?h = "\<lparr>hint_pages = m, hint_residency = (if m \<noteq> 0 then new_residency else
        UVM_ID_INVALID)\<rparr>"
    have r: "uvm_perf_prefetch_get_hint_va_block env g va_space b new_residency faulted fr = Some (?h, ?b)"
      using True p(1) due it f w by (simp add: uvm_perf_prefetch_get_hint_va_block_def b Let_def)
    show ?thesis
    proof (rule that [OF r])
      show "may_prefetch b new_residency faulted fr i" if "bit (hint_pages ?h) i" for i using that cl p(2) by auto
      show "uvm_page_mask_region_empty (hint_pages ?h) (group_region va_space b rgr)"
        if "rgr \<in> set (rt_head (range_group_ranges va_space))"
          "node_addrs (range_group_mem va_space) rgr \<inter> {vb_start b..vb_end b} \<noteq> {}"
          "uvm_page_mask_region_empty faulted (group_region va_space b rgr)" for rgr
        using that cl group_region_wf [OF b(5) that(2)] by auto
    qed (use True due in simp_all)
  qed
qed

subsection \<open>Properties\<close>

text \<open>
  C32: Whatever the attached policies answer and however they change between the calls, the region to
  prefetch around a page is empty or a nonempty part of the region that the block allows, within the
  pages of a block; and the mask of a batch of faults on system-allocated memory has pages of the allowed
  region only.
\<close>

theorem prefetch_region_confined:
  "(let r = fst (compute_prefetch_region env threshold page tree m)
    in r = uvm_va_block_region 0 0 \<or>
       reg_first m \<le> reg_first r \<and> reg_first r < reg_outer r \<and> reg_outer r \<le> reg_outer m \<and>
       unat (reg_outer r) \<le> 512) \<and>
   {i. bit (uvm_perf_prefetch_compute_ats envs g va_space faulted fr m residency) i} \<subseteq> set (region_pages m)"
  using compute_region_confined [of m env threshold page tree]
  by (auto simp: Let_def region_confined_def uvm_perf_prefetch_compute_ats_def intro: mask_confined split: if_splits)

text \<open>
  C34: If the policy neither takes over the traversal nor has a valid region to put in place of it, the
  region is the one of the native heuristic: of the aligned subtrees around the page the largest one of
  whose leaves more than the threshold's share is set, moved from tree to block coordinates; nothing if
  there is none or if it reaches beyond the allowed region.
\<close>

theorem prefetch_native_heuristic:
  assumes "tree_wf tree" and "threshold \<le> 100" and "page - reg_first m + bt_offset tree < bt_leaf_count tree"
    and "env 0 = (mem, slot)" and "uvm_bpf_call_gpu_page_prefetch mem slot page tree m = (raw, d)"
    and "sint raw \<noteq> 2"
    and "sint raw \<noteq> 1 \<or> fst (nv_gpu_transition_validate_region d (ucast (reg_first m)) (ucast
        (reg_outer m))
      block_outer type_outer) \<noteq> NV_GPU_TRANSITION_APPLY"
  shows "fst (compute_prefetch_region env threshold page tree m) =
    native_region (unat threshold) tree (unat (page - reg_first m + bt_offset tree)) m"
  using assms(6,7) by (intro compute_region_native [where env = env, OF assms(1,2) refl assms(3-5)])
    (auto simp: prefetch_initial_effect_eq)

theorem prefetch_native_heuristic_witness:
  "fst (compute_prefetch_region (no_policy :: unit hook_env) 51 3 (sample_bitmap_tree 0) (uvm_va_block_region 0 8)) =
     native_region 51 (sample_bitmap_tree 0) 3 (uvm_va_block_region 0 8)"
proof -
  have "tree_wf (sample_bitmap_tree 0)"
    by (simp add: tree_wf_def sample_bitmap_tree_def tree_level_count_def) code_simp
  moreover have "(no_policy :: unit hook_env) 0 = (fst (no_policy 0), None)" by (simp add: no_policy_def)
  moreover have "uvm_bpf_call_gpu_page_prefetch (fst ((no_policy :: unit hook_env) 0)) None 3 (sample_bitmap_tree 0)
      (uvm_va_block_region 0 8) = (0, prefetch_decision_init)"
    by (simp add: uvm_bpf_call_gpu_page_prefetch_def)
  ultimately show ?thesis
    using prefetch_native_heuristic [of "sample_bitmap_tree 0" 51 3 "uvm_va_block_region 0 8" no_policy _ None 0]
    by (simp add: sample_bitmap_tree_def uvm_va_block_region_def)
qed

text \<open>
  C35: The alignment of the tree to big pages costs the native heuristic its largest answer: if the tree
  has leaves in front of the block and the share of set leaves of the whole tree is over the threshold,
  nothing is prefetched, as the subtree that is selected starts in front of the block.
\<close>

theorem prefetch_padding_drops_root:
  assumes "tree_wf tree" and "threshold \<le> 100" and "page - reg_first m + bt_offset tree < bt_leaf_count tree"
    and "env 0 = (mem, None)" and "0 < bt_offset tree"
    and "unat threshold * unat (bt_leaf_count tree) <
      100 * length (filter (bit (bt_pages tree)) [0..<unat (bt_leaf_count tree)])"
  shows "fst (compute_prefetch_region env threshold page tree m) = uvm_va_block_region 0 0"
proof -
  have "uvm_bpf_call_gpu_page_prefetch mem None page tree m = (0, prefetch_decision_init)"
    by (simp add: uvm_bpf_call_gpu_page_prefetch_def)
  note compute_region_native [where env = env, OF assms(1,2) refl assms(3,4) this]
  then have "fst (compute_prefetch_region env threshold page tree m) =
      native_region (unat threshold) tree (unat (page - reg_first m + bt_offset tree)) m"
    by (simp add: prefetch_initial_effect_eq)
  then show ?thesis
    using native_root_padding [OF assms(1) _ assms(5,6)] assms(3) by (simp add: word_less_nat_alt)
qed

theorem prefetch_padding_drops_root_witness:
  "fst (compute_prefetch_region (no_policy :: unit hook_env) 51 3 (sample_bitmap_tree 1) (uvm_va_block_region 0 7)) =
     uvm_va_block_region 0 0"
proof -
  have "tree_wf (sample_bitmap_tree 1)"
    by (simp add: tree_wf_def sample_bitmap_tree_def tree_level_count_def) code_simp
  moreover have "51 * unat (bt_leaf_count (sample_bitmap_tree 1)) <
      100 * length (filter (bit (bt_pages (sample_bitmap_tree 1))) [0..<unat (bt_leaf_count (sample_bitmap_tree 1))])"
    by code_simp
  ultimately show ?thesis
    using prefetch_padding_drops_root [of "sample_bitmap_tree 1" 51 3 "uvm_va_block_region 0 7" no_policy]
    by (simp add: sample_bitmap_tree_def uvm_va_block_region_def no_policy_def)
qed

text \<open>
  C33: The computation of a hint ends. The hint has pages of the allowed region only: none that fault
  themselves, none that thrash, and for the CPU none that it has mapped already. It names a destination,
  the processor of the faults, exactly if prefetching is on, pages are left and enough faults have gone
  to that processor; the range groups in which no page faults have then no page in the hint. The counters
  of the block follow the faults.
\<close>

theorem prefetch_hint_sound:
  assumes "prefetch_wf va_space b fr"
  shows "\<exists>hint b'. uvm_perf_prefetch_get_hint_va_block env g va_space b new_residency faulted fr = Some
      (hint, b') \<and>
    {i. bit (hint_pages hint) i} \<subseteq> {i. may_prefetch b new_residency faulted fr i} \<and>
    b' = (if uvm_perf_prefetch_enabled g va_space then note_faults b new_residency faulted fr else b) \<and>
    hint_residency hint = (if uvm_perf_prefetch_enabled g va_space \<and> hint_pages hint \<noteq> 0 \<and>
       g_uvm_perf_prefetch_min_faults g \<le> ucast (fault_migrations_to_last_proc b') then new_residency else
           UVM_ID_INVALID) \<and>
    (hint_residency hint \<noteq> UVM_ID_INVALID \<longrightarrow>
       (\<forall>rgr\<in>set (rt_head (range_group_ranges va_space)).
          node_addrs (range_group_mem va_space) rgr \<inter> {vb_start b..vb_end b} \<noteq> {} \<longrightarrow>
          uvm_page_mask_region_empty faulted (group_region va_space b rgr) \<longrightarrow>
          uvm_page_mask_region_empty (hint_pages hint) (group_region va_space b rgr)))"
  by (rule get_hint_result [OF assms, of env g new_residency faulted]) (intro exI conjI; blast)

theorem prefetch_hint_sound_witness:
  "\<exists>hint b'. uvm_perf_prefetch_get_hint_va_block (\<lambda>_. no_policy :: unit hook_env)
      \<lparr>g_uvm_perf_prefetch_enable = True, g_uvm_perf_prefetch_threshold = 51,
          g_uvm_perf_prefetch_min_faults = 1\<rparr>
      sample_va_space sample_va_block 1 1 (uvm_va_block_region 0 1) = Some (hint, b') \<and>
    {i. bit (hint_pages hint) i} \<subseteq> {i. may_prefetch sample_va_block 1 1 (uvm_va_block_region 0 1) i}"
proof -
  have "prefetch_wf sample_va_space sample_va_block (uvm_va_block_region 0 1)"
    by (auto simp: prefetch_wf_def sample_va_space_def sample_va_block_def block_wf_def range_tree_wf_def
        nodes_ordered_def word_le_nat_alt intro: exI [of _ 16])
  then show ?thesis using prefetch_hint_sound by blast
qed

end
