(* ===== verification/Pmm.thy ===== *)
theory Pmm
  imports Mem_Hooks
begin

section \<open>The physical memory manager\<close>

text \<open>
  The chunks of \<^verbatim>\<open>uvm_pmm_gpu.c\<close>, the lists they are on, and the two policy hooks that
  may move a root chunk between the eviction lists. A chunk pointer is a number; the chunks are a store from
  pointers to records. The pointer of a root chunk is the one of the chunk in it, which is its first field. A
  list is the list of the chunks linked into it; as the links are part of the chunk, taking a chunk off its
  list takes it off whichever list it is on. The first operation of the list update reinitialises the links of
  a chunk that is on no list of the manager, and so leaves the lists as they are.

  All this runs under the list lock, or holds the manager's mutex where it touches the chunk tree. References
  to pages of the chunk by others and the results of memory allocations are arguments.
\<close>

subsection \<open>Types\<close>

type_synonym chunk_ptr = NvU64
type_synonym uvm_chunk_size_t = NvU32
type_synonym uvm_chunk_sizes_mask_t = NvU32

abbreviation (input) UVM_CHUNK_SIZE_MAX :: uvm_chunk_size_t where
  "UVM_CHUNK_SIZE_MAX \<equiv> 0x200000"

abbreviation (input) UVM_CHUNK_SIZE_INVALID :: uvm_chunk_size_t where
  "UVM_CHUNK_SIZE_INVALID \<equiv> 0x400000"

datatype uvm_pmm_gpu_memory_type_t = UVM_PMM_GPU_MEMORY_TYPE_USER | UVM_PMM_GPU_MEMORY_TYPE_KERNEL

datatype uvm_pmm_gpu_chunk_state_t =
    UVM_PMM_GPU_CHUNK_STATE_PMA_OWNED
  | UVM_PMM_GPU_CHUNK_STATE_FREE
  | UVM_PMM_GPU_CHUNK_STATE_IS_SPLIT
  | UVM_PMM_GPU_CHUNK_STATE_TEMP_PINNED
  | UVM_PMM_GPU_CHUNK_STATE_ALLOCATED

datatype uvm_pmm_list_zero_t = UVM_PMM_LIST_ZERO | UVM_PMM_LIST_NO_ZERO

datatype uvm_pmm_root_list_state_t =
    UVM_PMM_ROOT_LIST_NONE
  | UVM_PMM_ROOT_LIST_FREE
  | UVM_PMM_ROOT_LIST_VA_BLOCK_USED
  | UVM_PMM_ROOT_LIST_VA_BLOCK_UNUSED
  | UVM_PMM_ROOT_LIST_EVICTION
  | UVM_PMM_ROOT_LIST_LAZY_FREE

fun root_list_code :: "uvm_pmm_root_list_state_t \<Rightarrow> NvU32" where
  "root_list_code UVM_PMM_ROOT_LIST_NONE = 0"
| "root_list_code UVM_PMM_ROOT_LIST_FREE = 1"
| "root_list_code UVM_PMM_ROOT_LIST_VA_BLOCK_USED = 2"
| "root_list_code UVM_PMM_ROOT_LIST_VA_BLOCK_UNUSED = 3"
| "root_list_code UVM_PMM_ROOT_LIST_EVICTION = 4"
| "root_list_code UVM_PMM_ROOT_LIST_LAZY_FREE = 5"

datatype uvm_pmm_root_list_op_t =
    UVM_PMM_ROOT_LIST_OP_INIT
  | UVM_PMM_ROOT_LIST_OP_DEL_INIT
  | UVM_PMM_ROOT_LIST_OP_ADD_TAIL
  | UVM_PMM_ROOT_LIST_OP_MOVE_HEAD
  | UVM_PMM_ROOT_LIST_OP_MOVE_TAIL

record uvm_pmm_gpu_chunk_suballoc_t =
  sa_allocated :: NvU32
  sa_pinned_leaf_chunks :: NvU32
  sa_subchunks :: "chunk_ptr list"

record uvm_gpu_chunk_t =
  c_address :: NvU64
  c_type :: uvm_pmm_gpu_memory_type_t
  c_in_eviction :: bool
  c_inject_split_error :: bool
  c_is_zero :: bool
  c_is_referenced :: bool
  c_state :: uvm_pmm_gpu_chunk_state_t
  c_log2_size :: nat
  c_va_block_page_index :: uvm_page_index_t
  c_gpu_index :: NvU32
  c_va_block :: "NvU64 option"
  c_parent :: "chunk_ptr option"
  c_suballoc :: "uvm_pmm_gpu_chunk_suballoc_t option"

text \<open>The list heads of the manager.\<close>

datatype pmm_list =
    Va_Block_Unused
  | Va_Block_Used
  | Va_Block_Lazy_Free
  | Free_List uvm_pmm_gpu_memory_type_t nat uvm_pmm_list_zero_t

record uvm_pmm_gpu_t =
  pmm_addr :: NvU64
  pmm_chunk_sizes :: "uvm_pmm_gpu_memory_type_t \<Rightarrow> uvm_chunk_sizes_mask_t"
  root_array :: "nat \<Rightarrow> chunk_ptr"
  pmm_chunks :: "chunk_ptr \<Rightarrow> uvm_gpu_chunk_t"
  root_list_state :: "chunk_ptr \<Rightarrow> uvm_pmm_root_list_state_t"
  root_list_generation :: "chunk_ptr \<Rightarrow> NvU64"
  pmm_lists :: "pmm_list \<Rightarrow> chunk_ptr list"

record uvm_bpf_pmm_decision_ctx_t =
  dc_pmm :: NvU64
  dc_root_chunk :: chunk_ptr
  dc_observed :: nv_gpu_pmm_snapshot_t
  dc_request :: nv_gpu_pmm_request_t

abbreviation (input) chunk_of :: "uvm_pmm_gpu_t \<Rightarrow> chunk_ptr \<Rightarrow> uvm_gpu_chunk_t" where
  "chunk_of pmm chunk \<equiv> pmm_chunks pmm chunk"

definition upd_chunk :: "chunk_ptr \<Rightarrow> (uvm_gpu_chunk_t \<Rightarrow> uvm_gpu_chunk_t) \<Rightarrow> uvm_pmm_gpu_t \<Rightarrow> uvm_pmm_gpu_t" where
  "upd_chunk chunk f pmm = pmm\<lparr>pmm_chunks := (pmm_chunks pmm)(chunk := f (pmm_chunks pmm chunk))\<rparr>"

definition upd_suballoc ::
  "chunk_ptr \<Rightarrow> (uvm_pmm_gpu_chunk_suballoc_t \<Rightarrow> uvm_pmm_gpu_chunk_suballoc_t) \<Rightarrow> uvm_pmm_gpu_t \<Rightarrow> uvm_pmm_gpu_t" where
  "upd_suballoc chunk f = upd_chunk chunk (\<lambda>c. c\<lparr>c_suballoc := map_option f (c_suballoc c)\<rparr>)"

subsection \<open>Sizes and root chunks\<close>

definition uvm_gpu_chunk_get_size :: "uvm_gpu_chunk_t \<Rightarrow> uvm_chunk_size_t" where
  "uvm_gpu_chunk_get_size chunk = push_bit (c_log2_size chunk) 1"

definition uvm_gpu_chunk_set_size :: "uvm_gpu_chunk_t \<Rightarrow> uvm_chunk_size_t \<Rightarrow> uvm_gpu_chunk_t" where
  "uvm_gpu_chunk_set_size chunk sz = chunk\<lparr>c_log2_size := ilog2 (unat sz)\<rparr>"

definition uvm_gpu_chunk_is_user :: "uvm_gpu_chunk_t \<Rightarrow> bool" where
  "uvm_gpu_chunk_is_user chunk \<longleftrightarrow> c_type chunk = UVM_PMM_GPU_MEMORY_TYPE_USER"

definition root_chunk_from_address :: "uvm_pmm_gpu_t \<Rightarrow> NvU64 \<Rightarrow> chunk_ptr" where
  "root_chunk_from_address pmm addr = root_array pmm (unat (addr div ucast UVM_CHUNK_SIZE_MAX))"

definition root_chunk_from_chunk :: "uvm_pmm_gpu_t \<Rightarrow> chunk_ptr \<Rightarrow> chunk_ptr" where
  "root_chunk_from_chunk pmm chunk = root_chunk_from_address pmm (c_address (chunk_of pmm chunk))"

definition chunk_is_root_chunk :: "uvm_gpu_chunk_t \<Rightarrow> bool" where
  "chunk_is_root_chunk chunk \<longleftrightarrow> uvm_gpu_chunk_get_size chunk = UVM_CHUNK_SIZE_MAX"

subsection \<open>List updates\<close>

definition pmm_list_del :: "chunk_ptr \<Rightarrow> (pmm_list \<Rightarrow> chunk_ptr list) \<Rightarrow> pmm_list \<Rightarrow> chunk_ptr list" where
  "pmm_list_del chunk ls = (\<lambda>l. removeAll chunk (ls l))"

definition root_list_apply ::
  "uvm_pmm_root_list_op_t \<Rightarrow> chunk_ptr \<Rightarrow> pmm_list option \<Rightarrow> (pmm_list \<Rightarrow> chunk_ptr list) \<Rightarrow>
     pmm_list \<Rightarrow> chunk_ptr list" where
  "root_list_apply operation chunk destination ls =
     (case operation of
        UVM_PMM_ROOT_LIST_OP_INIT \<Rightarrow> ls
      | UVM_PMM_ROOT_LIST_OP_DEL_INIT \<Rightarrow> pmm_list_del chunk ls
      | UVM_PMM_ROOT_LIST_OP_ADD_TAIL \<Rightarrow>
          (let d = the destination in ls(d := ls d @ [chunk]))
      | UVM_PMM_ROOT_LIST_OP_MOVE_HEAD \<Rightarrow>
          (let d = the destination; ls = pmm_list_del chunk ls in ls(d := chunk # ls d))
      | UVM_PMM_ROOT_LIST_OP_MOVE_TAIL \<Rightarrow>
          (let d = the destination; ls = pmm_list_del chunk ls in ls(d := ls d @ [chunk])))"

definition uvm_pmm_root_list_update_locked ::
  "uvm_pmm_gpu_t \<Rightarrow> chunk_ptr \<Rightarrow> pmm_list option \<Rightarrow> uvm_pmm_root_list_state_t \<Rightarrow> uvm_pmm_root_list_op_t \<Rightarrow>
     uvm_pmm_gpu_t" where
  "uvm_pmm_root_list_update_locked pmm chunk destination root_state operation =
     (let root_chunk =
        (if chunk_is_root_chunk (chunk_of pmm chunk) then Some (root_chunk_from_chunk pmm chunk) else None);
          pmm = pmm\<lparr>pmm_lists := root_list_apply operation chunk destination (pmm_lists pmm)\<rparr>
      in case root_chunk of
           None \<Rightarrow> pmm
         | Some root_chunk \<Rightarrow>
             (let pmm =
                (if root_list_state pmm root_chunk \<noteq> root_state
                   then pmm\<lparr>root_list_generation :=
                          (root_list_generation pmm)(root_chunk := root_list_generation pmm root_chunk + 1)\<rparr>
                 else pmm)
              in pmm\<lparr>root_list_state := (root_list_state pmm)(root_chunk := root_state)\<rparr>))"

subsection \<open>Policies\<close>

definition pmm_snapshot :: "uvm_pmm_gpu_t \<Rightarrow> chunk_ptr \<Rightarrow> nv_gpu_pmm_snapshot_t" where
  "pmm_snapshot pmm root_chunk =
     \<lparr>owner_id = pmm_addr pmm, root_id = root_chunk, generation = root_list_generation pmm root_chunk,
      source = root_list_code (root_list_state pmm root_chunk)\<rparr>"

text \<open>The result of the validation, and the list to move to with its state.\<close>

definition pmm_bpf_validate_reorder_locked ::
  "uvm_pmm_gpu_t \<Rightarrow> chunk_ptr \<Rightarrow> uvm_bpf_pmm_decision_ctx_t option \<Rightarrow>
     nv_gpu_transition_result \<times> pmm_list option \<times> uvm_pmm_root_list_state_t" where
  "pmm_bpf_validate_reorder_locked pmm chunk decision_ctx =
     (case decision_ctx of
        None \<Rightarrow> (NV_GPU_TRANSITION_REJECT_IDENTITY, None, UVM_PMM_ROOT_LIST_NONE)
      | Some ctx \<Rightarrow>
          if \<not> chunk_is_root_chunk (chunk_of pmm chunk)
            then (NV_GPU_TRANSITION_REJECT_IDENTITY, None, UVM_PMM_ROOT_LIST_NONE)
          else
            (let root_chunk = root_chunk_from_chunk pmm chunk
             in if chunk \<noteq> root_chunk then (NV_GPU_TRANSITION_REJECT_IDENTITY, None, UVM_PMM_ROOT_LIST_NONE)
                else
                  (let result = nv_gpu_transition_validate_pmm (dc_observed ctx) (pmm_snapshot pmm root_chunk)
                                  (dc_request ctx)
                   in if result \<noteq> NV_GPU_TRANSITION_APPLY then (result, None, UVM_PMM_ROOT_LIST_NONE)
                      else if dc_pmm ctx \<noteq> pmm_addr pmm \<or> dc_root_chunk ctx \<noteq> root_chunk
                        then (NV_GPU_TRANSITION_REJECT_IDENTITY, None, UVM_PMM_ROOT_LIST_NONE)
                      else if root_list_state pmm root_chunk \<noteq> UVM_PMM_ROOT_LIST_VA_BLOCK_USED \<and>
                              root_list_state pmm root_chunk \<noteq> UVM_PMM_ROOT_LIST_VA_BLOCK_UNUSED
                        then (NV_GPU_TRANSITION_NOOP_STALE, None, UVM_PMM_ROOT_LIST_NONE)
                      else if pmm_destination (dc_request ctx) = NV_GPU_PMM_DESTINATION_USED
                        then (NV_GPU_TRANSITION_APPLY, Some Va_Block_Used, UVM_PMM_ROOT_LIST_VA_BLOCK_USED)
                      else (NV_GPU_TRANSITION_APPLY, Some Va_Block_Unused, UVM_PMM_ROOT_LIST_VA_BLOCK_UNUSED))))"

definition pmm_bpf_commit_reorder_locked ::
  "uvm_pmm_gpu_t \<Rightarrow> chunk_ptr \<Rightarrow> uvm_bpf_pmm_decision_ctx_t \<Rightarrow> nv_gpu_transition_result \<times> uvm_pmm_gpu_t" where
  "pmm_bpf_commit_reorder_locked pmm chunk ctx =
     (case pmm_bpf_validate_reorder_locked pmm chunk (Some ctx) of (result, destination, destination_state) \<Rightarrow>
        if result \<noteq> NV_GPU_TRANSITION_APPLY then (result, pmm)
        else (NV_GPU_TRANSITION_APPLY,
              uvm_pmm_root_list_update_locked pmm chunk destination destination_state
                (if pmm_position (dc_request ctx) = NV_GPU_PMM_POSITION_HEAD
                   then UVM_PMM_ROOT_LIST_OP_MOVE_HEAD else UVM_PMM_ROOT_LIST_OP_MOVE_TAIL)))"

definition uvm_pmm_bpf_apply_access_locked ::
  "uvm_pmm_gpu_t \<Rightarrow> chunk_ptr \<Rightarrow> uvm_bpf_pmm_decision_ctx_t \<Rightarrow> NvS64 \<Rightarrow>
     nv_gpu_pmm_access_effect \<times> uvm_pmm_gpu_t" where
  "uvm_pmm_bpf_apply_access_locked pmm chunk ctx raw_action =
     (case pmm_bpf_validate_reorder_locked pmm chunk (Some ctx) of (result, _, _) \<Rightarrow>
        let effect = nv_gpu_transition_pmm_access_effect raw_action result
        in if effect = NV_GPU_PMM_ACCESS_COMMIT then
             (case pmm_bpf_commit_reorder_locked pmm chunk ctx of (result, pmm) \<Rightarrow>
                if result \<noteq> NV_GPU_TRANSITION_APPLY then (NV_GPU_PMM_ACCESS_PRESERVE, pmm) else (effect, pmm))
           else (effect, pmm))"

definition uvm_pmm_bpf_apply_activate_locked ::
  "uvm_pmm_gpu_t \<Rightarrow> chunk_ptr \<Rightarrow> uvm_bpf_pmm_decision_ctx_t \<Rightarrow> nv_gpu_transition_result \<times> uvm_pmm_gpu_t" where
  "uvm_pmm_bpf_apply_activate_locked pmm chunk ctx =
     (case pmm_bpf_validate_reorder_locked pmm chunk (Some ctx) of (result, _, _) \<Rightarrow>
        if nv_gpu_transition_pmm_activate_effect result = NV_GPU_PMM_ACCESS_COMMIT
          then pmm_bpf_commit_reorder_locked pmm chunk ctx
        else (result, pmm))"

text \<open>The callback may only fill in the request; the rest of the context belongs to the driver.\<close>

definition decision_ctx_init :: "uvm_pmm_gpu_t \<Rightarrow> chunk_ptr \<Rightarrow> uvm_bpf_pmm_decision_ctx_t" where
  "decision_ctx_init pmm chunk =
     \<lparr>dc_pmm = pmm_addr pmm, dc_root_chunk = chunk, dc_observed = pmm_snapshot pmm chunk,
      dc_request = pmm_request_init\<rparr>"

definition uvm_bpf_call_gpu_block_activate ::
  "uvm_pmm_gpu_t mem_ops_mem \<Rightarrow> mem_ops_slot \<Rightarrow> uvm_pmm_gpu_t \<Rightarrow> chunk_ptr \<Rightarrow> uvm_pmm_gpu_t" where
  "uvm_bpf_call_gpu_block_activate mem slot pmm chunk =
     (let ctx = decision_ctx_init pmm chunk;
          ctx = (case slot of
                   None \<Rightarrow> ctx
                 | Some ops \<Rightarrow>
                     (case gpu_block_activate (mem ops) of
                        None \<Rightarrow> ctx
                      | Some callback \<Rightarrow>
                          ctx\<lparr>dc_request := the (snd (run_reorder_policy (callback pmm chunk) (Some (dc_request ctx))))\<rparr>))
      in snd (uvm_pmm_bpf_apply_activate_locked pmm chunk ctx))"

definition uvm_bpf_call_gpu_block_access ::
  "uvm_pmm_gpu_t mem_ops_mem \<Rightarrow> mem_ops_slot \<Rightarrow> uvm_pmm_gpu_t \<Rightarrow> chunk_ptr \<Rightarrow>
     nv_gpu_pmm_access_effect \<times> uvm_pmm_gpu_t" where
  "uvm_bpf_call_gpu_block_access mem slot pmm chunk =
     (let ctx = decision_ctx_init pmm chunk;
          (raw_action, ctx) =
            (case slot of
               None \<Rightarrow> (scast UVM_BPF_ACTION_DEFAULT, ctx)
             | Some ops \<Rightarrow>
                 (case gpu_block_access (mem ops) of
                    None \<Rightarrow> (scast UVM_BPF_ACTION_DEFAULT, ctx)
                  | Some callback \<Rightarrow>
                      (case run_reorder_policy (callback pmm chunk) (Some (dc_request ctx)) of
                         (ret, request) \<Rightarrow> (scast ret, ctx\<lparr>dc_request := the request\<rparr>))))
      in uvm_pmm_bpf_apply_access_locked pmm chunk ctx raw_action)"

subsection \<open>Pinning and eviction flags\<close>

definition chunk_is_root_chunk_pinned :: "uvm_pmm_gpu_t \<Rightarrow> chunk_ptr \<Rightarrow> bool" where
  "chunk_is_root_chunk_pinned pmm chunk =
     (let root = chunk_of pmm (root_chunk_from_chunk pmm chunk)
      in if c_state root = UVM_PMM_GPU_CHUNK_STATE_TEMP_PINNED then True
         else if c_state root \<noteq> UVM_PMM_GPU_CHUNK_STATE_IS_SPLIT then False
         else sa_pinned_leaf_chunks (the (c_suballoc root)) > 0)"

definition chunk_pin :: "uvm_pmm_gpu_t \<Rightarrow> chunk_ptr \<Rightarrow> uvm_pmm_gpu_t" where
  "chunk_pin pmm chunk =
     (let root_chunk = root_chunk_from_chunk pmm chunk;
          pmm = upd_chunk chunk (\<lambda>c. c\<lparr>c_state := UVM_PMM_GPU_CHUNK_STATE_TEMP_PINNED\<rparr>) pmm
      in if chunk_is_root_chunk (chunk_of pmm chunk) then pmm
         else upd_suballoc root_chunk (\<lambda>sa. sa\<lparr>sa_pinned_leaf_chunks := sa_pinned_leaf_chunks sa + 1\<rparr>) pmm)"

definition chunk_unpin :: "uvm_pmm_gpu_t \<Rightarrow> chunk_ptr \<Rightarrow> uvm_pmm_gpu_chunk_state_t \<Rightarrow> uvm_pmm_gpu_t" where
  "chunk_unpin pmm chunk new_state =
     (let root_chunk = root_chunk_from_chunk pmm chunk;
          pmm = upd_chunk chunk (\<lambda>c. c\<lparr>c_state := new_state\<rparr>) pmm
      in if chunk_is_root_chunk (chunk_of pmm chunk) then pmm
         else upd_suballoc root_chunk (\<lambda>sa. sa\<lparr>sa_pinned_leaf_chunks := sa_pinned_leaf_chunks sa - 1\<rparr>) pmm)"

definition uvm_gpu_chunk_set_in_eviction :: "chunk_ptr \<Rightarrow> bool \<Rightarrow> uvm_pmm_gpu_t \<Rightarrow> uvm_pmm_gpu_t" where
  "uvm_gpu_chunk_set_in_eviction chunk in_eviction = upd_chunk chunk (\<lambda>c. c\<lparr>c_in_eviction := in_eviction\<rparr>)"

definition chunk_is_in_eviction :: "uvm_pmm_gpu_t \<Rightarrow> chunk_ptr \<Rightarrow> bool" where
  "chunk_is_in_eviction pmm chunk = c_in_eviction (chunk_of pmm (root_chunk_from_chunk pmm chunk))"

subsection \<open>Free lists\<close>

definition hweight_long :: "NvU32 \<Rightarrow> nat" where
  "hweight_long w = length (filter (bit w) [0..<32])"

definition find_free_list ::
  "uvm_pmm_gpu_t \<Rightarrow> uvm_pmm_gpu_memory_type_t \<Rightarrow> uvm_chunk_size_t \<Rightarrow> uvm_pmm_list_zero_t \<Rightarrow> pmm_list" where
  "find_free_list pmm ty chunk_size zero_type =
     Free_List ty (hweight_long (pmm_chunk_sizes pmm ty AND (chunk_size - 1))) zero_type"

definition find_free_list_chunk :: "uvm_pmm_gpu_t \<Rightarrow> chunk_ptr \<Rightarrow> pmm_list" where
  "find_free_list_chunk pmm chunk =
     find_free_list pmm (c_type (chunk_of pmm chunk)) (uvm_gpu_chunk_get_size (chunk_of pmm chunk))
       (if c_is_zero (chunk_of pmm chunk) then UVM_PMM_LIST_ZERO else UVM_PMM_LIST_NO_ZERO)"

definition list_first_chunk :: "chunk_ptr list \<Rightarrow> chunk_ptr option" where
  "list_first_chunk xs = (case xs of [] \<Rightarrow> None | x # _ \<Rightarrow> Some x)"

definition chunk_update_lists_locked ::
  "uvm_pmm_gpu_t mem_ops_mem \<Rightarrow> mem_ops_slot \<Rightarrow> uvm_pmm_gpu_t \<Rightarrow> chunk_ptr \<Rightarrow> uvm_pmm_gpu_t" where
  "chunk_update_lists_locked mem slot pmm chunk =
     (let root_chunk = root_chunk_from_chunk pmm chunk;
          pmm =
            (if uvm_gpu_chunk_is_user (chunk_of pmm chunk) then
               (if chunk_is_root_chunk_pinned pmm chunk then
                  uvm_pmm_root_list_update_locked pmm root_chunk None UVM_PMM_ROOT_LIST_NONE
                    UVM_PMM_ROOT_LIST_OP_DEL_INIT
                else if c_state (chunk_of pmm root_chunk) \<noteq> UVM_PMM_GPU_CHUNK_STATE_FREE then
                  uvm_bpf_call_gpu_block_activate mem slot
                    (uvm_pmm_root_list_update_locked pmm root_chunk (Some Va_Block_Used)
                       UVM_PMM_ROOT_LIST_VA_BLOCK_USED UVM_PMM_ROOT_LIST_OP_MOVE_TAIL)
                    root_chunk
                else pmm)
             else pmm)
      in if c_state (chunk_of pmm chunk) = UVM_PMM_GPU_CHUNK_STATE_FREE then
           uvm_pmm_root_list_update_locked pmm chunk (Some (find_free_list_chunk pmm chunk))
             UVM_PMM_ROOT_LIST_FREE UVM_PMM_ROOT_LIST_OP_MOVE_TAIL
         else if c_state (chunk_of pmm chunk) = UVM_PMM_GPU_CHUNK_STATE_TEMP_PINNED then
           uvm_pmm_root_list_update_locked pmm chunk None UVM_PMM_ROOT_LIST_NONE UVM_PMM_ROOT_LIST_OP_DEL_INIT
         else pmm)"

subsection \<open>Unpinning and eviction\<close>

abbreviation (input) NO_PAGE :: uvm_page_index_t where
  "NO_PAGE \<equiv> 512"

definition gpu_unpin_temp ::
  "uvm_pmm_gpu_t mem_ops_mem \<Rightarrow> mem_ops_slot \<Rightarrow> uvm_pmm_gpu_t \<Rightarrow> chunk_ptr \<Rightarrow> NvU64 \<Rightarrow> bool \<Rightarrow> uvm_pmm_gpu_t" where
  "gpu_unpin_temp mem slot pmm chunk va_block is_referenced =
     (let pmm = uvm_pmm_root_list_update_locked pmm chunk None UVM_PMM_ROOT_LIST_NONE UVM_PMM_ROOT_LIST_OP_INIT;
          pmm = chunk_unpin pmm chunk UVM_PMM_GPU_CHUNK_STATE_ALLOCATED;
          pmm = upd_chunk chunk (\<lambda>c. c\<lparr>c_is_referenced := is_referenced, c_va_block := Some va_block\<rparr>) pmm
      in chunk_update_lists_locked mem slot pmm chunk)"

definition uvm_pmm_gpu_unpin_allocated ::
  "uvm_pmm_gpu_t mem_ops_mem \<Rightarrow> mem_ops_slot \<Rightarrow> uvm_pmm_gpu_t \<Rightarrow> chunk_ptr \<Rightarrow> NvU64 \<Rightarrow> uvm_pmm_gpu_t" where
  "uvm_pmm_gpu_unpin_allocated mem slot pmm chunk va_block = gpu_unpin_temp mem slot pmm chunk va_block False"

definition uvm_pmm_gpu_unpin_referenced ::
  "uvm_pmm_gpu_t mem_ops_mem \<Rightarrow> mem_ops_slot \<Rightarrow> uvm_pmm_gpu_t \<Rightarrow> chunk_ptr \<Rightarrow> NvU64 \<Rightarrow> uvm_pmm_gpu_t" where
  "uvm_pmm_gpu_unpin_referenced mem slot pmm chunk va_block = gpu_unpin_temp mem slot pmm chunk va_block True"

text \<open>The critical section that hands out a chunk for the driver's own use; no list changes.\<close>

definition alloc_kernel_unpin :: "uvm_pmm_gpu_t \<Rightarrow> chunk_ptr \<Rightarrow> uvm_pmm_gpu_t" where
  "alloc_kernel_unpin pmm chunk =
     upd_chunk chunk (\<lambda>c. c\<lparr>c_is_referenced := False\<rparr>)
       (chunk_unpin pmm chunk UVM_PMM_GPU_CHUNK_STATE_ALLOCATED)"

definition uvm_pmm_gpu_mark_chunk_evicted :: "uvm_pmm_gpu_t \<Rightarrow> chunk_ptr \<Rightarrow> uvm_pmm_gpu_t" where
  "uvm_pmm_gpu_mark_chunk_evicted pmm chunk =
     chunk_pin (upd_chunk chunk (\<lambda>c. c\<lparr>c_va_block := None, c_va_block_page_index := NO_PAGE\<rparr>) pmm) chunk"

definition chunk_is_evictable :: "uvm_pmm_gpu_t \<Rightarrow> chunk_ptr \<Rightarrow> bool" where
  "chunk_is_evictable pmm chunk =
     (if c_state (chunk_of pmm (root_chunk_from_chunk pmm chunk)) = UVM_PMM_GPU_CHUNK_STATE_PMA_OWNED then False
      else if chunk_is_root_chunk_pinned pmm chunk then False
      else if chunk_is_in_eviction pmm chunk then False
      else True)"

definition chunk_start_eviction :: "uvm_pmm_gpu_t \<Rightarrow> chunk_ptr \<Rightarrow> uvm_pmm_gpu_t" where
  "chunk_start_eviction pmm chunk =
     (let chunk = root_chunk_from_chunk pmm chunk
      in uvm_gpu_chunk_set_in_eviction chunk True
           (uvm_pmm_root_list_update_locked pmm chunk None UVM_PMM_ROOT_LIST_EVICTION
              UVM_PMM_ROOT_LIST_OP_DEL_INIT))"

definition root_chunk_update_eviction_list ::
  "uvm_pmm_gpu_t mem_ops_mem \<Rightarrow> mem_ops_slot \<Rightarrow> uvm_pmm_gpu_t \<Rightarrow> chunk_ptr \<Rightarrow> pmm_list \<Rightarrow>
     uvm_pmm_root_list_state_t \<Rightarrow> bool \<Rightarrow> uvm_pmm_gpu_t" where
  "root_chunk_update_eviction_list mem slot pmm chunk list destination_state invoke_access_hook =
     (if \<not> chunk_is_root_chunk_pinned pmm chunk \<and> \<not> chunk_is_in_eviction pmm chunk then
        (case (if invoke_access_hook then uvm_bpf_call_gpu_block_access mem slot pmm chunk
               else (NV_GPU_PMM_ACCESS_NATIVE, pmm)) of
           (effect, pmm) \<Rightarrow>
             if effect = NV_GPU_PMM_ACCESS_NATIVE then
               uvm_pmm_root_list_update_locked pmm chunk (Some list) destination_state
                 UVM_PMM_ROOT_LIST_OP_MOVE_TAIL
             else pmm)
      else pmm)"

definition uvm_pmm_gpu_mark_root_chunk_used ::
  "uvm_pmm_gpu_t mem_ops_mem \<Rightarrow> mem_ops_slot \<Rightarrow> uvm_pmm_gpu_t \<Rightarrow> chunk_ptr \<Rightarrow> uvm_pmm_gpu_t" where
  "uvm_pmm_gpu_mark_root_chunk_used mem slot pmm chunk =
     root_chunk_update_eviction_list mem slot pmm chunk Va_Block_Used UVM_PMM_ROOT_LIST_VA_BLOCK_USED True"

definition uvm_pmm_gpu_mark_root_chunk_unused ::
  "uvm_pmm_gpu_t mem_ops_mem \<Rightarrow> mem_ops_slot \<Rightarrow> uvm_pmm_gpu_t \<Rightarrow> chunk_ptr \<Rightarrow> uvm_pmm_gpu_t" where
  "uvm_pmm_gpu_mark_root_chunk_unused mem slot pmm chunk =
     root_chunk_update_eviction_list mem slot pmm chunk Va_Block_Unused UVM_PMM_ROOT_LIST_VA_BLOCK_UNUSED False"

text \<open>
  The chunk to evict, if any. Between the free lists and the eviction lists the code calls the eviction
  callback, which has no way to record a request: its result is dropped.
\<close>

definition pick_root_chunk_to_evict :: "uvm_pmm_gpu_t \<Rightarrow> chunk_ptr option \<times> uvm_pmm_gpu_t" where
  "pick_root_chunk_to_evict pmm =
     (let first = (\<lambda>l. list_first_chunk (pmm_lists pmm l));
          chunk = first (find_free_list pmm UVM_PMM_GPU_MEMORY_TYPE_USER UVM_CHUNK_SIZE_MAX UVM_PMM_LIST_NO_ZERO);
          chunk = (if chunk = None
                     then first (find_free_list pmm UVM_PMM_GPU_MEMORY_TYPE_USER UVM_CHUNK_SIZE_MAX UVM_PMM_LIST_ZERO)
                   else chunk);
          chunk = (if chunk = None then first Va_Block_Unused else chunk);
          chunk = (if chunk = None then first Va_Block_Used else chunk)
      in case chunk of
           None \<Rightarrow> (None, pmm)
         | Some chunk \<Rightarrow>
             (let pmm = chunk_start_eviction pmm chunk in (Some (root_chunk_from_chunk pmm chunk), pmm)))"

subsection \<open>Claiming a free chunk\<close>

definition find_free_step ::
  "(chunk_ptr \<Rightarrow> bool) \<Rightarrow> chunk_ptr \<Rightarrow> uvm_pmm_gpu_t \<Rightarrow> chunk_ptr option \<times> uvm_pmm_gpu_t" where
  "find_free_step has_elevated_page chunk pmm =
     (if chunk_is_in_eviction pmm chunk then
        (None, uvm_pmm_root_list_update_locked pmm chunk None UVM_PMM_ROOT_LIST_EVICTION
                 UVM_PMM_ROOT_LIST_OP_DEL_INIT)
      else if \<not> has_elevated_page (root_chunk_from_chunk pmm chunk) then (Some chunk, pmm)
      else (None, pmm))"

definition find_free_chunk_locked ::
  "(chunk_ptr \<Rightarrow> bool) \<Rightarrow> uvm_pmm_gpu_t \<Rightarrow> uvm_pmm_gpu_memory_type_t \<Rightarrow> uvm_chunk_size_t \<Rightarrow>
     uvm_pmm_list_zero_t \<Rightarrow> chunk_ptr option \<times> uvm_pmm_gpu_t" where
  "find_free_chunk_locked has_elevated_page pmm ty chunk_size zero_type =
     fold_exit (find_free_step has_elevated_page) (pmm_lists pmm (find_free_list pmm ty chunk_size zero_type)) pmm"

definition claim_free_chunk ::
  "uvm_pmm_gpu_t mem_ops_mem \<Rightarrow> mem_ops_slot \<Rightarrow> (chunk_ptr \<Rightarrow> bool) \<Rightarrow> uvm_pmm_gpu_t \<Rightarrow>
     uvm_pmm_gpu_memory_type_t \<Rightarrow> uvm_chunk_size_t \<Rightarrow> chunk_ptr option \<times> uvm_pmm_gpu_t" where
  "claim_free_chunk mem slot has_elevated_page pmm ty chunk_size =
     (case find_free_chunk_locked has_elevated_page pmm ty chunk_size UVM_PMM_LIST_ZERO of (chunk, pmm) \<Rightarrow>
      case (if chunk = None then find_free_chunk_locked has_elevated_page pmm ty chunk_size UVM_PMM_LIST_NO_ZERO
            else (chunk, pmm)) of (chunk, pmm) \<Rightarrow>
        (case chunk of
           None \<Rightarrow> (None, pmm)
         | Some chunk \<Rightarrow>
             (let pmm =
                (case c_parent (chunk_of pmm chunk) of
                   None \<Rightarrow> pmm
                 | Some parent \<Rightarrow> upd_suballoc parent (\<lambda>sa. sa\<lparr>sa_allocated := sa_allocated sa + 1\<rparr>) pmm);
                  pmm = chunk_pin pmm chunk
              in (Some chunk, chunk_update_lists_locked mem slot pmm chunk))))"

subsection \<open>Splitting and merging\<close>

definition fls32 :: "NvU32 \<Rightarrow> nat" where
  "fls32 w = last (filter (bit w) [0..<32])"

definition uvm_chunk_find_prev_size :: "uvm_chunk_sizes_mask_t \<Rightarrow> uvm_chunk_size_t \<Rightarrow> uvm_chunk_size_t" where
  "uvm_chunk_find_prev_size chunk_sizes chunk_size =
     (let chunk_sizes = chunk_sizes AND (chunk_size - 1)
      in if chunk_sizes = 0 then UVM_CHUNK_SIZE_INVALID else push_bit (fls32 chunk_sizes) 1)"

definition num_subchunks :: "uvm_pmm_gpu_t \<Rightarrow> chunk_ptr \<Rightarrow> NvU32" where
  "num_subchunks pmm parent =
     (let parent_size = uvm_gpu_chunk_get_size (chunk_of pmm parent);
          child_size = uvm_gpu_chunk_get_size (chunk_of pmm (hd (sa_subchunks (the (c_suballoc (chunk_of pmm parent))))))
      in ucast (uvm_div_pow2_64 (ucast parent_size) (ucast child_size)))"

definition subchunk_init :: "uvm_gpu_chunk_t \<Rightarrow> chunk_ptr \<Rightarrow> nat \<Rightarrow> uvm_chunk_size_t \<Rightarrow> uvm_gpu_chunk_t" where
  "subchunk_init c chunk i subchunk_size =
     (let sub = uvm_gpu_chunk_set_size
        \<lparr>c_address = c_address c + of_nat i * ucast subchunk_size, c_type = c_type c, c_in_eviction = False,
         c_inject_split_error = False, c_is_zero = c_is_zero c, c_is_referenced = False, c_state = c_state c,
         c_log2_size = 0, c_va_block_page_index = NO_PAGE, c_gpu_index = c_gpu_index c, c_va_block = None,
         c_parent = Some chunk, c_suballoc = None\<rparr> subchunk_size
      in if c_state c = UVM_PMM_GPU_CHUNK_STATE_ALLOCATED \<and> uvm_gpu_chunk_is_user c
           then sub\<lparr>c_va_block := c_va_block c,
                    c_va_block_page_index :=
                      c_va_block_page_index c + of_nat (i * unat subchunk_size div 4096),
                    c_is_referenced := c_is_referenced c\<rparr>
         else sub)"

text \<open>
  The loop that allocates the subchunks: the ones made so far, in order, and whether all were made. The
  memory allocator's answers are \<open>alloc\<close>.
\<close>

fun alloc_subchunks ::
  "(nat \<Rightarrow> chunk_ptr option) \<Rightarrow> uvm_gpu_chunk_t \<Rightarrow> chunk_ptr \<Rightarrow> nat \<Rightarrow> uvm_chunk_size_t \<Rightarrow> nat list \<Rightarrow>
     uvm_pmm_gpu_t \<Rightarrow> bool \<times> chunk_ptr list \<times> uvm_pmm_gpu_t" where
  "alloc_subchunks alloc c chunk num_sub subchunk_size [] pmm = (True, [], pmm)"
| "alloc_subchunks alloc c chunk num_sub subchunk_size (i # is) pmm =
     (if c_inject_split_error c \<and> i = num_sub - 1 then (False, [], pmm)
      else
        (case alloc i of
           None \<Rightarrow> (False, [], pmm)
         | Some sub \<Rightarrow>
             (case alloc_subchunks alloc c chunk num_sub subchunk_size is
                     (upd_chunk sub (\<lambda>_. subchunk_init c chunk i subchunk_size) pmm) of
                (ok, subs, pmm) \<Rightarrow> (ok, sub # subs, pmm))))"

text \<open>The status, the manager, and the chunks that were given back to the allocator.\<close>

definition split_gpu_chunk ::
  "bool \<Rightarrow> (nat \<Rightarrow> chunk_ptr option) \<Rightarrow> uvm_pmm_gpu_t \<Rightarrow> chunk_ptr \<Rightarrow> NV_STATUS \<times> uvm_pmm_gpu_t \<times> chunk_ptr list" where
  "split_gpu_chunk suballoc_ok alloc pmm chunk =
     (let c = chunk_of pmm chunk;
          chunk_size = uvm_gpu_chunk_get_size c;
          root_chunk = root_chunk_from_chunk pmm chunk;
          subchunk_size = uvm_chunk_find_prev_size (pmm_chunk_sizes pmm (c_type c)) chunk_size;
          num_sub = unat (chunk_size div subchunk_size)
      in if \<not> suballoc_ok then (NV_ERR_NO_MEMORY, pmm, [])
         else
           (case alloc_subchunks alloc c chunk num_sub subchunk_size [0..<num_sub] pmm of (ok, subs, pmm) \<Rightarrow>
              if \<not> ok then (NV_ERR_NO_MEMORY, pmm, subs)
              else
                (let pmm = upd_chunk chunk (\<lambda>c. c\<lparr>c_suballoc :=
                       Some \<lparr>sa_allocated = of_nat num_sub, sa_pinned_leaf_chunks = 0, sa_subchunks = subs\<rparr>\<rparr>) pmm;
                     pmm =
                       (if c_state c = UVM_PMM_GPU_CHUNK_STATE_ALLOCATED then
                          upd_chunk chunk (\<lambda>c. c\<lparr>c_va_block := None, c_va_block_page_index := NO_PAGE,
                            c_is_referenced := False\<rparr>) pmm
                        else if c_state c = UVM_PMM_GPU_CHUNK_STATE_TEMP_PINNED then
                          (let pmm = upd_suballoc root_chunk
                             (\<lambda>sa. sa\<lparr>sa_pinned_leaf_chunks := sa_pinned_leaf_chunks sa + (of_nat num_sub - 1)\<rparr>) pmm
                           in if chunk_is_root_chunk (chunk_of pmm chunk)
                                then upd_suballoc root_chunk
                                  (\<lambda>sa. sa\<lparr>sa_pinned_leaf_chunks := sa_pinned_leaf_chunks sa + 1\<rparr>) pmm
                              else pmm)
                        else pmm)
                 in (NV_OK, upd_chunk chunk (\<lambda>c. c\<lparr>c_state := UVM_PMM_GPU_CHUNK_STATE_IS_SPLIT\<rparr>) pmm, []))))"

text \<open>The manager, and the subchunks that are given back to the allocator.\<close>

definition merge_gpu_chunk :: "uvm_pmm_gpu_t \<Rightarrow> chunk_ptr \<Rightarrow> uvm_pmm_gpu_t \<times> chunk_ptr list" where
  "merge_gpu_chunk pmm chunk =
     (let root_chunk = root_chunk_from_chunk pmm chunk;
          num_sub = num_subchunks pmm chunk;
          suballoc = the (c_suballoc (chunk_of pmm chunk));
          sub = chunk_of pmm (hd (sa_subchunks suballoc));
          child_state = c_state sub;
          pmm =
            (if child_state = UVM_PMM_GPU_CHUNK_STATE_ALLOCATED \<and> uvm_gpu_chunk_is_user sub then
               upd_chunk chunk (\<lambda>c. c\<lparr>c_va_block := c_va_block sub, c_va_block_page_index := c_va_block_page_index sub,
                 c_is_referenced := c_is_referenced sub\<rparr>) pmm
             else if child_state = UVM_PMM_GPU_CHUNK_STATE_TEMP_PINNED then
               upd_suballoc root_chunk
                 (\<lambda>sa. sa\<lparr>sa_pinned_leaf_chunks := sa_pinned_leaf_chunks sa + (1 - num_sub)\<rparr>) pmm
             else pmm);
          pmm = upd_chunk chunk (\<lambda>c. c\<lparr>c_state := child_state, c_suballoc := None, c_is_zero := False\<rparr>) pmm
      in (pmm, take (unat num_sub) (sa_subchunks suballoc)))"

subsection \<open>Freeing\<close>

datatype free_root_chunk_mode_t =
    FREE_ROOT_CHUNK_MODE_DEFAULT
  | FREE_ROOT_CHUNK_MODE_PMA_EVICTION
  | FREE_ROOT_CHUNK_MODE_SKIP_PMA_FREE

text \<open>A call that frees pages of the physical allocator: the address and the flags.\<close>

record pma_free =
  pf_address :: NvU64
  pf_from_eviction :: bool
  pf_is_zero :: bool

definition chunk_is_last_allocated_child :: "uvm_pmm_gpu_t \<Rightarrow> chunk_ptr \<Rightarrow> bool" where
  "chunk_is_last_allocated_child pmm chunk =
     (case c_parent (chunk_of pmm chunk) of
        None \<Rightarrow> False
      | Some parent \<Rightarrow> sa_allocated (the (c_suballoc (chunk_of pmm parent))) = 1)"

definition chunk_free_locked ::
  "uvm_pmm_gpu_t mem_ops_mem \<Rightarrow> mem_ops_slot \<Rightarrow> uvm_pmm_gpu_t \<Rightarrow> chunk_ptr \<Rightarrow> uvm_pmm_gpu_t" where
  "chunk_free_locked mem slot pmm chunk =
     (let root_chunk = root_chunk_from_chunk pmm chunk
      in if c_in_eviction (chunk_of pmm root_chunk) then
           chunk_pin (upd_chunk chunk
             (\<lambda>c. c\<lparr>c_va_block := None, c_va_block_page_index := NO_PAGE, c_is_zero := False\<rparr>) pmm) chunk
         else
           (let pmm =
              (case c_parent (chunk_of pmm chunk) of
                 None \<Rightarrow> pmm
               | Some parent \<Rightarrow> upd_suballoc parent (\<lambda>sa. sa\<lparr>sa_allocated := sa_allocated sa - 1\<rparr>) pmm);
                pmm =
                  (if c_state (chunk_of pmm chunk) = UVM_PMM_GPU_CHUNK_STATE_TEMP_PINNED
                     then chunk_unpin pmm chunk UVM_PMM_GPU_CHUNK_STATE_FREE
                   else upd_chunk chunk
                     (\<lambda>c. c\<lparr>c_state := UVM_PMM_GPU_CHUNK_STATE_FREE, c_va_block := None\<rparr>) pmm);
                pmm = upd_chunk chunk (\<lambda>c. c\<lparr>c_va_block_page_index := NO_PAGE, c_is_zero := False\<rparr>) pmm
            in chunk_update_lists_locked mem slot pmm chunk))"

definition try_chunk_free ::
  "uvm_pmm_gpu_t mem_ops_mem \<Rightarrow> mem_ops_slot \<Rightarrow> uvm_pmm_gpu_t \<Rightarrow> chunk_ptr \<Rightarrow> bool \<times> uvm_pmm_gpu_t" where
  "try_chunk_free mem slot pmm chunk =
     (let pmm = upd_chunk chunk (\<lambda>c. c\<lparr>c_inject_split_error := False\<rparr>) pmm
      in if \<not> chunk_is_last_allocated_child pmm chunk then (True, chunk_free_locked mem slot pmm chunk)
         else (False, pmm))"

text \<open>The parent to merge, if the chunk was the last allocated child.\<close>

definition pin_for_merge :: "chunk_ptr \<Rightarrow> uvm_pmm_gpu_t \<Rightarrow> uvm_pmm_gpu_t" where
  "pin_for_merge subchunk pmm =
     upd_chunk subchunk (\<lambda>c. c\<lparr>c_state := UVM_PMM_GPU_CHUNK_STATE_TEMP_PINNED\<rparr>)
       (uvm_pmm_root_list_update_locked pmm subchunk None UVM_PMM_ROOT_LIST_NONE UVM_PMM_ROOT_LIST_OP_DEL_INIT)"

definition free_or_prepare_for_merge ::
  "uvm_pmm_gpu_t mem_ops_mem \<Rightarrow> mem_ops_slot \<Rightarrow> uvm_pmm_gpu_t \<Rightarrow> chunk_ptr \<Rightarrow> chunk_ptr option \<times> uvm_pmm_gpu_t" where
  "free_or_prepare_for_merge mem slot pmm chunk =
     (case c_parent (chunk_of pmm chunk) of
        None \<Rightarrow> (None, snd (try_chunk_free mem slot pmm chunk))
      | Some parent \<Rightarrow>
          (let merge = chunk_is_last_allocated_child pmm chunk;
               pmm = chunk_free_locked mem slot pmm chunk
           in if \<not> merge then (None, pmm)
              else
                (let n = num_subchunks pmm parent;
                     pmm = fold pin_for_merge (take (unat n) (sa_subchunks (the (c_suballoc (chunk_of pmm parent))))) pmm;
                     pmm = upd_suballoc (root_chunk_from_chunk pmm chunk)
                             (\<lambda>sa. sa\<lparr>sa_pinned_leaf_chunks := sa_pinned_leaf_chunks sa + n\<rparr>) pmm;
                     pmm = upd_suballoc parent (\<lambda>sa. sa\<lparr>sa_allocated := n\<rparr>) pmm
                 in (Some parent, pmm))))"

text \<open>\<open>None\<close> if the loop does not end; the subchunks of the merges are given back to the allocator.\<close>

partial_function (option) free_chunk_with_merges ::
  "uvm_pmm_gpu_t mem_ops_mem \<Rightarrow> mem_ops_slot \<Rightarrow> uvm_pmm_gpu_t \<Rightarrow> chunk_ptr \<Rightarrow> (uvm_pmm_gpu_t \<times> chunk_ptr list) option" where
  "free_chunk_with_merges mem slot pmm chunk =
     (let r = free_or_prepare_for_merge mem slot pmm chunk
      in case fst r of
           None \<Rightarrow> Some (snd r, [])
         | Some parent \<Rightarrow>
             (let m = merge_gpu_chunk (snd r) parent
              in Option.bind (free_chunk_with_merges mem slot (fst m) parent)
                   (\<lambda>(pmm, freed). Some (pmm, snd m @ freed))))"

definition free_root_chunk ::
  "uvm_pmm_gpu_t \<Rightarrow> chunk_ptr \<Rightarrow> free_root_chunk_mode_t \<Rightarrow> uvm_pmm_gpu_t \<times> pma_free list" where
  "free_root_chunk pmm root_chunk free_mode =
     (let pmm = chunk_unpin pmm root_chunk UVM_PMM_GPU_CHUNK_STATE_PMA_OWNED
      in if free_mode = FREE_ROOT_CHUNK_MODE_SKIP_PMA_FREE then (pmm, [])
         else (pmm, [\<lparr>pf_address = c_address (chunk_of pmm root_chunk),
                      pf_from_eviction = (free_mode = FREE_ROOT_CHUNK_MODE_PMA_EVICTION),
                      pf_is_zero = c_is_zero (chunk_of pmm root_chunk)\<rparr>]))"

definition free_next_available_root_chunk ::
  "uvm_pmm_gpu_t \<Rightarrow> uvm_pmm_gpu_memory_type_t \<Rightarrow> bool \<times> uvm_pmm_gpu_t \<times> pma_free list" where
  "free_next_available_root_chunk pmm ty =
     (let first = (\<lambda>l. list_first_chunk (pmm_lists pmm l));
          result = first (find_free_list pmm ty UVM_CHUNK_SIZE_MAX UVM_PMM_LIST_NO_ZERO);
          result = (if result = None then first (find_free_list pmm ty UVM_CHUNK_SIZE_MAX UVM_PMM_LIST_ZERO)
                    else result)
      in case result of
           None \<Rightarrow> (False, pmm, [])
         | Some result \<Rightarrow>
             (let pmm = uvm_pmm_root_list_update_locked pmm result None UVM_PMM_ROOT_LIST_NONE
                          UVM_PMM_ROOT_LIST_OP_DEL_INIT;
                  pmm = chunk_pin pmm result
              in case free_root_chunk pmm (root_chunk_from_chunk pmm result) FREE_ROOT_CHUNK_MODE_DEFAULT of
                   (pmm, frees) \<Rightarrow> (True, pmm, frees)))"

text \<open>The manager, the chunks given back to the allocator, and the pages given back to the physical allocator.\<close>

definition free_chunk ::
  "uvm_pmm_gpu_t mem_ops_mem \<Rightarrow> mem_ops_slot \<Rightarrow> uvm_pmm_gpu_t \<Rightarrow> chunk_ptr \<Rightarrow>
     (uvm_pmm_gpu_t \<times> chunk_ptr list \<times> pma_free list) option" where
  "free_chunk mem slot pmm chunk =
     (let is_root = chunk_is_root_chunk (chunk_of pmm chunk);
          ty = c_type (chunk_of pmm chunk)
      in case (case try_chunk_free mem slot pmm chunk of
                 (True, pmm) \<Rightarrow> Some (is_root, pmm, [])
               | (False, pmm) \<Rightarrow>
                   map_option (\<lambda>(pmm, freed). (True, pmm, freed)) (free_chunk_with_merges mem slot pmm chunk)) of
           None \<Rightarrow> None
         | Some (try_free, pmm, freed) \<Rightarrow>
             if try_free then
               (case free_next_available_root_chunk pmm ty of (_, pmm, frees) \<Rightarrow> Some (pmm, freed, frees))
             else Some (pmm, freed, []))"

definition uvm_pmm_gpu_free ::
  "uvm_pmm_gpu_t mem_ops_mem \<Rightarrow> mem_ops_slot \<Rightarrow> uvm_pmm_gpu_t \<Rightarrow> chunk_ptr option \<Rightarrow>
     (uvm_pmm_gpu_t \<times> chunk_ptr list \<times> pma_free list) option" where
  "uvm_pmm_gpu_free mem slot pmm chunk =
     (case chunk of None \<Rightarrow> Some (pmm, [], []) | Some chunk \<Rightarrow> free_chunk mem slot pmm chunk)"

definition init_root_chunk ::
  "uvm_pmm_gpu_t mem_ops_mem \<Rightarrow> mem_ops_slot \<Rightarrow> uvm_pmm_gpu_t \<Rightarrow> uvm_pmm_gpu_memory_type_t \<Rightarrow> chunk_ptr \<Rightarrow>
     uvm_pmm_gpu_chunk_state_t \<Rightarrow> bool \<Rightarrow> uvm_pmm_gpu_t" where
  "init_root_chunk mem slot pmm ty root_chunk initial_state is_zero =
     chunk_update_lists_locked mem slot
       (upd_chunk root_chunk (\<lambda>c. c\<lparr>c_type := ty, c_state := initial_state, c_is_zero := is_zero\<rparr>) pmm) root_chunk"

text \<open>The loop over one memory type, and the two types in their order.\<close>

partial_function (option) release_free_type ::
  "uvm_pmm_gpu_memory_type_t \<Rightarrow> uvm_pmm_gpu_t \<Rightarrow> (uvm_pmm_gpu_t \<times> pma_free list) option" where
  "release_free_type ty pmm =
     (let r = free_next_available_root_chunk pmm ty
      in if fst r
           then Option.bind (release_free_type ty (fst (snd r)))
             (\<lambda>(pmm, frees). Some (pmm, snd (snd r) @ frees))
         else Some (fst (snd r), []))"

definition release_free_root_chunks :: "uvm_pmm_gpu_t \<Rightarrow> (uvm_pmm_gpu_t \<times> pma_free list) option" where
  "release_free_root_chunks pmm =
     Option.bind (release_free_type UVM_PMM_GPU_MEMORY_TYPE_USER pmm) (\<lambda>(pmm, frees1).
       Option.bind (release_free_type UVM_PMM_GPU_MEMORY_TYPE_KERNEL pmm) (\<lambda>(pmm, frees2).
         Some (pmm, frees1 @ frees2)))"

subsection \<open>Steps of an eviction\<close>

definition pin_free_chunks_func :: "uvm_pmm_gpu_t \<Rightarrow> chunk_ptr \<Rightarrow> uvm_pmm_gpu_t" where
  "pin_free_chunks_func pmm chunk =
     (if c_state (chunk_of pmm chunk) = UVM_PMM_GPU_CHUNK_STATE_FREE then
        (let pmm = uvm_pmm_root_list_update_locked pmm chunk None UVM_PMM_ROOT_LIST_EVICTION
                     UVM_PMM_ROOT_LIST_OP_DEL_INIT;
             pmm = chunk_pin pmm chunk
         in case c_parent (chunk_of pmm chunk) of
              None \<Rightarrow> pmm
            | Some parent \<Rightarrow> upd_suballoc parent (\<lambda>sa. sa\<lparr>sa_allocated := sa_allocated sa + 1\<rparr>) pmm)
      else pmm)"

text \<open>The two critical sections that end an eviction: the root chunk was evicted, or an error came up.\<close>

definition evict_root_chunk_done :: "uvm_pmm_gpu_t \<Rightarrow> chunk_ptr \<Rightarrow> uvm_pmm_gpu_t" where
  "evict_root_chunk_done pmm chunk =
     upd_chunk chunk (\<lambda>c. c\<lparr>c_is_zero := False\<rparr>) (uvm_gpu_chunk_set_in_eviction chunk False pmm)"

definition evict_root_chunk_error ::
  "uvm_pmm_gpu_t mem_ops_mem \<Rightarrow> mem_ops_slot \<Rightarrow> uvm_pmm_gpu_t \<Rightarrow> chunk_ptr \<Rightarrow> uvm_pmm_gpu_t" where
  "evict_root_chunk_error mem slot pmm chunk =
     chunk_update_lists_locked mem slot (uvm_gpu_chunk_set_in_eviction chunk False pmm) chunk"

text \<open>An evicted chunk that is to be used by the driver itself changes its type, once its pages are pinned.\<close>

definition evicted_set_type :: "uvm_pmm_gpu_t \<Rightarrow> chunk_ptr \<Rightarrow> uvm_pmm_gpu_memory_type_t \<Rightarrow> uvm_pmm_gpu_t" where
  "evicted_set_type pmm chunk ty = upd_chunk chunk (\<lambda>c. c\<lparr>c_type := ty\<rparr>) pmm"

text \<open>The critical section of the eviction of an address range: whether the eviction was started.\<close>

definition pma_evict_range_start :: "uvm_pmm_gpu_t \<Rightarrow> chunk_ptr \<Rightarrow> bool \<times> uvm_pmm_gpu_t" where
  "pma_evict_range_start pmm chunk =
     (if c_state (chunk_of pmm chunk) \<noteq> UVM_PMM_GPU_CHUNK_STATE_PMA_OWNED \<and> chunk_is_evictable pmm chunk
        then (True, chunk_start_eviction pmm chunk)
      else (False, pmm))"

subsection \<open>Lazy frees\<close>

definition devmem_page_free :: "uvm_pmm_gpu_t \<Rightarrow> chunk_ptr \<Rightarrow> uvm_pmm_gpu_t" where
  "devmem_page_free pmm chunk =
     uvm_pmm_root_list_update_locked (upd_chunk chunk (\<lambda>c. c\<lparr>c_is_referenced := False\<rparr>) pmm) chunk
       (Some Va_Block_Lazy_Free) UVM_PMM_ROOT_LIST_LAZY_FREE UVM_PMM_ROOT_LIST_OP_ADD_TAIL"

definition lazy_free_first :: "uvm_pmm_gpu_t \<Rightarrow> (chunk_ptr \<times> uvm_pmm_gpu_t) option" where
  "lazy_free_first pmm =
     (case pmm_lists pmm Va_Block_Lazy_Free of
        [] \<Rightarrow> None
      | chunk # _ \<Rightarrow>
          Some (chunk, uvm_pmm_root_list_update_locked pmm chunk None UVM_PMM_ROOT_LIST_NONE
                         UVM_PMM_ROOT_LIST_OP_DEL_INIT))"

partial_function (option) process_lazy_free ::
  "uvm_pmm_gpu_t mem_ops_mem \<Rightarrow> mem_ops_slot \<Rightarrow> uvm_pmm_gpu_t \<Rightarrow> uvm_pmm_gpu_t option" where
  "process_lazy_free mem slot pmm =
     (case lazy_free_first pmm of
        None \<Rightarrow> Some pmm
      | Some r \<Rightarrow>
          Option.bind (free_chunk mem slot (snd r) (fst r))
            (\<lambda>q. process_lazy_free mem slot (fst q)))"

subsection \<open>Initialisation\<close>

definition init_root_entry :: "NvU32 \<Rightarrow> (nat \<Rightarrow> chunk_ptr) \<Rightarrow> nat \<Rightarrow> uvm_pmm_gpu_t \<Rightarrow> uvm_pmm_gpu_t" where
  "init_root_entry gpu_index array i pmm =
     (let chunk = array i;
          pmm = upd_chunk chunk (\<lambda>c. uvm_gpu_chunk_set_size
                  (c\<lparr>c_gpu_index := gpu_index, c_state := UVM_PMM_GPU_CHUNK_STATE_PMA_OWNED\<rparr>) UVM_CHUNK_SIZE_MAX) pmm;
          pmm = upd_chunk chunk (\<lambda>c. c\<lparr>c_address := of_nat i * ucast UVM_CHUNK_SIZE_MAX,
                  c_va_block_page_index := NO_PAGE\<rparr>) pmm
      in uvm_pmm_root_list_update_locked pmm chunk None UVM_PMM_ROOT_LIST_NONE UVM_PMM_ROOT_LIST_OP_INIT)"

text \<open>
  The sizes of each type are the root size and what the page tables and the kernel mappings of the GPU
  support. The root array is zeroed when it is allocated. The results of the calls that set up the caches,
  the bit locks and the physical allocator are arguments; deinitialisation cleans up after a failure.
\<close>

definition zero_chunk :: uvm_gpu_chunk_t where
  "zero_chunk =
     \<lparr>c_address = 0, c_type = UVM_PMM_GPU_MEMORY_TYPE_USER, c_in_eviction = False, c_inject_split_error = False,
      c_is_zero = False, c_is_referenced = False, c_state = UVM_PMM_GPU_CHUNK_STATE_PMA_OWNED, c_log2_size = 0,
      c_va_block_page_index = 0, c_gpu_index = 0, c_va_block = None, c_parent = None, c_suballoc = None\<rparr>"

definition uvm_pmm_gpu_init ::
  "NvU32 \<Rightarrow> (uvm_pmm_gpu_memory_type_t \<Rightarrow> uvm_chunk_sizes_mask_t) \<Rightarrow> uvm_chunk_sizes_mask_t \<Rightarrow> NvU64 \<Rightarrow>
     NV_STATUS \<Rightarrow> (nat \<Rightarrow> chunk_ptr) option \<Rightarrow> NV_STATUS \<Rightarrow> NV_STATUS \<Rightarrow> uvm_pmm_gpu_t \<Rightarrow> NV_STATUS \<times> uvm_pmm_gpu_t" where
  "uvm_pmm_gpu_init gpu_index mmu_chunk_sizes mem_kernel_chunk_sizes max_allocatable_address
       caches array bit_locks pma pmm =
     (let pmm = pmm\<lparr>pmm_lists := (\<lambda>_. []),
                pmm_chunk_sizes := (\<lambda>ty. UVM_CHUNK_SIZE_MAX OR mmu_chunk_sizes ty OR
                  (if ty = UVM_PMM_GPU_MEMORY_TYPE_KERNEL then mem_kernel_chunk_sizes else 0))\<rparr>;
          count = unat (UVM_ALIGN_UP max_allocatable_address (ucast UVM_CHUNK_SIZE_MAX) div ucast UVM_CHUNK_SIZE_MAX)
      in if caches \<noteq> NV_OK then (caches, pmm)
         else
           (case array of
              None \<Rightarrow> (NV_ERR_NO_MEMORY, pmm)
            | Some array \<Rightarrow>
                (let pmm = pmm\<lparr>root_array := array,
                       pmm_chunks := (\<lambda>p. if p \<in> array ` {0..<count} then zero_chunk else pmm_chunks pmm p),
                       root_list_state := (\<lambda>_. UVM_PMM_ROOT_LIST_NONE), root_list_generation := (\<lambda>_. 0)\<rparr>;
                     pmm = fold (init_root_entry gpu_index array) [0..<count] pmm
                 in if bit_locks \<noteq> NV_OK then (bit_locks, pmm) else (pma, pmm))))"

end
