(* ===== verification/Pmm_Lists.thy ===== *)
theory Pmm_Lists
  imports Pmm
begin

section \<open>The lists of the physical memory manager\<close>

text \<open>
  What holds for the lists of \<^verbatim>\<open>uvm_pmm_gpu.c\<close> and the states that the driver records
  for the root chunks, and that every critical section under the list lock keeps it, whatever a policy asks
  for. The invariant \<open>pmm_ok\<close> is proved from three lemmas on list updates (off a list, onto a
  list, the links initialised), one on an update of a chunk in place, and one on
  \<^verbatim>\<open>chunk_update_lists_locked\<close>; each operation is then a few steps.
\<close>

subsection \<open>Specifications\<close>

text \<open>A root chunk is pinned itself, or a leaf below it is; the evictable states are the others.\<close>

definition root_pinned :: "uvm_gpu_chunk_t \<Rightarrow> bool" where
  "root_pinned c \<longleftrightarrow> c_state c = UVM_PMM_GPU_CHUNK_STATE_TEMP_PINNED \<or>
     c_state c = UVM_PMM_GPU_CHUNK_STATE_IS_SPLIT \<and> 0 < sa_pinned_leaf_chunks (the (c_suballoc c))"

definition evictable :: "uvm_gpu_chunk_t \<Rightarrow> bool" where
  "evictable c \<longleftrightarrow>
     c_state c \<in> {UVM_PMM_GPU_CHUNK_STATE_ALLOCATED, UVM_PMM_GPU_CHUNK_STATE_IS_SPLIT} \<and>
     \<not> root_pinned c"

text \<open>A pointer to a root chunk of the array; a chunk that belongs to the manager, below a root chunk or
    a root itself.\<close>

definition root_ptr :: "uvm_pmm_gpu_t \<Rightarrow> chunk_ptr \<Rightarrow> bool" where
  "root_ptr pmm r \<longleftrightarrow> chunk_is_root_chunk (chunk_of pmm r) \<and> root_chunk_from_chunk pmm r = r"

definition valid_chunk :: "uvm_pmm_gpu_t \<Rightarrow> chunk_ptr \<Rightarrow> bool" where
  "valid_chunk pmm c \<longleftrightarrow>
     (let r = root_chunk_from_chunk pmm c
      in root_ptr pmm r \<and> (chunk_is_root_chunk (chunk_of pmm c) \<longrightarrow> c = r) \<and>
         c_type (chunk_of pmm c) = c_type (chunk_of pmm r) \<and>
         c_log2_size (chunk_of pmm c) \<le> 21 \<and>
         (let chunk_sizes = pmm_chunk_sizes pmm (c_type (chunk_of pmm c))
          in bit chunk_sizes (c_log2_size (chunk_of pmm c)) \<and> bit chunk_sizes 21) \<and>
         c_state (chunk_of pmm r) \<noteq> UVM_PMM_GPU_CHUNK_STATE_PMA_OWNED \<and>
         (c \<noteq> r \<longrightarrow> c_state (chunk_of pmm r) = UVM_PMM_GPU_CHUNK_STATE_IS_SPLIT))"

text \<open>The state that the driver records for a root chunk on each list.\<close>

fun list_code :: "pmm_list \<Rightarrow> uvm_pmm_root_list_state_t" where
  "list_code Va_Block_Used = UVM_PMM_ROOT_LIST_VA_BLOCK_USED"
| "list_code Va_Block_Unused = UVM_PMM_ROOT_LIST_VA_BLOCK_UNUSED"
| "list_code Va_Block_Lazy_Free = UVM_PMM_ROOT_LIST_LAZY_FREE"
| "list_code (Free_List ty i z) = UVM_PMM_ROOT_LIST_FREE"

text \<open>What holds for a chunk on a list. The chunks of \<open>E\<close> are roots whose pin state is being
    changed, the chunks of
  \<open>F\<close> are about to leave their free list.\<close>

fun listed_ok ::
  "chunk_ptr set \<Rightarrow> chunk_ptr set \<Rightarrow> uvm_pmm_gpu_t \<Rightarrow> pmm_list \<Rightarrow>
      chunk_ptr \<Rightarrow> bool" where
  "listed_ok E F pmm (Free_List ty i z) c \<longleftrightarrow> valid_chunk pmm c \<and>
     (chunk_is_root_chunk (chunk_of pmm c) \<and> uvm_gpu_chunk_is_user (chunk_of pmm c) \<longrightarrow>
        \<not> c_in_eviction (chunk_of pmm c)) \<and>
     (c \<in> F \<or> c_state (chunk_of pmm c) = UVM_PMM_GPU_CHUNK_STATE_FREE \<and>
        find_free_list_chunk pmm c = Free_List ty i z)"
| "listed_ok E F pmm Va_Block_Lazy_Free c \<longleftrightarrow> valid_chunk pmm c"
| "listed_ok E F pmm _ c \<longleftrightarrow> valid_chunk pmm c \<and> chunk_is_root_chunk (chunk_of pmm c) \<and>
     uvm_gpu_chunk_is_user (chunk_of pmm c) \<and> \<not> c_in_eviction (chunk_of pmm c) \<and> (c \<in> E
         \<or> evictable (chunk_of pmm c))"

definition on_list :: "uvm_pmm_gpu_t \<Rightarrow> chunk_ptr \<Rightarrow> bool" where
  "on_list pmm c \<longleftrightarrow> (\<exists>l. c \<in> set (pmm_lists pmm l))"

text \<open>The lists are disjoint, every chunk on them is in order, and the recorded state of a root chunk is
    its list.\<close>

definition pmm_ok :: "chunk_ptr set \<Rightarrow> chunk_ptr set \<Rightarrow> uvm_pmm_gpu_t \<Rightarrow> bool" where
  "pmm_ok E F pmm \<longleftrightarrow>
     (\<forall>l. distinct (pmm_lists pmm l)) \<and>
     (\<forall>l l' c. c \<in> set (pmm_lists pmm l) \<and> c \<in> set (pmm_lists pmm l') \<longrightarrow> l
         = l') \<and>
     (\<forall>l. \<forall>c\<in>set (pmm_lists pmm l). listed_ok E F pmm l c) \<and>
     (\<forall>r. root_ptr pmm r \<longrightarrow>
        (\<forall>l. r \<in> set (pmm_lists pmm l) \<longrightarrow> root_list_state pmm r = list_code l) \<and>
        (root_list_state pmm r \<in> range list_code \<longrightarrow> on_list pmm r))"

text \<open>Nothing that finds the root of a chunk has changed.\<close>

definition same_geometry :: "uvm_pmm_gpu_t \<Rightarrow> uvm_pmm_gpu_t \<Rightarrow> bool" where
  "same_geometry p q \<longleftrightarrow> root_array q = root_array p \<and> pmm_chunk_sizes q =
      pmm_chunk_sizes p \<and>
     (\<forall>c. c_address (chunk_of q c) = c_address (chunk_of p c) \<and> c_log2_size (chunk_of q c) =
         c_log2_size (chunk_of p c))"

text \<open>What a policy asked for during one call of a hook, and the move that follows from it.\<close>

definition activate_requests ::
  "uvm_pmm_gpu_t mem_ops_mem \<Rightarrow> mem_ops_slot \<Rightarrow> uvm_pmm_gpu_t \<Rightarrow> chunk_ptr
      \<Rightarrow> (NvU64 \<times> NvU64) list" where
  "activate_requests mem slot pmm chunk =
     (case Option.bind slot (\<lambda>ops. gpu_block_activate (mem ops)) of
        None \<Rightarrow> []
      | Some callback \<Rightarrow> requested_orders (callback pmm chunk) (Some pmm_request_init))"

definition access_requests ::
  "uvm_pmm_gpu_t mem_ops_mem \<Rightarrow> mem_ops_slot \<Rightarrow> uvm_pmm_gpu_t \<Rightarrow> chunk_ptr
      \<Rightarrow> (NvU64 \<times> NvU64) list" where
  "access_requests mem slot pmm chunk =
     (case Option.bind slot (\<lambda>ops. gpu_block_access (mem ops)) of
        None \<Rightarrow> []
      | Some callback \<Rightarrow> requested_orders (callback pmm chunk) (Some pmm_request_init))"

definition access_action ::
  "uvm_pmm_gpu_t mem_ops_mem \<Rightarrow> mem_ops_slot \<Rightarrow> uvm_pmm_gpu_t \<Rightarrow> chunk_ptr
      \<Rightarrow> 32 word" where
  "access_action mem slot pmm chunk =
     (case Option.bind slot (\<lambda>ops. gpu_block_access (mem ops)) of
        None \<Rightarrow> 0
      | Some callback \<Rightarrow> fst (run_reorder_policy (callback pmm chunk) (Some pmm_request_init)))"

definition granted_move :: "(NvU64 \<times> NvU64) list \<Rightarrow> (pmm_list \<times>
    uvm_pmm_root_list_op_t) option" where
  "granted_move reqs =
     (case reqs of
        [] \<Rightarrow> None
      | (d, p) # rs \<Rightarrow>
          if (\<forall>x\<in>set rs. x = (d, p)) \<and> d \<in> {NV_GPU_PMM_DESTINATION_USED,
            NV_GPU_PMM_DESTINATION_UNUSED} \<and>
             p \<in> {NV_GPU_PMM_POSITION_HEAD, NV_GPU_PMM_POSITION_TAIL}
            then Some (if d = NV_GPU_PMM_DESTINATION_USED then Va_Block_Used else Va_Block_Unused,
                       if p = NV_GPU_PMM_POSITION_HEAD then UVM_PMM_ROOT_LIST_OP_MOVE_HEAD
                       else UVM_PMM_ROOT_LIST_OP_MOVE_TAIL)
          else None)"

definition movable :: "uvm_pmm_gpu_t \<Rightarrow> chunk_ptr \<Rightarrow> bool" where
  "movable pmm chunk \<longleftrightarrow> root_ptr pmm chunk \<and>
     root_list_state pmm chunk \<in> {UVM_PMM_ROOT_LIST_VA_BLOCK_USED, UVM_PMM_ROOT_LIST_VA_BLOCK_UNUSED}"

text \<open>The request record after the requests of a policy, and the decision context with it.\<close>

definition order_request :: "(NvU64 \<times> NvU64) list \<Rightarrow> nv_gpu_pmm_request_t" where
  "order_request reqs =
     fold (\<lambda>v r. snd ((\<lambda>r (destination, position). nv_gpu_transition_record_pmm r destination
         position) r v)) reqs
       pmm_request_init"

definition order_ctx :: "uvm_pmm_gpu_t \<Rightarrow> chunk_ptr \<Rightarrow> (NvU64 \<times> NvU64) list
    \<Rightarrow> uvm_bpf_pmm_decision_ctx_t" where
  "order_ctx pmm chunk reqs = (decision_ctx_init pmm chunk)\<lparr>dc_request := order_request reqs\<rparr>"

text \<open>The moves a policy can make.\<close>

definition policy_moves :: "uvm_pmm_gpu_t \<Rightarrow> chunk_ptr \<Rightarrow> uvm_pmm_gpu_t set" where
  "policy_moves pmm chunk =
     {uvm_pmm_root_list_update_locked pmm chunk (Some d) (list_code d) op | d op.
        d \<in> {Va_Block_Used, Va_Block_Unused} \<and>
        op \<in> {UVM_PMM_ROOT_LIST_OP_MOVE_HEAD, UVM_PMM_ROOT_LIST_OP_MOVE_TAIL} \<and>
        root_ptr pmm chunk \<and>
        root_list_state pmm chunk \<in> {UVM_PMM_ROOT_LIST_VA_BLOCK_USED, UVM_PMM_ROOT_LIST_VA_BLOCK_UNUSED}}"

text \<open>The first half of the list update: the list of the root chunk.\<close>

definition update_root_list ::
  "uvm_pmm_gpu_t mem_ops_mem \<Rightarrow> mem_ops_slot \<Rightarrow> uvm_pmm_gpu_t \<Rightarrow> chunk_ptr
      \<Rightarrow> uvm_pmm_gpu_t" where
  "update_root_list mem slot pmm chunk =
     (let root_chunk = root_chunk_from_chunk pmm chunk
      in if uvm_gpu_chunk_is_user (chunk_of pmm chunk) then
               (if chunk_is_root_chunk_pinned pmm chunk then
                  uvm_pmm_root_list_update_locked pmm root_chunk None UVM_PMM_ROOT_LIST_NONE
                    UVM_PMM_ROOT_LIST_OP_DEL_INIT
                else if c_state (chunk_of pmm root_chunk) \<noteq> UVM_PMM_GPU_CHUNK_STATE_FREE then
                  uvm_bpf_call_gpu_block_activate mem slot
                    (uvm_pmm_root_list_update_locked pmm root_chunk (Some Va_Block_Used)
                       UVM_PMM_ROOT_LIST_VA_BLOCK_USED UVM_PMM_ROOT_LIST_OP_MOVE_TAIL)
                    root_chunk
                else pmm)
             else pmm)"

text \<open>Pinning and unpinning set a state and count at the root.\<close>

definition set_state_counting :: "uvm_pmm_gpu_t \<Rightarrow> chunk_ptr \<Rightarrow> uvm_pmm_gpu_chunk_state_t
    \<Rightarrow> (NvU32 \<Rightarrow> NvU32) \<Rightarrow> uvm_pmm_gpu_t" where
  "set_state_counting pmm chunk st g =
     (let root_chunk = root_chunk_from_chunk pmm chunk;
          pmm = upd_chunk chunk (\<lambda>c. c\<lparr>c_state := st\<rparr>) pmm
      in if chunk_is_root_chunk (chunk_of pmm chunk) then pmm
         else upd_suballoc root_chunk (\<lambda>sa. sa\<lparr>sa_pinned_leaf_chunks := g (sa_pinned_leaf_chunks
            sa)\<rparr>) pmm)"

text \<open>Only the lists have changed.\<close>

definition same_store :: "uvm_pmm_gpu_t \<Rightarrow> uvm_pmm_gpu_t \<Rightarrow> bool" where
  "same_store p q \<longleftrightarrow> pmm_chunks q = pmm_chunks p \<and> root_array q = root_array p \<and>
      pmm_chunk_sizes q = pmm_chunk_sizes p"

text \<open>The part of a claim that changes the chunk.\<close>

definition claim_step ::
  "uvm_pmm_gpu_t mem_ops_mem \<Rightarrow> mem_ops_slot \<Rightarrow> uvm_pmm_gpu_t \<Rightarrow> chunk_ptr
      \<Rightarrow> uvm_pmm_gpu_t" where
  "claim_step mem slot pmm chunk =
     (let pmm =
        (case c_parent (chunk_of pmm chunk) of
           None \<Rightarrow> pmm
         | Some parent \<Rightarrow> upd_suballoc parent (\<lambda>sa. sa\<lparr>sa_allocated := sa_allocated
            sa + 1\<rparr>) pmm)
      in chunk_update_lists_locked mem slot (chunk_pin pmm chunk) chunk)"

text \<open>The states in which a chunk may be freed, split or marked.\<close>

abbreviation (input) freeable :: "uvm_pmm_gpu_t \<Rightarrow> chunk_ptr \<Rightarrow> bool" where
  "freeable pmm c \<equiv> c_state (chunk_of pmm c) \<in>
     {UVM_PMM_GPU_CHUNK_STATE_ALLOCATED, UVM_PMM_GPU_CHUNK_STATE_TEMP_PINNED}"

text \<open>What is done with the root chunk that goes back to the physical allocator.\<close>

definition release_root_chunk :: "uvm_pmm_gpu_t \<Rightarrow> chunk_ptr \<Rightarrow> uvm_pmm_gpu_t \<times>
    pma_free list" where
  "release_root_chunk pmm r =
     free_root_chunk (chunk_pin (uvm_pmm_root_list_update_locked pmm r None UVM_PMM_ROOT_LIST_NONE
       UVM_PMM_ROOT_LIST_OP_DEL_INIT) r) (root_chunk_from_chunk pmm r) FREE_ROOT_CHUNK_MODE_DEFAULT"

subsection \<open>Lemmas\<close>

lemma root_size: "chunk_is_root_chunk c \<longleftrightarrow> c_log2_size c = 21"
proof -
  have max: "UVM_CHUNK_SIZE_MAX = push_bit 21 1" by simp
  have b: "bit (push_bit k 1 :: NvU32) 21 \<longleftrightarrow> k = 21" for k
    by (auto simp: bit_exp_iff)
  have "k = 21" if "push_bit k 1 = (push_bit 21 1 :: NvU32)" for k
  proof -
    have "bit (push_bit k 1 :: NvU32) 21" unfolding that by (simp add: b del: push_bit_of_1)
    then show ?thesis by (simp only: b)
  qed
  then have "push_bit k 1 = (push_bit 21 1 :: NvU32) \<longleftrightarrow> k = 21" for k by blast
  then show ?thesis by (simp only: chunk_is_root_chunk_def uvm_gpu_chunk_get_size_def max)
qed

lemma geometry_eqs:
  assumes "same_geometry p q"
  shows "root_chunk_from_chunk q c = root_chunk_from_chunk p c"
    "uvm_gpu_chunk_get_size (chunk_of q c) = uvm_gpu_chunk_get_size (chunk_of p c)"
    "chunk_is_root_chunk (chunk_of q c) = chunk_is_root_chunk (chunk_of p c)"
    "root_ptr q c = root_ptr p c"
  using assms by (simp_all add: same_geometry_def root_chunk_from_chunk_def root_chunk_from_address_def
      chunk_is_root_chunk_def uvm_gpu_chunk_get_size_def root_ptr_def)

lemma valid_transfer:
  assumes v: "valid_chunk p x" and g: "same_geometry p q"
    and t: "\<And>y. c_type (chunk_of q y) = c_type (chunk_of p y)"
    and s: "c_state (chunk_of q (root_chunk_from_chunk p x)) \<noteq> UVM_PMM_GPU_CHUNK_STATE_PMA_OWNED"
      "x \<noteq> root_chunk_from_chunk p x \<Longrightarrow>
         c_state (chunk_of q (root_chunk_from_chunk p x)) = UVM_PMM_GPU_CHUNK_STATE_IS_SPLIT"
  shows "valid_chunk q x"
proof -
  have "pmm_chunk_sizes q = pmm_chunk_sizes p" "c_log2_size (chunk_of q x) = c_log2_size (chunk_of p x)"
    using g by (simp_all add: same_geometry_def)
  then show ?thesis
    using v s unfolding valid_chunk_def Let_def geometry_eqs [OF g] t by (elim conjE) (intro conjI; metis)
qed

lemma geometry_trans: "same_geometry p q \<Longrightarrow> same_geometry q s \<Longrightarrow> same_geometry p s"
  by (simp add: same_geometry_def)

lemma geometry_refl [simp]: "same_geometry p p"
  by (simp add: same_geometry_def)

lemma update_fields:
  "pmm_chunks (uvm_pmm_root_list_update_locked pmm c d st op) = pmm_chunks pmm"
  "root_array (uvm_pmm_root_list_update_locked pmm c d st op) = root_array pmm"
  "pmm_chunk_sizes (uvm_pmm_root_list_update_locked pmm c d st op) = pmm_chunk_sizes pmm"
  "pmm_addr (uvm_pmm_root_list_update_locked pmm c d st op) = pmm_addr pmm"
  "pmm_lists (uvm_pmm_root_list_update_locked pmm c d st op) = root_list_apply op c d (pmm_lists pmm)"
  "root_list_state (uvm_pmm_root_list_update_locked pmm c d st op) =
     (if chunk_is_root_chunk (chunk_of pmm c) then (root_list_state pmm)(root_chunk_from_chunk pmm c := st)
      else root_list_state pmm)"
  by (simp_all add: uvm_pmm_root_list_update_locked_def Let_def)

lemmas update_simps [simp] = update_fields(1-5)

lemma update_geometry [simp]: "same_geometry pmm (uvm_pmm_root_list_update_locked pmm c d st op)"
  by (simp add: same_geometry_def)

lemma store_cong:
  assumes "pmm_chunks q = pmm_chunks p" "root_array q = root_array p" "pmm_chunk_sizes q = pmm_chunk_sizes p"
  shows "valid_chunk q c = valid_chunk p c" "find_free_list_chunk q c = find_free_list_chunk p c"
    "listed_ok E F q l c = listed_ok E F p l c" "root_ptr q c = root_ptr p c"
    "root_chunk_from_chunk q c = root_chunk_from_chunk p c"
proof -
  have g: "same_geometry p q" using assms by (simp add: same_geometry_def)
  note geo = geometry_eqs [OF g]
  show v: "valid_chunk q c = valid_chunk p c" for c using assms by (simp add: valid_chunk_def geo Let_def)
  show f: "find_free_list_chunk q c = find_free_list_chunk p c" for c
    using assms by (simp add: find_free_list_chunk_def find_free_list_def)
  show "listed_ok E F q l c = listed_ok E F p l c" using assms by (cases l) (simp_all add: v f)
  show "root_ptr q c = root_ptr p c" "root_chunk_from_chunk q c = root_chunk_from_chunk p c" by (simp_all add: geo)
qed

lemma update_store [simp]:
  "valid_chunk (uvm_pmm_root_list_update_locked pmm c d st op) x = valid_chunk pmm x"
  "find_free_list_chunk (uvm_pmm_root_list_update_locked pmm c d st op) x = find_free_list_chunk pmm x"
  "listed_ok E F (uvm_pmm_root_list_update_locked pmm c d st op) l x = listed_ok E F pmm l x"
  "root_ptr (uvm_pmm_root_list_update_locked pmm c d st op) x = root_ptr pmm x"
  "root_chunk_from_chunk (uvm_pmm_root_list_update_locked pmm c d st op) x = root_chunk_from_chunk pmm x"
  by (simp_all add: store_cong [of "uvm_pmm_root_list_update_locked pmm c d st op" pmm])

lemma list_del_set [simp]: "set (pmm_list_del c ls l) = set (ls l) - {c}"
  by (simp add: pmm_list_del_def)

lemma valid_root: "valid_chunk pmm c \<Longrightarrow> chunk_is_root_chunk (chunk_of pmm c) \<Longrightarrow>
    root_chunk_from_chunk pmm c = c"
  by (auto simp: valid_chunk_def Let_def)

lemma listed_ok_mono: "listed_ok E F pmm l c \<Longrightarrow> (c \<in> E \<Longrightarrow> c \<in> E')
    \<Longrightarrow> (c \<in> F \<Longrightarrow> c \<in> F') \<Longrightarrow> listed_ok E' F' pmm l c"
  by (cases l) auto

lemma listed_valid: "listed_ok E F pmm l c \<Longrightarrow> valid_chunk pmm c"
  by (cases l) auto

lemma list_code_range:
  "UVM_PMM_ROOT_LIST_NONE \<notin> range list_code" "UVM_PMM_ROOT_LIST_EVICTION \<notin> range list_code"
  by (auto elim: list_code.elims [OF sym])

lemma pmm_okI:
  assumes "\<And>l. distinct (pmm_lists pmm l)"
    and "\<And>l l' c. c \<in> set (pmm_lists pmm l) \<Longrightarrow> c \<in> set (pmm_lists pmm l')
        \<Longrightarrow> l = l'"
    and "\<And>l c. c \<in> set (pmm_lists pmm l) \<Longrightarrow> listed_ok E F pmm l c"
    and "\<And>r l. root_ptr pmm r \<Longrightarrow> r \<in> set (pmm_lists pmm l) \<Longrightarrow>
        root_list_state pmm r = list_code l"
    and "\<And>r. root_ptr pmm r \<Longrightarrow> root_list_state pmm r \<in> range list_code
        \<Longrightarrow> on_list pmm r"
  shows "pmm_ok E F pmm"
  unfolding pmm_ok_def using assms by blast

lemma pmm_okD:
  assumes "pmm_ok E F pmm"
  shows ok_distinct: "distinct (pmm_lists pmm l)"
    and ok_unique: "c \<in> set (pmm_lists pmm l) \<Longrightarrow> c \<in> set (pmm_lists pmm l')
        \<Longrightarrow> l = l'"
    and ok_listed: "c \<in> set (pmm_lists pmm l) \<Longrightarrow> listed_ok E F pmm l c"
    and ok_state: "root_ptr pmm r \<Longrightarrow> r \<in> set (pmm_lists pmm l) \<Longrightarrow>
        root_list_state pmm r = list_code l"
    and ok_on_list: "root_ptr pmm r \<Longrightarrow> root_list_state pmm r \<in> range list_code
        \<Longrightarrow> on_list pmm r"
  using assms unfolding pmm_ok_def by blast+

lemma ok_mono:
  assumes ok: "pmm_ok E F pmm"
    and "\<And>c. on_list pmm c \<Longrightarrow> c \<in> E \<Longrightarrow> c \<in> E'" "\<And>c. on_list pmm
        c \<Longrightarrow> c \<in> F \<Longrightarrow> c \<in> F'"
  shows "pmm_ok E' F' pmm"
proof (rule pmm_okI)
  show "listed_ok E' F' pmm l c" if "c \<in> set (pmm_lists pmm l)" for l c
    using that assms(2,3) [of c] by (intro listed_ok_mono [OF ok_listed [OF ok that]]) (auto simp: on_list_def)
qed (use ok in \<open>blast dest: pmm_okD\<close>)+

lemma root_state_update:
  assumes "valid_chunk pmm c" "root_ptr pmm r"
  shows "root_list_state (uvm_pmm_root_list_update_locked pmm c d st op) r =
    (if r = c then st else root_list_state pmm r)"
  using assms valid_root [of pmm c] by (auto simp: update_fields(6) root_ptr_def)

lemma ok_del:
  assumes ok: "pmm_ok E F pmm" and c: "valid_chunk pmm c"
    and st: "st \<in> {UVM_PMM_ROOT_LIST_NONE, UVM_PMM_ROOT_LIST_EVICTION}"
  defines "q \<equiv> uvm_pmm_root_list_update_locked pmm c None st UVM_PMM_ROOT_LIST_OP_DEL_INIT"
  shows "pmm_ok (E - {c}) (F - {c}) q" and "\<not> on_list q c"
proof -
  have ls: "set (pmm_lists q l) = set (pmm_lists pmm l) - {c}" for l by (simp add: q_def root_list_apply_def)
  show "\<not> on_list q c" by (simp add: on_list_def ls)
  have st': "st \<notin> range list_code" using st list_code_range by (metis empty_iff insert_iff)
  have q: "root_ptr q = root_ptr pmm" "\<And>A B l x. listed_ok A B q l x = listed_ok A B pmm l x"
    by (simp_all add: q_def fun_eq_iff)
  note state = root_state_update [OF c, of _ None st UVM_PMM_ROOT_LIST_OP_DEL_INIT, folded q_def]
  show "pmm_ok (E - {c}) (F - {c}) q"
  proof (rule pmm_okI, unfold q ls)
    show "distinct (pmm_lists q l)" for l
      using ok_distinct [OF ok, of l] by (simp add: q_def root_list_apply_def pmm_list_del_def distinct_removeAll)
    show "listed_ok (E - {c}) (F - {c}) pmm l x" if "x \<in> set (pmm_lists pmm l) - {c}" for l x
      using that by (intro listed_ok_mono [OF ok_listed [OF ok]]) auto
    show "root_list_state q r = list_code l" if "root_ptr pmm r" "r \<in> set (pmm_lists pmm l) - {c}" for r l
      using that ok_state [OF ok] by (simp add: state)
    show "on_list q r" if r: "root_ptr pmm r" "root_list_state q r \<in> range list_code" for r
    proof -
      have "r \<noteq> c" using r st' by (auto simp: state)
      then show ?thesis using r ok_on_list [OF ok r(1)] by (simp add: state on_list_def ls)
    qed
  qed (use ok_unique [OF ok] in blast)
qed

lemma ok_put:
  assumes ok: "pmm_ok E F pmm" and c: "valid_chunk pmm c" and d: "listed_ok {} {} pmm d c"
    and op: "op \<in> {UVM_PMM_ROOT_LIST_OP_MOVE_HEAD, UVM_PMM_ROOT_LIST_OP_MOVE_TAIL} \<or>
      op = UVM_PMM_ROOT_LIST_OP_ADD_TAIL \<and> \<not> on_list pmm c"
  defines "q \<equiv> uvm_pmm_root_list_update_locked pmm c (Some d) (list_code d) op"
  shows "pmm_ok (E - {c}) (F - {c}) q"
proof -
  have ls: "set (pmm_lists q l) = (set (pmm_lists pmm l) - {c}) \<union> (if l = d then {c} else {})" for l
    using op by (auto simp: q_def root_list_apply_def Let_def on_list_def)
  have q: "root_ptr q = root_ptr pmm" "\<And>A B l x. listed_ok A B q l x = listed_ok A B pmm l x"
    by (simp_all add: q_def fun_eq_iff)
  note state = root_state_update [OF c, of _ "Some d" "list_code d" op, folded q_def]
  show ?thesis
  proof (rule pmm_okI, unfold q)
    show "distinct (pmm_lists q l)" for l
      using ok_distinct [OF ok, of l] op
      by (auto simp: q_def root_list_apply_def pmm_list_del_def Let_def on_list_def distinct_removeAll)
    show "l = l'" if "x \<in> set (pmm_lists q l)" "x \<in> set (pmm_lists q l')" for l l' x
      using that ok_unique [OF ok, of x l l'] by (auto simp: ls split: if_splits)
    show "listed_ok (E - {c}) (F - {c}) pmm l x" if "x \<in> set (pmm_lists q l)" for l x
    proof (cases "x = c")
      case True
      then show ?thesis using that d by (auto simp: ls split: if_splits intro: listed_ok_mono)
    next
      case False
      then show ?thesis using that by (intro listed_ok_mono [OF ok_listed [OF ok]]) (auto simp: ls split: if_splits)
    qed
    show "root_list_state q r = list_code l" if "root_ptr pmm r" "r \<in> set (pmm_lists q l)" for r l
      using that ok_state [OF ok, of r l] by (auto simp: state ls split: if_splits)
    show "on_list q r" if r: "root_ptr pmm r" "root_list_state q r \<in> range list_code" for r
      using r ok_on_list [OF ok r(1)] by (cases "r = c") (auto simp: state on_list_def ls)
  qed
qed

lemma root_list_apply_init [simp]: "root_list_apply UVM_PMM_ROOT_LIST_OP_INIT c d ls = ls"
  by (simp add: root_list_apply_def)

lemma ok_init:
  assumes ok: "pmm_ok E F pmm" and c: "valid_chunk pmm c" "\<not> on_list pmm c"
  shows "pmm_ok E F (uvm_pmm_root_list_update_locked pmm c None UVM_PMM_ROOT_LIST_NONE UVM_PMM_ROOT_LIST_OP_INIT)"
    (is "pmm_ok E F ?q")
proof (rule pmm_okI)
  show "distinct (pmm_lists ?q l)" for l using ok_distinct [OF ok] by simp
  show "listed_ok E F ?q l x" if "x \<in> set (pmm_lists ?q l)" for l x using that ok_listed [OF ok] by simp
  show "l = l'" if "x \<in> set (pmm_lists ?q l)" "x \<in> set (pmm_lists ?q l')" for l l' x
    using that ok_unique [OF ok] by simp
  show "root_list_state ?q r = list_code l" if "root_ptr ?q r" "r \<in> set (pmm_lists ?q l)" for r l
    using that c ok_state [OF ok, of r l] by (auto simp: root_state_update on_list_def)
  show "on_list ?q r" if r: "root_ptr ?q r" "root_list_state ?q r \<in> range list_code" for r
    using r c ok_on_list [OF ok, of r] list_code_range(1)
    by (cases "r = c") (auto simp: root_state_update on_list_def)
qed

lemma upd_chunk_lists [simp]:
  "pmm_lists (upd_chunk c f pmm) = pmm_lists pmm" "root_list_state (upd_chunk c f pmm) = root_list_state pmm"
  "root_array (upd_chunk c f pmm) = root_array pmm" "pmm_chunk_sizes (upd_chunk c f pmm) = pmm_chunk_sizes pmm"
  "on_list (upd_chunk c f pmm) = on_list pmm"
  by (simp_all add: upd_chunk_def on_list_def fun_eq_iff)

lemma upd_chunk_geometry:
  assumes "\<And>x. c_address (f x) = c_address x" "\<And>x. c_log2_size (f x) = c_log2_size x"
  shows "same_geometry pmm (upd_chunk c f pmm)"
  using assms by (simp add: same_geometry_def upd_chunk_def)

lemma ok_store:
  assumes ok: "pmm_ok E F pmm" and geo: "same_geometry pmm q"
    and same: "pmm_lists q = pmm_lists pmm" "root_list_state q = root_list_state pmm"
    and listed: "\<And>l c. c \<in> set (pmm_lists pmm l) \<Longrightarrow> listed_ok E F pmm l c
        \<Longrightarrow> listed_ok E' F' q l c"
  shows "pmm_ok E' F' q"
proof (rule pmm_okI, unfold same geometry_eqs [OF geo])
  show "on_list q r" if "root_ptr pmm r" "root_list_state pmm r \<in> range list_code" for r
    using ok_on_list [OF ok that] by (simp add: on_list_def same)
qed (use ok_distinct [OF ok] ok_unique [OF ok] ok_state [OF ok] listed ok_listed [OF ok] in blast)+

text \<open>A chunk changes in place; where it is a root, the chunks below it stay below a split root.\<close>

lemma ok_upd:
  assumes ok: "pmm_ok E F pmm"
    and keep: "\<And>x. c_address (f x) = c_address x" "\<And>x. c_log2_size (f x) = c_log2_size x"
      "\<And>x. c_type (f x) = c_type x"
    and root: "\<And>d. on_list pmm d \<Longrightarrow> root_chunk_from_chunk pmm d = c \<Longrightarrow>
      c_state (f (chunk_of pmm c)) \<noteq> UVM_PMM_GPU_CHUNK_STATE_PMA_OWNED \<and>
      (d \<noteq> c \<longrightarrow> c_state (f (chunk_of pmm c)) = UVM_PMM_GPU_CHUNK_STATE_IS_SPLIT)"
    and E: "E \<subseteq> E'" "c \<in> E' \<or> (\<forall>l\<in>{Va_Block_Used, Va_Block_Unused}. c \<in> set
        (pmm_lists pmm l) \<longrightarrow>
      evictable (chunk_of pmm c) \<longrightarrow> evictable (f (chunk_of pmm c)))"
    and ev: "\<And>l. l \<noteq> Va_Block_Lazy_Free \<Longrightarrow> c \<in> set (pmm_lists pmm l) \<Longrightarrow>
      \<not> c_in_eviction (chunk_of pmm c) \<Longrightarrow> \<not> c_in_eviction (f (chunk_of pmm c))"
    and F: "F \<subseteq> F'" "c \<in> F' \<or> (\<forall>ty i z. c \<in> set (pmm_lists pmm (Free_List ty i
        z)) \<longrightarrow>
      c_state (chunk_of pmm c) = UVM_PMM_GPU_CHUNK_STATE_FREE \<longrightarrow>
      c_state (f (chunk_of pmm c)) = c_state (chunk_of pmm c) \<and> c_is_zero (f (chunk_of pmm c)) = c_is_zero
          (chunk_of pmm c))"
  shows "pmm_ok E' F' (upd_chunk c f pmm)" (is "pmm_ok E' F' ?q")
proof (rule ok_store [OF ok upd_chunk_geometry])
  note geo = geometry_eqs [OF upd_chunk_geometry [where c = c and f = f and pmm = pmm, OF keep(1,2)]]
  have of_c: "chunk_of ?q x = (if x = c then f (chunk_of pmm c) else chunk_of pmm x)" for x
    by (simp add: upd_chunk_def)
  have root_c: "chunk_is_root_chunk (f x) = chunk_is_root_chunk x" for x
    by (simp add: chunk_is_root_chunk_def uvm_gpu_chunk_get_size_def keep)
  fix l x assume x: "x \<in> set (pmm_lists pmm l)" and lx: "listed_ok E F pmm l x"
  have "on_list pmm x" using x by (auto simp: on_list_def)
  note r = root [OF this]
  have v: "valid_chunk ?q x"
  proof (rule valid_transfer [OF listed_valid [OF lx] upd_chunk_geometry [OF keep(1,2)]])
    show "c_type (chunk_of ?q y) = c_type (chunk_of pmm y)" for y by (simp add: of_c keep)
    show "c_state (chunk_of ?q (root_chunk_from_chunk pmm x)) \<noteq> UVM_PMM_GPU_CHUNK_STATE_PMA_OWNED"
      "x \<noteq> root_chunk_from_chunk pmm x \<Longrightarrow>
         c_state (chunk_of ?q (root_chunk_from_chunk pmm x)) = UVM_PMM_GPU_CHUNK_STATE_IS_SPLIT"
      using listed_valid [OF lx] r by (auto simp: valid_chunk_def Let_def of_c)
  qed
  have fr: "find_free_list_chunk ?q x = find_free_list_chunk pmm x"
    if "c_is_zero (chunk_of ?q x) = c_is_zero (chunk_of pmm x)"
    using that by (auto simp: find_free_list_chunk_def find_free_list_def geo of_c keep uvm_gpu_chunk_get_size_def)
  show "listed_ok E' F' ?q l x"
  proof (cases l)
    case (Free_List ty i z)
    then show ?thesis using lx v F x fr ev by (auto simp: geo of_c keep root_c uvm_gpu_chunk_is_user_def)
  qed (use lx v E x ev in \<open>auto simp: geo of_c keep root_c uvm_gpu_chunk_is_user_def\<close>)
qed (simp_all add: keep)

lemma run_reorder_requests:
  "snd (run_reorder_policy p (Some q)) =
     Some (fold (\<lambda>v r. snd ((\<lambda>r (destination, position). nv_gpu_transition_record_pmm r
         destination position) r v))
       (requested_orders p (Some q)) q)"
  by (induction p arbitrary: q) (simp_all add: bpf_gpu_request_reorder_def split: prod.splits)

lemma order_request_fields:
  "pmm_attempted (order_request []) = False" "pmm_conflict (order_request []) = False"
  "pmm_attempted (order_request (x # xs))" "pmm_conflict (order_request (x # xs)) \<longleftrightarrow>
      (\<exists>y\<in>set xs. y \<noteq> x)"
  "(pmm_destination (order_request (x # xs)), pmm_position (order_request (x # xs))) = x"
  using rec_pmm.fold_fresh [of pmm_request_init x xs, OF _ _ refl]
  unfolding order_request_def by (simp_all add: request_defs)

lemma validate_order_request:
  "nv_gpu_transition_validate_pmm s s (order_request reqs) = NV_GPU_TRANSITION_APPLY \<longleftrightarrow>
      granted_move reqs \<noteq> None"
  "nv_gpu_transition_validate_pmm s s (order_request reqs) = NV_GPU_TRANSITION_NOOP_DEFAULT
      \<longleftrightarrow> reqs = []"
proof -
  show "nv_gpu_transition_validate_pmm s s (order_request reqs) = NV_GPU_TRANSITION_APPLY \<longleftrightarrow>
      granted_move reqs \<noteq> None"
    using order_request_fields(3-5) [of "hd reqs" "tl reqs"] order_request_fields(1,2)
    by (cases reqs) (auto simp: nv_gpu_transition_validate_pmm_def granted_move_def split: prod.splits)
  show "nv_gpu_transition_validate_pmm s s (order_request reqs) = NV_GPU_TRANSITION_NOOP_DEFAULT
      \<longleftrightarrow> reqs = []"
    using order_request_fields(3-5) [of "hd reqs" "tl reqs"] order_request_fields(1,2)
    by (cases reqs) (auto simp: nv_gpu_transition_validate_pmm_def)
qed

lemma granted_move_request:
  assumes "granted_move reqs = Some (d, op)"
  shows "d = (if pmm_destination (order_request reqs) = NV_GPU_PMM_DESTINATION_USED then Va_Block_Used else
      Va_Block_Unused)"
    "op = (if pmm_position (order_request reqs) = NV_GPU_PMM_POSITION_HEAD then UVM_PMM_ROOT_LIST_OP_MOVE_HEAD
      else UVM_PMM_ROOT_LIST_OP_MOVE_TAIL)"
  using assms order_request_fields(5) [of "hd reqs" "tl reqs"]
  by (cases reqs; auto simp: granted_move_def split: prod.splits if_splits)+

lemma validate_order:
  "fst (pmm_bpf_validate_reorder_locked pmm chunk (Some (order_ctx pmm chunk reqs))) = NV_GPU_TRANSITION_APPLY
      \<longleftrightarrow>
     movable pmm chunk \<and> granted_move reqs \<noteq> None"
  "fst (pmm_bpf_validate_reorder_locked pmm chunk (Some (order_ctx pmm chunk reqs))) =
      NV_GPU_TRANSITION_NOOP_DEFAULT \<longleftrightarrow>
     root_ptr pmm chunk \<and> reqs = []"
  using validate_order_request [of "pmm_snapshot pmm chunk" reqs]
  by (auto simp: pmm_bpf_validate_reorder_locked_def order_ctx_def decision_ctx_init_def Let_def movable_def
      root_ptr_def)

lemma commit_order:
  "pmm_bpf_commit_reorder_locked pmm chunk (order_ctx pmm chunk reqs) =
     (fst (pmm_bpf_validate_reorder_locked pmm chunk (Some (order_ctx pmm chunk reqs))),
      case granted_move reqs of
        Some (d, op) \<Rightarrow>
          if movable pmm chunk then uvm_pmm_root_list_update_locked pmm chunk (Some d) (list_code d) op else pmm
      | None \<Rightarrow> pmm)"
proof (cases "movable pmm chunk \<and> granted_move reqs \<noteq> None")
  case True
  then obtain d op where g: "granted_move reqs = Some (d, op)" by auto
  have v: "nv_gpu_transition_validate_pmm (pmm_snapshot pmm chunk) (pmm_snapshot pmm chunk) (order_request reqs) =
      NV_GPU_TRANSITION_APPLY"
    using True validate_order_request(1) by blast
  show ?thesis
    using True g granted_move_request [OF g] v
    by (auto simp: pmm_bpf_commit_reorder_locked_def pmm_bpf_validate_reorder_locked_def order_ctx_def
        decision_ctx_init_def Let_def movable_def root_ptr_def)
next
  case False
  then have "fst (pmm_bpf_validate_reorder_locked pmm chunk (Some (order_ctx pmm chunk reqs))) \<noteq>
      NV_GPU_TRANSITION_APPLY"
    using validate_order(1) by blast
  then show ?thesis
    using False by (auto simp: pmm_bpf_commit_reorder_locked_def split: prod.splits option.splits)
qed

lemma decision_ctx_init_request [simp]:
  "(decision_ctx_init pmm chunk)\<lparr>dc_request := pmm_request_init\<rparr> = decision_ctx_init pmm chunk"
  "dc_request (decision_ctx_init pmm chunk) = pmm_request_init"
  by (simp_all add: decision_ctx_init_def)

lemma order_request_run:
  "the (snd (run_reorder_policy p (Some pmm_request_init))) = order_request (requested_orders p (Some
      pmm_request_init))"
  by (simp add: run_reorder_requests order_request_def)

lemma order_request_Nil [simp]: "order_request [] = pmm_request_init"
  by (simp add: order_request_def)

lemma activate_ctx:
  "uvm_bpf_call_gpu_block_activate mem slot pmm chunk =
     snd (uvm_pmm_bpf_apply_activate_locked pmm chunk (order_ctx pmm chunk (activate_requests mem slot pmm chunk)))"
  unfolding uvm_bpf_call_gpu_block_activate_def activate_requests_def Let_def
  by (simp add: order_ctx_def order_request_run split: option.split Option.bind_split)

lemma access_ctx:
  "uvm_bpf_call_gpu_block_access mem slot pmm chunk =
     uvm_pmm_bpf_apply_access_locked pmm chunk (order_ctx pmm chunk (access_requests mem slot pmm chunk))
       (scast (access_action mem slot pmm chunk))"
  unfolding uvm_bpf_call_gpu_block_access_def access_requests_def access_action_def Let_def
  by (simp add: order_ctx_def order_request_run split_beta split: option.split Option.bind_split)

lemma sint_action: "sint (scast w :: NvS64) = sint (w :: 32 word)"
  by (simp add: sint_up_scast is_up)

lemma apply_activate_order:
  "snd (uvm_pmm_bpf_apply_activate_locked pmm chunk (order_ctx pmm chunk reqs)) =
     (case granted_move reqs of
        Some (d, op) \<Rightarrow>
          if movable pmm chunk then uvm_pmm_root_list_update_locked pmm chunk (Some d) (list_code d) op else pmm
      | None \<Rightarrow> pmm)"
  using validate_order(1) [of pmm chunk reqs]
  by (simp add: uvm_pmm_bpf_apply_activate_locked_def split_beta commit_order
      nv_gpu_transition_pmm_activate_effect_def
      split: option.split)

lemma apply_access_order:
  "uvm_pmm_bpf_apply_access_locked pmm chunk (order_ctx pmm chunk reqs) (scast (action :: 32 word)) =
     (if sint action \<notin> {NV_GPU_TRANSITION_ACTION_DEFAULT, NV_GPU_TRANSITION_ACTION_BYPASS}
        then (NV_GPU_PMM_ACCESS_PRESERVE, pmm)
      else
        (case granted_move reqs of
           Some (d, op) \<Rightarrow>
             if movable pmm chunk
               then (NV_GPU_PMM_ACCESS_COMMIT, uvm_pmm_root_list_update_locked pmm chunk (Some d) (list_code d) op)
             else (NV_GPU_PMM_ACCESS_PRESERVE, pmm)
         | None \<Rightarrow>
             (if reqs = [] \<and> root_ptr pmm chunk \<and> sint action = NV_GPU_TRANSITION_ACTION_DEFAULT
                then NV_GPU_PMM_ACCESS_NATIVE else NV_GPU_PMM_ACCESS_PRESERVE, pmm)))"
proof -
  let ?v = "fst (pmm_bpf_validate_reorder_locked pmm chunk (Some (order_ctx pmm chunk reqs)))"
  have *: "uvm_pmm_bpf_apply_access_locked pmm chunk (order_ctx pmm chunk reqs) (scast action) =
    (let effect = nv_gpu_transition_pmm_access_effect (scast action) ?v
     in if effect = NV_GPU_PMM_ACCESS_COMMIT
          then (if ?v \<noteq> NV_GPU_TRANSITION_APPLY then NV_GPU_PMM_ACCESS_PRESERVE else effect,
                snd (pmm_bpf_commit_reorder_locked pmm chunk (order_ctx pmm chunk reqs)))
        else (effect, pmm))"
    by (simp add: uvm_pmm_bpf_apply_access_locked_def split_beta Let_def commit_order)
  have "granted_move reqs = None" if "reqs = []" using that by (simp add: granted_move_def)
  then show ?thesis
    using validate_order [of pmm chunk reqs] unfolding *
    by (auto simp: nv_gpu_transition_pmm_access_effect_def Let_def sint_action commit_order split: option.splits)
qed

lemma policy_moveI:
  assumes "d \<in> {Va_Block_Used, Va_Block_Unused}"
    "op \<in> {UVM_PMM_ROOT_LIST_OP_MOVE_HEAD, UVM_PMM_ROOT_LIST_OP_MOVE_TAIL}" "root_ptr pmm chunk"
    "root_list_state pmm chunk \<in> {UVM_PMM_ROOT_LIST_VA_BLOCK_USED, UVM_PMM_ROOT_LIST_VA_BLOCK_UNUSED}"
  shows "uvm_pmm_root_list_update_locked pmm chunk (Some d) (list_code d) op \<in> policy_moves pmm chunk"
  using assms unfolding policy_moves_def by blast

lemma granted_move_lists:
  "granted_move reqs = Some (d, op) \<Longrightarrow> d \<in> {Va_Block_Used, Va_Block_Unused} \<and>
     op \<in> {UVM_PMM_ROOT_LIST_OP_MOVE_HEAD, UVM_PMM_ROOT_LIST_OP_MOVE_TAIL}"
  by (auto simp: granted_move_def split: list.splits if_splits)

lemma movable_moves:
  assumes "granted_move reqs = Some (d, op)" "movable pmm chunk"
  shows "uvm_pmm_root_list_update_locked pmm chunk (Some d) (list_code d) op \<in> policy_moves pmm chunk"
  using granted_move_lists [OF assms(1)] assms(2) by (intro policy_moveI) (auto simp: movable_def)

lemma activate_cases:
  "uvm_bpf_call_gpu_block_activate mem slot pmm chunk \<in> insert pmm (policy_moves pmm chunk)"
  by (auto simp: activate_ctx apply_activate_order movable_moves split: option.split)

lemma access_cases:
  "uvm_bpf_call_gpu_block_access mem slot pmm chunk \<in>
     {NV_GPU_PMM_ACCESS_NATIVE, NV_GPU_PMM_ACCESS_PRESERVE} \<times> {pmm} \<union>
     {NV_GPU_PMM_ACCESS_COMMIT} \<times> policy_moves pmm chunk"
  by (auto simp: access_ctx apply_access_order movable_moves split: option.split)

lemma policy_move_keeps:
  assumes "q \<in> insert pmm (policy_moves pmm chunk)"
  shows "pmm_chunks q = pmm_chunks pmm" "root_array q = root_array pmm" "pmm_chunk_sizes q = pmm_chunk_sizes pmm"
  using assms by (auto simp: policy_moves_def)

lemma ok_policy_move:
  assumes ok: "pmm_ok E F pmm" and q: "q \<in> insert pmm (policy_moves pmm chunk)"
    and E: "chunk \<notin> E" "chunk \<notin> F"
  shows "pmm_ok E F q"
proof (cases "q = pmm")
  case False
  then obtain d op where d: "d \<in> {Va_Block_Used, Va_Block_Unused}"
    "op \<in> {UVM_PMM_ROOT_LIST_OP_MOVE_HEAD, UVM_PMM_ROOT_LIST_OP_MOVE_TAIL}"
    "root_ptr pmm chunk" "root_list_state pmm chunk \<in> list_code ` {Va_Block_Used, Va_Block_Unused}"
    and q': "q = uvm_pmm_root_list_update_locked pmm chunk (Some d) (list_code d) op"
    using q by (auto simp: policy_moves_def)
  obtain l where l: "chunk \<in> set (pmm_lists pmm l)"
    using ok_on_list [OF ok d(3)] d(4) unfolding on_list_def by blast
  then have "list_code l \<in> list_code ` {Va_Block_Used, Va_Block_Unused}" using ok_state [OF ok d(3)] d(4) by simp
  then have "l \<in> {Va_Block_Used, Va_Block_Unused}" by (cases l) auto
  then have "listed_ok {} {} pmm d chunk" "valid_chunk pmm chunk" using ok_listed [OF ok l] d(1) E by auto
  then show ?thesis using ok_put [OF ok, of chunk d op] d(2) E by (auto simp: q' intro: ok_mono)
qed (use ok in simp)

lemma root_ptrD:
  assumes "root_ptr pmm r"
  shows "chunk_is_root_chunk (chunk_of pmm r)" "root_chunk_from_chunk pmm r = r" "c_log2_size (chunk_of pmm r) = 21"
  using assms by (simp_all add: root_ptr_def root_size)

lemma valid_rootD:
  assumes c: "valid_chunk pmm c"
  defines "r \<equiv> root_chunk_from_chunk pmm c"
  shows "root_ptr pmm r" "valid_chunk pmm r" "c_type (chunk_of pmm r) = c_type (chunk_of pmm c)"
    "r \<noteq> c \<Longrightarrow> c_state (chunk_of pmm r) = UVM_PMM_GPU_CHUNK_STATE_IS_SPLIT"
    "c_state (chunk_of pmm r) \<noteq> UVM_PMM_GPU_CHUNK_STATE_PMA_OWNED"
proof -
  note v = c [unfolded valid_chunk_def Let_def, folded r_def]
  show r: "root_ptr pmm r" using v by blast
  show t: "c_type (chunk_of pmm r) = c_type (chunk_of pmm c)" using v by simp
  show "r \<noteq> c \<Longrightarrow> c_state (chunk_of pmm r) = UVM_PMM_GPU_CHUNK_STATE_IS_SPLIT" using v by blast
  show s: "c_state (chunk_of pmm r) \<noteq> UVM_PMM_GPU_CHUNK_STATE_PMA_OWNED" using v by blast
  show "valid_chunk pmm r" using v r s t by (simp add: valid_chunk_def Let_def root_ptrD [OF r])
qed

lemma root_chunk_pinned_eq:
  "chunk_is_root_chunk_pinned pmm c = root_pinned (chunk_of pmm (root_chunk_from_chunk pmm c))"
  by (auto simp: chunk_is_root_chunk_pinned_def root_pinned_def Let_def)

lemma ok_kernel:
  assumes ok: "pmm_ok E F pmm" and "\<not> uvm_gpu_chunk_is_user (chunk_of pmm r)"
  shows "pmm_ok (E - {r}) F pmm"
proof (rule ok_store [OF ok])
  show "listed_ok (E - {r}) F pmm l c" if "listed_ok E F pmm l c" for l c
    using that assms(2) by (cases l) auto
qed simp_all

lemma update_root_list_store [simp]:
  "pmm_chunks (update_root_list mem slot pmm c) = pmm_chunks pmm"
  "root_array (update_root_list mem slot pmm c) = root_array pmm"
  "pmm_chunk_sizes (update_root_list mem slot pmm c) = pmm_chunk_sizes pmm"
  using policy_move_keeps [OF activate_cases] by (simp_all add: update_root_list_def Let_def)

lemma ok_update_root_list:
  assumes ok: "pmm_ok E F pmm" and c: "valid_chunk pmm c"
    and ev: "uvm_gpu_chunk_is_user (chunk_of pmm c) \<Longrightarrow>
      \<not> c_in_eviction (chunk_of pmm (root_chunk_from_chunk pmm c))"
  defines "r \<equiv> root_chunk_from_chunk pmm c"
  shows "pmm_ok ((E - {r}) \<union> (if c_state (chunk_of pmm c) = UVM_PMM_GPU_CHUNK_STATE_FREE then {c} else {})) F
    (update_root_list mem slot pmm c)"
proof -
  note r = valid_rootD [OF c, folded r_def]
  have user: "uvm_gpu_chunk_is_user (chunk_of pmm r) = uvm_gpu_chunk_is_user (chunk_of pmm c)"
    by (simp add: uvm_gpu_chunk_is_user_def r)
  consider (kernel) "\<not> uvm_gpu_chunk_is_user (chunk_of pmm c)"
    | (pinned) "uvm_gpu_chunk_is_user (chunk_of pmm c)" "root_pinned (chunk_of pmm r)"
    | (used) "uvm_gpu_chunk_is_user (chunk_of pmm c)" "\<not> root_pinned (chunk_of pmm r)"
        "c_state (chunk_of pmm r) \<noteq> UVM_PMM_GPU_CHUNK_STATE_FREE"
    | (free) "uvm_gpu_chunk_is_user (chunk_of pmm c)" "\<not> root_pinned (chunk_of pmm r)"
        "c_state (chunk_of pmm r) = UVM_PMM_GPU_CHUNK_STATE_FREE"
    by blast
  then show ?thesis
  proof cases
    case kernel
    then show ?thesis
      by (simp add: update_root_list_def Let_def) (auto intro: ok_mono [OF ok_kernel [OF ok, of r]] simp: user)
  next
    case pinned
    then show ?thesis
      using ok_del(1) [OF ok r(2), of UVM_PMM_ROOT_LIST_NONE]
      by (auto simp: update_root_list_def Let_def root_chunk_pinned_eq r_def [symmetric] elim: ok_mono)
  next
    case used
    let ?q = "uvm_pmm_root_list_update_locked pmm r (Some Va_Block_Used) (list_code Va_Block_Used)
      UVM_PMM_ROOT_LIST_OP_MOVE_TAIL"
    have "evictable (chunk_of pmm r)"
      using used r by (cases "c_state (chunk_of pmm r)") (auto simp: evictable_def root_pinned_def)
    then have "listed_ok {} {} pmm Va_Block_Used r"
      using r used(1) ev by (simp add: user root_ptr_def r_def [symmetric])
    from ok_put [OF ok r(2) this, of UVM_PMM_ROOT_LIST_OP_MOVE_TAIL]
    have "pmm_ok (E - {r}) (F - {r}) ?q" by simp
    from ok_policy_move [OF this activate_cases]
    have "pmm_ok (E - {r}) (F - {r}) (uvm_bpf_call_gpu_block_activate mem slot ?q r)" by simp
    then show ?thesis
      using used by (auto simp: update_root_list_def Let_def root_chunk_pinned_eq r_def [symmetric] elim: ok_mono)
  next
    case free
    then have "r = c" using r(4) by auto
    then show ?thesis
      using free ok by (auto simp: update_root_list_def Let_def root_chunk_pinned_eq r_def [symmetric] elim: ok_mono)
  qed
qed

lemma chunk_update_lists_eq:
  "chunk_update_lists_locked mem slot pmm chunk =
     (let pmm = update_root_list mem slot pmm chunk
      in if c_state (chunk_of pmm chunk) = UVM_PMM_GPU_CHUNK_STATE_FREE then
           uvm_pmm_root_list_update_locked pmm chunk (Some (find_free_list_chunk pmm chunk))
             UVM_PMM_ROOT_LIST_FREE UVM_PMM_ROOT_LIST_OP_MOVE_TAIL
         else if c_state (chunk_of pmm chunk) = UVM_PMM_GPU_CHUNK_STATE_TEMP_PINNED then
           uvm_pmm_root_list_update_locked pmm chunk None UVM_PMM_ROOT_LIST_NONE UVM_PMM_ROOT_LIST_OP_DEL_INIT
         else pmm)"
  unfolding chunk_update_lists_locked_def update_root_list_def Let_def ..

lemma ok_update_lists:
  assumes ok: "pmm_ok E F pmm" and c: "valid_chunk pmm c"
    and ev: "uvm_gpu_chunk_is_user (chunk_of pmm c) \<Longrightarrow>
      \<not> c_in_eviction (chunk_of pmm (root_chunk_from_chunk pmm c))"
    and F: "F \<subseteq> {c}" "F = {} \<or> c_state (chunk_of pmm c) \<in>
      {UVM_PMM_GPU_CHUNK_STATE_FREE, UVM_PMM_GPU_CHUNK_STATE_TEMP_PINNED}"
  shows "pmm_ok (E - {root_chunk_from_chunk pmm c}) {} (chunk_update_lists_locked mem slot pmm c)"
proof -
  let ?E = "E - {root_chunk_from_chunk pmm c}" and ?p = "update_root_list mem slot pmm c"
  have p: "valid_chunk ?p c" "root_ptr ?p = root_ptr pmm" using c
    by (simp_all add: store_cong [of ?p pmm] fun_eq_iff)
  note ok1 = ok_update_root_list [OF ok c ev, of mem slot]
  consider (free) "c_state (chunk_of pmm c) = UVM_PMM_GPU_CHUNK_STATE_FREE"
    | (pinned) "c_state (chunk_of pmm c) = UVM_PMM_GPU_CHUNK_STATE_TEMP_PINNED"
    | (other) "F = {}" "c_state (chunk_of pmm c) \<noteq> UVM_PMM_GPU_CHUNK_STATE_FREE"
        "c_state (chunk_of pmm c) \<noteq> UVM_PMM_GPU_CHUNK_STATE_TEMP_PINNED"
    using F by blast
  then show ?thesis
  proof cases
    case free
    obtain ty i z where l: "find_free_list_chunk ?p c = Free_List ty i z"
      by (auto simp: find_free_list_chunk_def find_free_list_def)
    then have "listed_ok {} {} ?p (Free_List ty i z) c" using free p valid_root [OF c] ev by auto
    from ok_put [OF ok1 p(1) this, of UVM_PMM_ROOT_LIST_OP_MOVE_TAIL] show ?thesis
      using free F by (auto simp: chunk_update_lists_eq l elim!: ok_mono)
  next
    case pinned
    then show ?thesis using ok_del(1) [OF ok1 p(1), of UVM_PMM_ROOT_LIST_NONE] F
      by (auto simp: chunk_update_lists_eq elim!: ok_mono)
  next
    case other
    then show ?thesis using ok1 by (simp add: chunk_update_lists_eq)
  qed
qed

lemma update_lists_store [simp]:
  "pmm_chunks (chunk_update_lists_locked mem slot pmm c) = pmm_chunks pmm"
  "root_array (chunk_update_lists_locked mem slot pmm c) = root_array pmm"
  "pmm_chunk_sizes (chunk_update_lists_locked mem slot pmm c) = pmm_chunk_sizes pmm"
  by (simp_all add: chunk_update_lists_eq Let_def)

lemma upd_chunk_of: "pmm_chunks (upd_chunk c f pmm) = (pmm_chunks pmm)(c := f (pmm_chunks pmm c))"
  by (simp add: upd_chunk_def)

lemma upd_chunk_root [simp]:
  "(\<And>x. c_address (f x) = c_address x) \<Longrightarrow>
     root_chunk_from_chunk (upd_chunk c f pmm) d = root_chunk_from_chunk pmm d"
  by (simp add: root_chunk_from_chunk_def root_chunk_from_address_def upd_chunk_of)

lemma upd_chunk_is_root [simp]:
  "(\<And>x. c_log2_size (f x) = c_log2_size x) \<Longrightarrow>
     chunk_is_root_chunk (chunk_of (upd_chunk c f pmm) d) = chunk_is_root_chunk (chunk_of pmm d)"
  by (simp add: root_size upd_chunk_of)

lemma upd_chunk_keep [simp]:
  "(\<And>x. c_state (f x) = c_state x) \<Longrightarrow> c_state (chunk_of (upd_chunk c f pmm) d) = c_state
      (chunk_of pmm d)"
  "(\<And>x. c_type (f x) = c_type x) \<Longrightarrow> c_type (chunk_of (upd_chunk c f pmm) d) = c_type
      (chunk_of pmm d)"
  "(\<And>x. c_in_eviction (f x) = c_in_eviction x) \<Longrightarrow>
     c_in_eviction (chunk_of (upd_chunk c f pmm) d) = c_in_eviction (chunk_of pmm d)"
  "(\<And>x. c_parent (f x) = c_parent x) \<Longrightarrow> c_parent (chunk_of (upd_chunk c f pmm) d) =
      c_parent (chunk_of pmm d)"
  "(\<And>x. c_log2_size (f x) = c_log2_size x) \<Longrightarrow>
     c_log2_size (chunk_of (upd_chunk c f pmm) d) = c_log2_size (chunk_of pmm d)"
  "(\<And>x. c_address (f x) = c_address x) \<Longrightarrow> c_address (chunk_of (upd_chunk c f pmm) d) =
      c_address (chunk_of pmm d)"
  by (simp_all add: upd_chunk_of)

lemma listed_splitD:
  assumes ok: "pmm_ok E F pmm" and d: "on_list pmm d" "root_chunk_from_chunk pmm d = c"
  shows "c_state (chunk_of pmm c) \<noteq> UVM_PMM_GPU_CHUNK_STATE_PMA_OWNED"
    "d \<noteq> c \<Longrightarrow> c_state (chunk_of pmm c) = UVM_PMM_GPU_CHUNK_STATE_IS_SPLIT"
proof -
  obtain l where "d \<in> set (pmm_lists pmm l)" using d(1) by (auto simp: on_list_def)
  then have v: "valid_chunk pmm d" by (rule listed_valid [OF ok_listed [OF ok]])
  show "c_state (chunk_of pmm c) \<noteq> UVM_PMM_GPU_CHUNK_STATE_PMA_OWNED"
    "d \<noteq> c \<Longrightarrow> c_state (chunk_of pmm c) = UVM_PMM_GPU_CHUNK_STATE_IS_SPLIT"
    using valid_rootD(5) [OF v] valid_rootD(4) [OF v] d(2) by auto
qed

text \<open>Updates that leave the state of the chunk alone.\<close>

lemma ok_upd_same_state:
  assumes ok: "pmm_ok E F pmm"
    and keep: "\<And>x. c_address (f x) = c_address x" "\<And>x. c_log2_size (f x) = c_log2_size x"
      "\<And>x. c_type (f x) = c_type x" "\<And>x. c_state (f x) = c_state x" "\<And>x. c_in_eviction (f x) =
          c_in_eviction x"
    and E: "E \<subseteq> E'" "c \<in> E' \<or> (\<forall>x. evictable (f x) = evictable x)"
    and F: "c_state (chunk_of pmm c) \<noteq> UVM_PMM_GPU_CHUNK_STATE_FREE \<or> (\<forall>x. c_is_zero (f x) =
        c_is_zero x)"
  shows "pmm_ok E' F (upd_chunk c f pmm)"
  using ok by (rule ok_upd) (use keep E F listed_splitD [OF ok] in auto)

lemma ok_upd_suballoc: "pmm_ok E F pmm \<Longrightarrow> pmm_ok (insert r E) F (upd_suballoc r g pmm)"
  unfolding upd_suballoc_def by (rule ok_upd_same_state) auto

lemma evictable_allocated [simp]:
  "evictable (x\<lparr>c_suballoc := map_option (\<lambda>sa. sa\<lparr>sa_allocated := h sa\<rparr>)
      (c_suballoc x)\<rparr>) = evictable x"
  by (cases "c_suballoc x") (simp_all add: evictable_def root_pinned_def)

lemma ok_upd_allocated:
  "pmm_ok E F pmm \<Longrightarrow> pmm_ok E F (upd_suballoc p (\<lambda>sa. sa\<lparr>sa_allocated := h
      sa\<rparr>) pmm)"
  unfolding upd_suballoc_def by (rule ok_upd_same_state) auto

text \<open>A chunk that is not split changes its state.\<close>

lemma ok_set_state:
  assumes ok: "pmm_ok E F pmm" and c: "valid_chunk pmm c"
    and nsplit: "chunk_is_root_chunk (chunk_of pmm c) \<Longrightarrow>
      c_state (chunk_of pmm c) \<noteq> UVM_PMM_GPU_CHUNK_STATE_IS_SPLIT"
    and keep: "\<And>x. c_address (f x) = c_address x" "\<And>x. c_log2_size (f x) = c_log2_size x"
      "\<And>x. c_type (f x) = c_type x" "\<And>x. c_in_eviction (f x) = c_in_eviction x"
    and st: "c_state (f (chunk_of pmm c)) \<noteq> UVM_PMM_GPU_CHUNK_STATE_PMA_OWNED"
    and E: "E \<subseteq> E'" "root_chunk_from_chunk pmm c \<in> E'"
    and F: "F \<subseteq> F'" "c_state (chunk_of pmm c) = UVM_PMM_GPU_CHUNK_STATE_FREE \<Longrightarrow> c \<in> F'"
  shows "pmm_ok E' F' (upd_chunk c f pmm)"
  using ok
proof (rule ok_upd)
  fix d assume d: "on_list pmm d" "root_chunk_from_chunk pmm d = c"
  obtain l where "d \<in> set (pmm_lists pmm l)" using d(1) by (auto simp: on_list_def)
  from listed_valid [OF ok_listed [OF ok this]] have "root_ptr pmm c" using d(2) valid_rootD(1) by blast
  then have "d = c" using nsplit listed_splitD(2) [OF ok d] by (auto simp: root_ptr_def)
  then show "c_state (f (chunk_of pmm c)) \<noteq> UVM_PMM_GPU_CHUNK_STATE_PMA_OWNED \<and>
      (d \<noteq> c \<longrightarrow> c_state (f (chunk_of pmm c)) = UVM_PMM_GPU_CHUNK_STATE_IS_SPLIT)"
    using st by simp
next
  have "c \<in> E'" if l: "l \<in> {Va_Block_Used, Va_Block_Unused}" "c \<in> set (pmm_lists pmm l)" for l
    using ok_listed [OF ok l(2)] l(1) valid_root [OF c] E(2) by auto
  then show "c \<in> E' \<or> (\<forall>l\<in>{Va_Block_Used, Va_Block_Unused}. c \<in> set (pmm_lists pmm l)
      \<longrightarrow>
      evictable (chunk_of pmm c) \<longrightarrow> evictable (f (chunk_of pmm c)))" by blast
qed (use keep E F in auto)

lemma valid_set_state:
  assumes c: "valid_chunk pmm c" and keep: "\<And>x. c_address (f x) = c_address x" "\<And>x. c_log2_size (f x)
      = c_log2_size x"
      "\<And>x. c_type (f x) = c_type x"
    and st: "c_state (f (chunk_of pmm c)) \<noteq> UVM_PMM_GPU_CHUNK_STATE_PMA_OWNED"
  shows "valid_chunk (upd_chunk c f pmm) c"
  using c upd_chunk_geometry [OF keep(1,2)]
proof (rule valid_transfer)
  show "c_type (chunk_of (upd_chunk c f pmm) y) = c_type (chunk_of pmm y)" for y by (simp add: upd_chunk_of keep)
qed (use valid_rootD(4,5) [OF c] st in \<open>auto simp: upd_chunk_of\<close>)

lemma valid_upd_same_state:
  assumes c: "valid_chunk pmm c" and keep: "\<And>x. c_address (f x) = c_address x" "\<And>x. c_log2_size (f x)
      = c_log2_size x"
      "\<And>x. c_type (f x) = c_type x" "\<And>x. c_state (f x) = c_state x"
  shows "valid_chunk (upd_chunk d f pmm) c"
  using c upd_chunk_geometry [OF keep(1,2)]
proof (rule valid_transfer)
  show "c_type (chunk_of (upd_chunk d f pmm) y) = c_type (chunk_of pmm y)" for y by (simp add: upd_chunk_of keep)
qed (use valid_rootD(4,5) [OF c] keep in \<open>auto simp: upd_chunk_of\<close>)

lemma valid_upd_suballoc: "valid_chunk pmm c \<Longrightarrow> valid_chunk (upd_suballoc d g pmm) c"
  unfolding upd_suballoc_def by (rule valid_upd_same_state) simp_all

lemma upd_suballoc_simps [simp]:
  "root_chunk_from_chunk (upd_suballoc r g pmm) c = root_chunk_from_chunk pmm c"
  "chunk_is_root_chunk (chunk_of (upd_suballoc r g pmm) c) = chunk_is_root_chunk (chunk_of pmm c)"
  "c_state (chunk_of (upd_suballoc r g pmm) c) = c_state (chunk_of pmm c)"
  "c_type (chunk_of (upd_suballoc r g pmm) c) = c_type (chunk_of pmm c)"
  "c_is_zero (chunk_of (upd_suballoc r g pmm) c) = c_is_zero (chunk_of pmm c)"
  "c_in_eviction (chunk_of (upd_suballoc r g pmm) c) = c_in_eviction (chunk_of pmm c)"
  "c_parent (chunk_of (upd_suballoc r g pmm) c) = c_parent (chunk_of pmm c)"
  "c_log2_size (chunk_of (upd_suballoc r g pmm) c) = c_log2_size (chunk_of pmm c)"
  "c_address (chunk_of (upd_suballoc r g pmm) c) = c_address (chunk_of pmm c)"
  "pmm_lists (upd_suballoc r g pmm) = pmm_lists pmm"
  "root_list_state (upd_suballoc r g pmm) = root_list_state pmm"
  "root_array (upd_suballoc r g pmm) = root_array pmm"
  "pmm_chunk_sizes (upd_suballoc r g pmm) = pmm_chunk_sizes pmm"
  "on_list (upd_suballoc r g pmm) = on_list pmm"
  unfolding upd_suballoc_def by (simp_all add: upd_chunk_of root_size)

lemma chunk_pin_eq: "chunk_pin pmm c = set_state_counting pmm c UVM_PMM_GPU_CHUNK_STATE_TEMP_PINNED
    (\<lambda>n. n + 1)"
  by (simp add: chunk_pin_def set_state_counting_def)

lemma chunk_unpin_eq: "chunk_unpin pmm c st = set_state_counting pmm c st (\<lambda>n. n - 1)"
  by (simp add: chunk_unpin_def set_state_counting_def)

lemma set_state_counting_simps [simp]:
  "root_chunk_from_chunk (set_state_counting pmm d st g) c = root_chunk_from_chunk pmm c"
  "chunk_is_root_chunk (chunk_of (set_state_counting pmm d st g) c) = chunk_is_root_chunk (chunk_of pmm c)"
  "c_state (chunk_of (set_state_counting pmm d st g) c) = (if c = d then st else c_state (chunk_of pmm c))"
  "c_type (chunk_of (set_state_counting pmm d st g) c) = c_type (chunk_of pmm c)"
  "c_is_zero (chunk_of (set_state_counting pmm d st g) c) = c_is_zero (chunk_of pmm c)"
  "c_in_eviction (chunk_of (set_state_counting pmm d st g) c) = c_in_eviction (chunk_of pmm c)"
  "c_parent (chunk_of (set_state_counting pmm d st g) c) = c_parent (chunk_of pmm c)"
  "c_log2_size (chunk_of (set_state_counting pmm d st g) c) = c_log2_size (chunk_of pmm c)"
  "c_address (chunk_of (set_state_counting pmm d st g) c) = c_address (chunk_of pmm c)"
  "pmm_lists (set_state_counting pmm d st g) = pmm_lists pmm"
  "root_list_state (set_state_counting pmm d st g) = root_list_state pmm"
  "root_array (set_state_counting pmm d st g) = root_array pmm"
  "pmm_chunk_sizes (set_state_counting pmm d st g) = pmm_chunk_sizes pmm"
  "on_list (set_state_counting pmm d st g) = on_list pmm"
  unfolding set_state_counting_def Let_def by (simp_all add: upd_chunk_of root_size)

lemma ok_set_state_counting:
  assumes ok: "pmm_ok E F pmm" and c: "valid_chunk pmm c"
    and nsplit: "chunk_is_root_chunk (chunk_of pmm c) \<Longrightarrow>
      c_state (chunk_of pmm c) \<noteq> UVM_PMM_GPU_CHUNK_STATE_IS_SPLIT"
    and st: "st \<noteq> UVM_PMM_GPU_CHUNK_STATE_PMA_OWNED"
  shows "pmm_ok (insert (root_chunk_from_chunk pmm c) E)
      (if c_state (chunk_of pmm c) = UVM_PMM_GPU_CHUNK_STATE_FREE then insert c F else F)
      (set_state_counting pmm c st g)"
    and "valid_chunk (set_state_counting pmm c st g) c"
proof -
  let ?F = "if c_state (chunk_of pmm c) = UVM_PMM_GPU_CHUNK_STATE_FREE then insert c F else F"
  let ?r = "root_chunk_from_chunk pmm c"
  let ?p = "upd_chunk c (\<lambda>c. c\<lparr>c_state := st\<rparr>) pmm"
  have p: "pmm_ok (insert ?r E) ?F ?p"
    by (rule ok_set_state [OF ok c nsplit]) (use st in auto)
  then have "pmm_ok (insert ?r (insert ?r E)) ?F (upd_suballoc ?r g' ?p)" for g' by (rule ok_upd_suballoc)
  then show "pmm_ok (insert ?r E) ?F (set_state_counting pmm c st g)"
    using p by (simp add: set_state_counting_def Let_def)
  have "valid_chunk ?p c" by (rule valid_set_state [OF c]) (use st in auto)
  then show "valid_chunk (set_state_counting pmm c st g) c"
    by (simp add: set_state_counting_def Let_def valid_upd_suballoc)
qed

lemmas state_simps = chunk_pin_eq chunk_unpin_eq uvm_gpu_chunk_set_in_eviction_def chunk_is_in_eviction_def

lemma ok_subset: "pmm_ok E F pmm \<Longrightarrow> E \<subseteq> E' \<Longrightarrow> F \<subseteq> F'
    \<Longrightarrow> pmm_ok E' F' pmm"
  by (erule ok_mono) auto

lemma evictable_fields [simp]:
  "evictable (x\<lparr>c_is_referenced := a\<rparr>) = evictable x" "evictable (x\<lparr>c_va_block :=
      b\<rparr>) = evictable x"
  "evictable (x\<lparr>c_va_block_page_index := i\<rparr>) = evictable x" "evictable (x\<lparr>c_is_zero :=
      z\<rparr>) = evictable x"
  "evictable (x\<lparr>c_in_eviction := z\<rparr>) = evictable x" "evictable (x\<lparr>c_inject_split_error :=
      z\<rparr>) = evictable x"
  by (simp_all add: evictable_def root_pinned_def)

lemma user_set_state [simp]:
  "uvm_gpu_chunk_is_user (chunk_of (set_state_counting pmm d st g) c) = uvm_gpu_chunk_is_user (chunk_of pmm c)"
  by (simp add: uvm_gpu_chunk_is_user_def)

lemma ok_gpu_unpin_temp:
  assumes ok: "pmm_ok M {} pmm" and c: "valid_chunk pmm c" "c_state (chunk_of pmm c) =
      UVM_PMM_GPU_CHUNK_STATE_TEMP_PINNED"
    "\<not> chunk_is_in_eviction pmm c" "\<not> on_list pmm c"
  shows "pmm_ok M {} (gpu_unpin_temp mem slot pmm c va_block is_referenced)"
proof -
  let ?r = "root_chunk_from_chunk pmm c"
  let ?p1 = "uvm_pmm_root_list_update_locked pmm c None UVM_PMM_ROOT_LIST_NONE UVM_PMM_ROOT_LIST_OP_INIT"
  let ?p2 = "set_state_counting ?p1 c UVM_PMM_GPU_CHUNK_STATE_ALLOCATED (\<lambda>n. n - 1)"
  let ?p3 = "upd_chunk c (\<lambda>c. c\<lparr>c_is_referenced := is_referenced, c_va_block := Some
      va_block\<rparr>) ?p2"
  have "pmm_ok M {} ?p1" by (rule ok_init [OF ok c(1,4)])
  from ok_set_state_counting [OF this, of c UVM_PMM_GPU_CHUNK_STATE_ALLOCATED "\<lambda>n. n - 1"] c
  have p2: "pmm_ok (insert ?r M) {} ?p2" "valid_chunk ?p2 c" by simp_all
  have p3: "pmm_ok (insert ?r M) {} ?p3" by (rule ok_upd_same_state [OF p2(1)]) auto
  have v3: "valid_chunk ?p3 c" by (rule valid_upd_same_state [OF p2(2)]) auto
  have "pmm_ok (insert ?r M - {?r}) {} (chunk_update_lists_locked mem slot ?p3 c)"
    using ok_update_lists [OF p3 v3, of mem slot] c(3) by (simp add: state_simps)
  then show ?thesis
    unfolding gpu_unpin_temp_def Let_def state_simps by (rule ok_subset) auto
qed

lemma ok_root_chunk_update_eviction_list:
  assumes ok: "pmm_ok M {} pmm" and c: "valid_chunk pmm c" "chunk_is_root_chunk (chunk_of pmm c)"
    "uvm_gpu_chunk_is_user (chunk_of pmm c)"
    "c_state (chunk_of pmm c) \<in> {UVM_PMM_GPU_CHUNK_STATE_ALLOCATED, UVM_PMM_GPU_CHUNK_STATE_TEMP_PINNED}"
    and d: "d \<in> {Va_Block_Used, Va_Block_Unused}"
  shows "pmm_ok M {} (root_chunk_update_eviction_list mem slot pmm c d (list_code d) invoke)"
proof (cases "\<not> chunk_is_root_chunk_pinned pmm c \<and> \<not> chunk_is_in_eviction pmm c")
  case True
  have r: "root_chunk_from_chunk pmm c = c" by (rule valid_root [OF c(1,2)])
  have e: "evictable (chunk_of pmm c)" "\<not> c_in_eviction (chunk_of pmm c)"
    using True c(4) by (auto simp: evictable_def root_chunk_pinned_eq state_simps r root_pinned_def)
  have ok': "pmm_ok (M - {c}) {} pmm"
  proof (rule ok_store [OF ok])
    show "listed_ok (M - {c}) {} pmm l x" if "listed_ok M {} pmm l x" for l x
      using that e by (cases l) auto
  qed simp_all
  have put: "pmm_ok M {} (uvm_pmm_root_list_update_locked pmm c (Some d) (list_code d)
      UVM_PMM_ROOT_LIST_OP_MOVE_TAIL)"
    using d c e by (intro ok_subset [OF ok_put [OF ok c(1), of d]]) auto
  have "pmm_ok M {} q" if "q \<in> insert pmm (policy_moves pmm c)" for q
    by (rule ok_subset [OF ok_policy_move [OF ok' that]]) auto
  then show ?thesis
    using True put access_cases [of mem slot pmm c]
    by (auto simp: root_chunk_update_eviction_list_def split: prod.splits)
qed (use ok in \<open>auto simp: root_chunk_update_eviction_list_def\<close>)

lemma ok_unlisted_root:
  assumes ok: "pmm_ok E F pmm" and "r \<notin> set (pmm_lists pmm Va_Block_Used)" "r \<notin> set (pmm_lists
      pmm Va_Block_Unused)"
  shows "pmm_ok (E - {r}) F pmm"
proof (rule ok_store [OF ok])
  show "listed_ok (E - {r}) F pmm l x" if "x \<in> set (pmm_lists pmm l)" "listed_ok E F pmm l x" for l x
    using that assms(2,3) by (cases l) auto
qed simp_all

lemma ok_in_eviction:
  assumes ok: "pmm_ok E F pmm" and "c_in_eviction (chunk_of pmm r)"
  shows "pmm_ok (E - {r}) F pmm"
  by (rule ok_unlisted_root [OF ok]) (use ok_listed [OF ok] assms(2) in fastforce)+

text \<open>Pinning a leaf below a root that is being evicted.\<close>

lemma ok_pin_in_eviction:
  assumes ok: "pmm_ok M {} pmm" and c: "valid_chunk pmm c" "chunk_is_in_eviction pmm c"
    "c_state (chunk_of pmm c) \<in> {UVM_PMM_GPU_CHUNK_STATE_ALLOCATED, UVM_PMM_GPU_CHUNK_STATE_TEMP_PINNED}"
  shows "pmm_ok M {} (chunk_pin pmm c)"
proof -
  let ?r = "root_chunk_from_chunk pmm c"
  have "pmm_ok (insert ?r M) {} (chunk_pin pmm c)"
    using ok_set_state_counting(1) [OF ok c(1), of UVM_PMM_GPU_CHUNK_STATE_TEMP_PINNED] c(3)
    by (auto simp: chunk_pin_eq)
  from ok_in_eviction [OF this, of ?r] show ?thesis
    using c(2) by (auto simp: state_simps intro: ok_subset)
qed

lemma ok_mark_chunk_evicted:
  assumes ok: "pmm_ok M {} pmm" and c: "valid_chunk pmm c" "chunk_is_in_eviction pmm c"
    "c_state (chunk_of pmm c) = UVM_PMM_GPU_CHUNK_STATE_ALLOCATED"
  shows "pmm_ok M {} (uvm_pmm_gpu_mark_chunk_evicted pmm c)"
proof -
  let ?p = "upd_chunk c (\<lambda>c. c\<lparr>c_va_block := None, c_va_block_page_index := NO_PAGE\<rparr>) pmm"
  have "pmm_ok M {} ?p" by (rule ok_upd_same_state [OF ok]) auto
  moreover have "valid_chunk ?p c" by (rule valid_upd_same_state [OF c(1)]) auto
  ultimately show ?thesis
    unfolding uvm_pmm_gpu_mark_chunk_evicted_def using c(2,3)
    by (intro ok_pin_in_eviction) (auto simp: state_simps)
qed

lemma ok_chunk_start_eviction:
  assumes ok: "pmm_ok M {} pmm" and c: "valid_chunk pmm c"
  shows "pmm_ok M {} (chunk_start_eviction pmm c)"
    and "\<not> on_list (chunk_start_eviction pmm c) (root_chunk_from_chunk pmm c)"
    and "c_in_eviction (chunk_of (chunk_start_eviction pmm c) (root_chunk_from_chunk pmm c))"
proof -
  let ?r = "root_chunk_from_chunk pmm c"
  let ?p = "uvm_pmm_root_list_update_locked pmm ?r None UVM_PMM_ROOT_LIST_EVICTION UVM_PMM_ROOT_LIST_OP_DEL_INIT"
  note p = ok_del [OF ok valid_rootD(2) [OF c], of UVM_PMM_ROOT_LIST_EVICTION]
  have "pmm_ok (M - {?r}) ({} - {?r}) (upd_chunk ?r (\<lambda>c. c\<lparr>c_in_eviction := True\<rparr>) ?p)"
  proof (rule ok_upd)
    show "pmm_ok (M - {?r}) ({} - {?r}) ?p" using p(1) by simp
    show "c_state (chunk_of ?p ?r\<lparr>c_in_eviction := True\<rparr>) \<noteq>
        UVM_PMM_GPU_CHUNK_STATE_PMA_OWNED \<and>
        (d \<noteq> ?r \<longrightarrow> c_state (chunk_of ?p ?r\<lparr>c_in_eviction := True\<rparr>) =
            UVM_PMM_GPU_CHUNK_STATE_IS_SPLIT)"
      if "on_list ?p d" "root_chunk_from_chunk ?p d = ?r" for d
      using listed_splitD [OF _ that] p(1) by auto
  qed (use p(2) in \<open>auto simp: on_list_def\<close>)
  then show "pmm_ok M {} (chunk_start_eviction pmm c)"
    by (auto simp: chunk_start_eviction_def state_simps Let_def intro: ok_subset)
  show "\<not> on_list (chunk_start_eviction pmm c) ?r" using p(2)
    by (simp add: chunk_start_eviction_def state_simps Let_def)
  show "c_in_eviction (chunk_of (chunk_start_eviction pmm c) ?r)"
    by (simp add: chunk_start_eviction_def state_simps Let_def upd_chunk_of)
qed

lemma same_storeD:
  assumes "same_store p q"
  shows "pmm_chunks q = pmm_chunks p" "valid_chunk q c = valid_chunk p c" "find_free_list_chunk q c =
      find_free_list_chunk p c"
    "root_chunk_from_chunk q c = root_chunk_from_chunk p c" "chunk_is_in_eviction q c = chunk_is_in_eviction p c"
    "find_free_list q = find_free_list p" "root_ptr q c = root_ptr p c"
  using assms store_cong [of q p] by (auto simp: same_store_def chunk_is_in_eviction_def find_free_list_def
      fun_eq_iff)

lemma ok_find_free_chunk:
  assumes ok: "pmm_ok M {} pmm" and r: "find_free_chunk_locked elevated pmm ty sz z = (res, q)"
  shows "pmm_ok M {} q \<and> same_store pmm q \<and>
    (\<forall>c. res = Some c \<longrightarrow> c \<in> set (pmm_lists pmm (find_free_list pmm ty sz z)) \<and>
        \<not> chunk_is_in_eviction pmm c)"
proof -
  let ?xs = "pmm_lists pmm (find_free_list pmm ty sz z)"
  let ?I = "\<lambda>q. pmm_ok M {} q \<and> same_store pmm q"
  have v: "valid_chunk pmm x" if "x \<in> set ?xs" for x by (rule listed_valid [OF ok_listed [OF ok that]])
  have "?I q \<and> (\<forall>c. res = Some c \<longrightarrow> c \<in> set ?xs \<and> \<not>
      chunk_is_in_eviction pmm c)"
  proof (rule fold_exit_inv [where I = ?I, OF _ _ r [unfolded find_free_chunk_locked_def]])
    fix x s r' s' assume x: "x \<in> set ?xs" and s: "?I s" and f: "find_free_step elevated x s = (r', s')"
    note st = same_storeD [OF conjunct2 [OF s]]
    have "pmm_ok (M - {x}) ({} - {x}) (uvm_pmm_root_list_update_locked s x None UVM_PMM_ROOT_LIST_EVICTION
        UVM_PMM_ROOT_LIST_OP_DEL_INIT)"
      using s v [OF x] by (intro ok_del) (auto simp: st)
    then show "?I s' \<and> (\<forall>c. r' = Some c \<longrightarrow> c \<in> set ?xs \<and> \<not>
        chunk_is_in_eviction pmm c)"
      using f s x by (auto simp: find_free_step_def st(2-) same_store_def split: if_splits intro: ok_subset)
  qed (use ok in \<open>simp add: same_store_def\<close>)
  then show ?thesis by simp
qed

lemma free_listed:
  assumes "pmm_ok M {} pmm" "c \<in> set (pmm_lists pmm (find_free_list pmm ty sz z))"
  shows "valid_chunk pmm c" "c_state (chunk_of pmm c) = UVM_PMM_GPU_CHUNK_STATE_FREE"
    "find_free_list_chunk pmm c = find_free_list pmm ty sz z"
  using ok_listed [OF assms] by (simp_all add: find_free_list_def)

lemma claim_free_chunk_eq:
  "claim_free_chunk mem slot elevated pmm ty sz =
     (case find_free_chunk_locked elevated pmm ty sz UVM_PMM_LIST_ZERO of (chunk, pmm) \<Rightarrow>
      case (if chunk = None then find_free_chunk_locked elevated pmm ty sz UVM_PMM_LIST_NO_ZERO
            else (chunk, pmm)) of (chunk, pmm) \<Rightarrow>
        (case chunk of None \<Rightarrow> (None, pmm) | Some c \<Rightarrow> (Some c, claim_step mem slot pmm c)))"
  unfolding claim_free_chunk_def claim_step_def Let_def ..

lemma ok_parent_allocated:
  "pmm_ok E F pmm \<Longrightarrow> pmm_ok E F (case p of None \<Rightarrow> pmm | Some p \<Rightarrow>
      upd_suballoc p (\<lambda>sa. sa\<lparr>sa_allocated := h sa\<rparr>) pmm)"
  by (cases p) (simp_all add: ok_upd_allocated)

lemma valid_parent_allocated:
  "valid_chunk pmm c \<Longrightarrow> valid_chunk (case p of None \<Rightarrow> pmm | Some p \<Rightarrow>
      upd_suballoc p g pmm) c"
  by (cases p) (simp_all add: valid_upd_suballoc)

lemma parent_allocated_simps [simp]:
  "c_state (chunk_of (case p of None \<Rightarrow> pmm | Some p \<Rightarrow> upd_suballoc p g pmm) c) =
      c_state (chunk_of pmm c)"
  "c_in_eviction (chunk_of (case p of None \<Rightarrow> pmm | Some p \<Rightarrow> upd_suballoc p g pmm) c) =
      c_in_eviction (chunk_of pmm c)"
  "c_type (chunk_of (case p of None \<Rightarrow> pmm | Some p \<Rightarrow> upd_suballoc p g pmm) c) = c_type
      (chunk_of pmm c)"
  "c_log2_size (chunk_of (case p of None \<Rightarrow> pmm | Some p \<Rightarrow> upd_suballoc p g pmm) c) =
      c_log2_size (chunk_of pmm c)"
  "root_chunk_from_chunk (case p of None \<Rightarrow> pmm | Some p \<Rightarrow> upd_suballoc p g pmm) c =
      root_chunk_from_chunk pmm c"
  "on_list (case p of None \<Rightarrow> pmm | Some p \<Rightarrow> upd_suballoc p g pmm) c = on_list pmm c"
  by (cases p; simp)+

lemma ok_claim_step:
  assumes ok: "pmm_ok M {} pmm" and c: "valid_chunk pmm c" "c_state (chunk_of pmm c) = UVM_PMM_GPU_CHUNK_STATE_FREE"
    "\<not> chunk_is_in_eviction pmm c"
  shows "pmm_ok M {} (claim_step mem slot pmm c)"
proof -
  let ?p = "case c_parent (chunk_of pmm c) of None \<Rightarrow> pmm
    | Some parent \<Rightarrow> upd_suballoc parent (\<lambda>sa. sa\<lparr>sa_allocated := sa_allocated sa +
        1\<rparr>) pmm"
  let ?r = "root_chunk_from_chunk pmm c"
  have p: "pmm_ok M {} ?p" "valid_chunk ?p c" using ok_parent_allocated [OF ok] valid_parent_allocated [OF c(1)] .
  have q: "pmm_ok (insert ?r M) {c} (chunk_pin ?p c)" "valid_chunk (chunk_pin ?p c) c"
    using ok_set_state_counting [OF p, of UVM_PMM_GPU_CHUNK_STATE_TEMP_PINNED] c(2) by (simp_all add: chunk_pin_eq)
  have "pmm_ok (insert ?r M - {?r}) {} (chunk_update_lists_locked mem slot (chunk_pin ?p c) c)"
    using ok_update_lists [OF q, of mem slot] c(3) by (simp add: state_simps)
  then show ?thesis unfolding claim_step_def Let_def by (rule ok_subset) auto
qed

text \<open>The chunk that is claimed was free, and its list is the one that belongs to its size and type.\<close>

lemma ok_claim_free_chunk:
  assumes ok: "pmm_ok M {} pmm" and claim: "claim_free_chunk mem slot elevated pmm ty sz = (res, q)"
  shows "pmm_ok M {} q"
    and "res = Some c \<Longrightarrow> valid_chunk pmm c \<and> (\<exists>z. find_free_list_chunk pmm c =
        find_free_list pmm ty sz z) \<and>
      (\<exists>s. same_store pmm s \<and> q = claim_step mem slot s c)"
proof -
  obtain r1 q1 where f1: "find_free_chunk_locked elevated pmm ty sz UVM_PMM_LIST_ZERO = (r1, q1)" by fastforce
  obtain r2 q2 where f2: "find_free_chunk_locked elevated q1 ty sz UVM_PMM_LIST_NO_ZERO = (r2, q2)" by fastforce
  obtain r3 q3 where f3: "(if r1 = None then (r2, q2) else (r1, q1)) = (r3, q3)" by fastforce
  note s1 = ok_find_free_chunk [OF ok f1]
  note s2 = ok_find_free_chunk [OF conjunct1 [OF s1] f2]
  have q3: "pmm_ok M {} q3" "same_store pmm q3" using f3 s1 s2 by (auto simp: same_store_def split: if_splits)
  have c: "valid_chunk pmm c \<and> c_state (chunk_of pmm c) = UVM_PMM_GPU_CHUNK_STATE_FREE \<and>
      (\<exists>z. find_free_list_chunk pmm c = find_free_list pmm ty sz z) \<and> \<not> chunk_is_in_eviction
          pmm c" if "r3 = Some c" for c
  proof (cases "r1 = None")
    case True
    then have "c \<in> set (pmm_lists q1 (find_free_list q1 ty sz UVM_PMM_LIST_NO_ZERO))" "\<not>
        chunk_is_in_eviction q1 c"
      using f3 that s2 by auto
    then show ?thesis
      using free_listed [OF conjunct1 [OF s1]] same_storeD [OF conjunct1 [OF conjunct2 [OF s1]]] by metis
  next
    case False
    then show ?thesis using f3 that s1 free_listed [OF ok] by fastforce
  qed
  have q: "(res, q) = (case r3 of None \<Rightarrow> (None, q3) | Some c \<Rightarrow> (Some c, claim_step mem
      slot q3 c))"
    using claim f3 by (auto simp: claim_free_chunk_eq f1 f2 split: if_splits)
  show "pmm_ok M {} q"
  proof (cases r3)
    case (Some c)
    then show ?thesis using q c [OF Some] ok_claim_step [OF q3(1)] same_storeD [OF q3(2)] by simp
  qed (use q q3 in simp)
  show "valid_chunk pmm c \<and> (\<exists>z. find_free_list_chunk pmm c = find_free_list pmm ty sz z) \<and>
      (\<exists>s. same_store pmm s \<and> q = claim_step mem slot s c)" if "res = Some c"
    using that q c q3 by (auto split: option.splits)
qed

text \<open>After a free the list of the root chunk is up to date again.\<close>

lemma ok_chunk_free_locked:
  assumes ok: "pmm_ok E {} pmm" and c: "valid_chunk pmm c" "freeable pmm c"
  shows "pmm_ok (E - {root_chunk_from_chunk pmm c}) {} (chunk_free_locked mem slot pmm c)"
proof (cases "c_in_eviction (chunk_of pmm (root_chunk_from_chunk pmm c))")
  case True
  let ?r = "root_chunk_from_chunk pmm c"
  let ?p = "upd_chunk c (\<lambda>c. c\<lparr>c_va_block := None, c_va_block_page_index := NO_PAGE, c_is_zero
      := False\<rparr>) pmm"
  have ok': "pmm_ok (E - {?r}) {} pmm" by (rule ok_in_eviction [OF ok True])
  have "pmm_ok (E - {?r}) {} ?p" by (rule ok_upd_same_state [OF ok']) (use c(2) in auto)
  moreover have "valid_chunk ?p c" by (rule valid_upd_same_state [OF c(1)]) auto
  ultimately have "pmm_ok (E - {?r}) {} (chunk_pin ?p c)"
    by (rule ok_pin_in_eviction) (use c(2) True in \<open>auto simp: state_simps\<close>)
  then show ?thesis using True by (simp add: chunk_free_locked_def Let_def)
next
  case False
  let ?r = "root_chunk_from_chunk pmm c"
  let ?p = "case c_parent (chunk_of pmm c) of None \<Rightarrow> pmm
    | Some parent \<Rightarrow> upd_suballoc parent (\<lambda>sa. sa\<lparr>sa_allocated := sa_allocated sa -
        1\<rparr>) pmm"
  define q where "q = (if c_state (chunk_of ?p c) = UVM_PMM_GPU_CHUNK_STATE_TEMP_PINNED
      then chunk_unpin ?p c UVM_PMM_GPU_CHUNK_STATE_FREE
      else upd_chunk c (\<lambda>c. c\<lparr>c_state := UVM_PMM_GPU_CHUNK_STATE_FREE, c_va_block := None\<rparr>) ?p)"
  let ?s = "upd_chunk c (\<lambda>c. c\<lparr>c_va_block_page_index := NO_PAGE, c_is_zero := False\<rparr>) q"
  have p: "pmm_ok E {} ?p" "valid_chunk ?p c" using ok_parent_allocated [OF ok] valid_parent_allocated [OF c(1)] .
  have u: "pmm_ok (insert ?r E) {} (upd_chunk c (\<lambda>c. c\<lparr>c_state := UVM_PMM_GPU_CHUNK_STATE_FREE,
      c_va_block := None\<rparr>) ?p)"
    by (rule ok_set_state [OF p]) (use c(2) in auto)
  have uv: "valid_chunk (upd_chunk c (\<lambda>c. c\<lparr>c_state := UVM_PMM_GPU_CHUNK_STATE_FREE, c_va_block
      := None\<rparr>) ?p) c"
    by (rule valid_set_state [OF p(2)]) auto
  have q: "pmm_ok (insert ?r E) {} q" "valid_chunk q c"
    using ok_set_state_counting [OF p, of UVM_PMM_GPU_CHUNK_STATE_FREE "\<lambda>n. n - 1"] c(2) u uv
    by (auto simp: q_def chunk_unpin_eq split: if_splits)
  have qs: "root_chunk_from_chunk q x = root_chunk_from_chunk pmm x"
    "c_in_eviction (chunk_of q x) = c_in_eviction (chunk_of pmm x)"
    "c_state (chunk_of q c) = UVM_PMM_GPU_CHUNK_STATE_FREE" for x
    by (simp_all add: q_def chunk_unpin_eq upd_chunk_of)
  have sc: "pmm_ok (insert ?r E) {c} ?s"
    by (rule ok_upd [OF q(1)]) (use listed_splitD [OF q(1)] in auto)
  have vs: "valid_chunk ?s c" by (rule valid_upd_same_state [OF q(2)]) auto
  have "pmm_ok (insert ?r E - {?r}) {} (chunk_update_lists_locked mem slot ?s c)"
    using ok_update_lists [OF sc vs, of mem slot] False by (simp add: qs)
  then have "pmm_ok (E - {?r}) {} (chunk_update_lists_locked mem slot ?s c)" by (rule ok_subset) auto
  then show ?thesis using False by (simp add: chunk_free_locked_def Let_def q_def)
qed

lemma ok_inject_error: "pmm_ok E F pmm \<Longrightarrow> pmm_ok E F (upd_chunk c (\<lambda>c.
    c\<lparr>c_inject_split_error := b\<rparr>) pmm)"
  by (rule ok_upd_same_state) auto

lemma valid_inject_error:
  "valid_chunk pmm x \<Longrightarrow> valid_chunk (upd_chunk c (\<lambda>c. c\<lparr>c_inject_split_error :=
      b\<rparr>) pmm) x"
  by (rule valid_upd_same_state) auto

lemma ok_try_chunk_free:
  assumes ok: "pmm_ok E {} pmm" and c: "valid_chunk pmm c" "freeable pmm c"
  shows "pmm_ok E {} (snd (try_chunk_free mem slot pmm c))"
    and "c_parent (chunk_of pmm c) = None \<Longrightarrow>
      pmm_ok (E - {root_chunk_from_chunk pmm c}) {} (snd (try_chunk_free mem slot pmm c))"
proof -
  let ?p = "upd_chunk c (\<lambda>c. c\<lparr>c_inject_split_error := False\<rparr>) pmm"
  have "pmm_ok (E - {root_chunk_from_chunk ?p c}) {} (chunk_free_locked mem slot ?p c)"
    by (rule ok_chunk_free_locked) (use c(2) ok_inject_error [OF ok] valid_inject_error [OF c(1)] in auto)
  then have f: "pmm_ok (E - {root_chunk_from_chunk pmm c}) {} (chunk_free_locked mem slot ?p c)" by simp
  then show "pmm_ok E {} (snd (try_chunk_free mem slot pmm c))"
    using ok_inject_error [OF ok] by (auto simp: try_chunk_free_def Let_def intro: ok_subset)
  show "pmm_ok (E - {root_chunk_from_chunk pmm c}) {} (snd (try_chunk_free mem slot pmm c))"
    if "c_parent (chunk_of pmm c) = None"
    using f that by (simp add: try_chunk_free_def Let_def chunk_is_last_allocated_child_def)
qed

lemma parent_unpin [simp]: "x \<noteq> c \<Longrightarrow> c_state (chunk_of (chunk_free_locked mem slot pmm c)
    x) = c_state (chunk_of pmm x)"
  by (auto simp: chunk_free_locked_def Let_def chunk_pin_eq chunk_unpin_eq upd_chunk_of)

lemma listed_root_ptr:
  assumes "pmm_ok E F pmm" "on_list pmm d"
  shows "root_ptr pmm (root_chunk_from_chunk pmm d)"
proof -
  obtain l where "d \<in> set (pmm_lists pmm l)" using assms(2) by (auto simp: on_list_def)
  from listed_valid [OF ok_listed [OF assms(1) this]] show ?thesis by (rule valid_rootD(1))
qed

text \<open>What a free leaves alone.\<close>

lemma chunk_free_locked_frame [simp]:
  "c_type (chunk_of (chunk_free_locked mem slot pmm c) x) = c_type (chunk_of pmm x)"
  "c_address (chunk_of (chunk_free_locked mem slot pmm c) x) = c_address (chunk_of pmm x)"
  "c_log2_size (chunk_of (chunk_free_locked mem slot pmm c) x) = c_log2_size (chunk_of pmm x)"
  "c_parent (chunk_of (chunk_free_locked mem slot pmm c) x) = c_parent (chunk_of pmm x)"
  "c_in_eviction (chunk_of (chunk_free_locked mem slot pmm c) x) = c_in_eviction (chunk_of pmm x)"
  "map_option sa_subchunks (c_suballoc (chunk_of (chunk_free_locked mem slot pmm c) x)) =
     map_option sa_subchunks (c_suballoc (chunk_of pmm x))"
  "root_array (chunk_free_locked mem slot pmm c) = root_array pmm"
  "pmm_chunk_sizes (chunk_free_locked mem slot pmm c) = pmm_chunk_sizes pmm"
  by (auto simp: chunk_free_locked_def Let_def chunk_pin_def chunk_unpin_def upd_suballoc_def upd_chunk_of
      option.map_comp comp_def split: option.splits)

lemma chunk_free_locked_geometry: "same_geometry pmm (chunk_free_locked mem slot pmm c)"
  by (simp add: same_geometry_def)

lemma chunk_free_locked_root [simp]:
  "root_chunk_from_chunk (chunk_free_locked mem slot pmm c) x = root_chunk_from_chunk pmm x"
  "chunk_is_root_chunk (chunk_of (chunk_free_locked mem slot pmm c) x) = chunk_is_root_chunk (chunk_of pmm x)"
  using geometry_eqs [OF chunk_free_locked_geometry] by simp_all

lemma valid_chunk_free_locked:
  assumes x: "valid_chunk pmm x" and c: "\<not> chunk_is_root_chunk (chunk_of pmm c)"
  shows "valid_chunk (chunk_free_locked mem slot pmm c) x"
  using x chunk_free_locked_geometry
proof (rule valid_transfer)
  have "root_chunk_from_chunk pmm x \<noteq> c" using valid_rootD(1) [OF x] c by (auto simp: root_ptr_def)
  then show "c_state (chunk_of (chunk_free_locked mem slot pmm c) (root_chunk_from_chunk pmm x)) \<noteq>
      UVM_PMM_GPU_CHUNK_STATE_PMA_OWNED"
    "x \<noteq> root_chunk_from_chunk pmm x \<Longrightarrow>
      c_state (chunk_of (chunk_free_locked mem slot pmm c) (root_chunk_from_chunk pmm x)) =
          UVM_PMM_GPU_CHUNK_STATE_IS_SPLIT"
    using valid_rootD(4,5) [OF x] by auto
qed simp

text \<open>The subchunks of a chunk to be merged are pinned and taken off their lists.\<close>

lemma pin_for_merge_simps [simp]:
  "root_chunk_from_chunk (pin_for_merge s pmm) x = root_chunk_from_chunk pmm x"
  "chunk_is_root_chunk (chunk_of (pin_for_merge s pmm) x) = chunk_is_root_chunk (chunk_of pmm x)"
  "c_parent (chunk_of (pin_for_merge s pmm) x) = c_parent (chunk_of pmm x)"
  "c_log2_size (chunk_of (pin_for_merge s pmm) x) = c_log2_size (chunk_of pmm x)"
  by (simp_all add: pin_for_merge_def)

lemma ok_pin_for_merge:
  assumes ok: "pmm_ok E {} pmm" and s: "valid_chunk pmm s" "\<not> chunk_is_root_chunk (chunk_of pmm s)"
  shows "pmm_ok E {} (pin_for_merge s pmm)"
    and "valid_chunk pmm x \<Longrightarrow> valid_chunk (pin_for_merge s pmm) x"
proof -
  let ?p = "uvm_pmm_root_list_update_locked pmm s None UVM_PMM_ROOT_LIST_NONE UVM_PMM_ROOT_LIST_OP_DEL_INIT"
  note p = ok_del [OF ok s(1), of UVM_PMM_ROOT_LIST_NONE]
  have ok': "pmm_ok (E - {s}) {} ?p" using p(1) by simp
  have "pmm_ok (E - {s}) {} (upd_chunk s (\<lambda>c. c\<lparr>c_state :=
      UVM_PMM_GPU_CHUNK_STATE_TEMP_PINNED\<rparr>) ?p)"
    by (rule ok_upd [OF ok']) (use p(2) s(2) listed_root_ptr [OF ok'] in \<open>auto simp: on_list_def
        root_ptr_def\<close>)
  then show "pmm_ok E {} (pin_for_merge s pmm)" unfolding pin_for_merge_def by (rule ok_subset) auto
  show "valid_chunk (pin_for_merge s pmm) x" if x: "valid_chunk pmm x"
  proof (rule valid_transfer [OF x])
    show "same_geometry pmm (pin_for_merge s pmm)" by (simp add: pin_for_merge_def same_geometry_def)
    show "c_type (chunk_of (pin_for_merge s pmm) y) = c_type (chunk_of pmm y)" for y by (simp add: pin_for_merge_def)
    have "root_chunk_from_chunk pmm x \<noteq> s" using valid_rootD(1) [OF x] s(2) by (auto simp: root_ptr_def)
    then show "c_state (chunk_of (pin_for_merge s pmm) (root_chunk_from_chunk pmm x)) \<noteq>
        UVM_PMM_GPU_CHUNK_STATE_PMA_OWNED"
      "x \<noteq> root_chunk_from_chunk pmm x \<Longrightarrow>
        c_state (chunk_of (pin_for_merge s pmm) (root_chunk_from_chunk pmm x)) = UVM_PMM_GPU_CHUNK_STATE_IS_SPLIT"
      using valid_rootD(4,5) [OF x] by (auto simp: pin_for_merge_def upd_chunk_of)
  qed
qed

lemma ok_pin_for_merges:
  assumes "pmm_ok E {} pmm" "\<And>s. s \<in> set xs \<Longrightarrow> valid_chunk pmm s \<and> \<not>
      chunk_is_root_chunk (chunk_of pmm s)"
  shows "pmm_ok E {} (fold pin_for_merge xs pmm)"
  using assms by (induction xs arbitrary: pmm) (auto simp: ok_pin_for_merge)

lemma fold_pin_for_merge_simps [simp]:
  "root_chunk_from_chunk (fold pin_for_merge xs pmm) x = root_chunk_from_chunk pmm x"
  by (induction xs arbitrary: pmm) simp_all

lemma ok_free_or_prepare_for_merge:
  assumes ok: "pmm_ok M {} pmm" and c: "valid_chunk pmm c" "freeable pmm c"
    and M: "M \<subseteq> {root_chunk_from_chunk pmm c}"
    and subs: "\<And>p s. c_parent (chunk_of pmm c) = Some p \<Longrightarrow> s \<in> set (sa_subchunks (the
        (c_suballoc (chunk_of pmm p)))) \<Longrightarrow>
      valid_chunk pmm s \<and> \<not> chunk_is_root_chunk (chunk_of pmm s)"
    and leaf: "\<And>p. c_parent (chunk_of pmm c) = Some p \<Longrightarrow>
      \<not> chunk_is_root_chunk (chunk_of pmm c) \<and> c_suballoc (chunk_of pmm p) \<noteq> None"
    and f: "free_or_prepare_for_merge mem slot pmm c = (res, q)"
  shows "pmm_ok (if res = None then {} else {root_chunk_from_chunk pmm c}) {} q"
proof (cases "c_parent (chunk_of pmm c)")
  case None
  then show ?thesis
    using f ok_try_chunk_free(2) [OF ok c None, of mem slot] M by (auto simp: free_or_prepare_for_merge_def
        intro: ok_subset)
next
  case (Some p)
  let ?r = "root_chunk_from_chunk pmm c" and ?p = "chunk_free_locked mem slot pmm c"
  let ?subs = "sa_subchunks (the (c_suballoc (chunk_of ?p p)))"
  let ?q = "\<lambda>n. fold pin_for_merge (take (unat n) ?subs) ?p"
  have okp: "pmm_ok {} {} ?p" by (rule ok_subset [OF ok_chunk_free_locked [OF ok c]]) (use M in auto)
  obtain sa where sa: "c_suballoc (chunk_of pmm p) = Some sa" using leaf [OF Some] by auto
  have "map_option sa_subchunks (c_suballoc (chunk_of ?p p)) = Some (sa_subchunks sa)"
    by (simp only: chunk_free_locked_frame sa option.map)
  then have "?subs = sa_subchunks (the (c_suballoc (chunk_of pmm p)))" unfolding map_option_eq_Some sa by auto
  then have "pmm_ok {} {} (?q n)" for n
    using subs [OF Some] leaf [OF Some]
    by (intro ok_pin_for_merges [OF okp]) (auto dest!: in_set_takeD intro: valid_chunk_free_locked)
  from ok_upd_allocated [OF ok_upd_suballoc [OF this]]
  have "pmm_ok {?r} {} (upd_suballoc p (\<lambda>sa. sa\<lparr>sa_allocated := n\<rparr>) (upd_suballoc ?r g
      (?q n)))" for n g .
  then show ?thesis
    using f okp Some by (auto simp: free_or_prepare_for_merge_def Let_def split: if_splits)
qed

lemma ok_pinned_root:
  assumes ok: "pmm_ok E F pmm" and r: "root_pinned (chunk_of pmm r)" "r \<notin> E"
  shows "r \<notin> set (pmm_lists pmm Va_Block_Used)" "r \<notin> set (pmm_lists pmm Va_Block_Unused)"
  using ok_listed [OF ok, of r] r by (fastforce simp: evictable_def)+

text \<open>The count of pinned leaves of a pinned root changes.\<close>

lemma ok_recount:
  assumes ok: "pmm_ok M {} pmm" and r: "root_pinned (chunk_of pmm r) \<or> r \<in> M"
    and q: "pmm_ok (insert r M) {} q" "pmm_lists q = pmm_lists pmm"
  shows "pmm_ok M {} q"
proof (cases "r \<in> M")
  case False
  then have "pmm_ok (insert r M - {r}) {} q"
    using ok_pinned_root [OF ok] r q by (intro ok_unlisted_root) auto
  then show ?thesis by (rule ok_subset) auto
qed (use q in \<open>simp add: insert_absorb\<close>)

lemma ok_merge_gpu_chunk:
  assumes ok: "pmm_ok M {} pmm" and p: "valid_chunk pmm p" "c_state (chunk_of pmm p) =
      UVM_PMM_GPU_CHUNK_STATE_IS_SPLIT"
    and child: "freeable pmm (hd (sa_subchunks (the (c_suballoc (chunk_of pmm p)))))"
    and pinned: "c_state (chunk_of pmm (hd (sa_subchunks (the (c_suballoc (chunk_of pmm p)))))) =
      UVM_PMM_GPU_CHUNK_STATE_TEMP_PINNED \<Longrightarrow>
        root_pinned (chunk_of pmm (root_chunk_from_chunk pmm p)) \<or> root_chunk_from_chunk pmm p \<in> M"
    and below: "\<And>d. on_list pmm d \<Longrightarrow> root_chunk_from_chunk pmm d = p \<Longrightarrow> d = p"
  shows "pmm_ok M {} (fst (merge_gpu_chunk pmm p))"
proof -
  let ?r = "root_chunk_from_chunk pmm p"
  let ?sub = "chunk_of pmm (hd (sa_subchunks (the (c_suballoc (chunk_of pmm p)))))"
  let ?st = "c_state ?sub"
  let ?fin = "upd_chunk p (\<lambda>c. c\<lparr>c_state := ?st, c_suballoc := None, c_is_zero := False\<rparr>)"
  have fin: "pmm_ok E' {} (?fin q)"
    if q: "pmm_ok E' {} q" "c_state (chunk_of q p) = UVM_PMM_GPU_CHUNK_STATE_IS_SPLIT" "on_list q = on_list pmm"
      "root_chunk_from_chunk q = root_chunk_from_chunk pmm" "valid_chunk q p"
      and st: "?r \<in> E' \<or> ?st = UVM_PMM_GPU_CHUNK_STATE_ALLOCATED" for q E'
  proof (rule ok_upd [OF q(1)])
    have "p \<in> E' \<or> ?st = UVM_PMM_GPU_CHUNK_STATE_ALLOCATED"
      if "l \<in> {Va_Block_Used, Va_Block_Unused}" "p \<in> set (pmm_lists q l)" for l
    proof -
      have "chunk_is_root_chunk (chunk_of q p)" using ok_listed [OF q(1) that(2)] that(1) by auto
      then have "?r = p" using valid_root [OF q(5)] q(4) by simp
      then show ?thesis using st by simp
    qed
    moreover have "evictable (x\<lparr>c_state := ?st, c_suballoc := None, c_is_zero := False\<rparr>)"
      if "?st = UVM_PMM_GPU_CHUNK_STATE_ALLOCATED" for x
      using that by (simp add: evictable_def root_pinned_def)
    ultimately show "p \<in> E' \<or> (\<forall>l\<in>{Va_Block_Used, Va_Block_Unused}. p \<in> set (pmm_lists
        q l) \<longrightarrow> evictable (chunk_of q p) \<longrightarrow>
        evictable (chunk_of q p\<lparr>c_state := ?st, c_suballoc := None, c_is_zero := False\<rparr>))"
      by blast
  qed (use child below q in auto)
  have "pmm_ok (insert ?r M) {} (?fin (upd_suballoc ?r g pmm))" if "?st = UVM_PMM_GPU_CHUNK_STATE_TEMP_PINNED" for g
    by (rule fin [OF ok_upd_suballoc [OF ok]]) (use p that in \<open>auto intro: valid_upd_suballoc\<close>)
  then have temp: "pmm_ok M {} (?fin (upd_suballoc ?r g pmm))" if "?st = UVM_PMM_GPU_CHUNK_STATE_TEMP_PINNED" for g
    using that pinned by (intro ok_recount [OF ok, of ?r]) auto
  have alloc: "pmm_ok M {} (?fin pmm)" if "?st = UVM_PMM_GPU_CHUNK_STATE_ALLOCATED"
    by (rule fin [OF ok]) (use p that in auto)
  let ?u = "upd_chunk p (\<lambda>c. c\<lparr>c_va_block := c_va_block ?sub, c_va_block_page_index :=
      c_va_block_page_index ?sub,
    c_is_referenced := c_is_referenced ?sub\<rparr>) pmm"
  have "pmm_ok M {} ?u" by (rule ok_upd_same_state [OF ok]) auto
  moreover have "valid_chunk ?u p" by (rule valid_upd_same_state [OF p(1)]) auto
  ultimately have user: "pmm_ok M {} (?fin ?u)" if "?st = UVM_PMM_GPU_CHUNK_STATE_ALLOCATED"
    using p that by (intro fin) auto
  show ?thesis
  proof (cases "?st = UVM_PMM_GPU_CHUNK_STATE_ALLOCATED")
    case True
    then show ?thesis using alloc user by (simp add: merge_gpu_chunk_def Let_def)
  next
    case False
    then show ?thesis using child temp by (simp add: merge_gpu_chunk_def Let_def)
  qed
qed

text \<open>A chunk that is neither listed nor a root can be overwritten.\<close>

lemma ok_fresh:
  assumes ok: "pmm_ok E F pmm" and s: "\<not> on_list pmm s" "s \<notin> range (root_array pmm)"
  shows "pmm_ok E F (upd_chunk s f pmm)" (is "pmm_ok E F ?q")
proof -
  have keep: "root_chunk_from_chunk ?q x = root_chunk_from_chunk pmm x" if "x \<noteq> s" for x
    using that by (simp add: root_chunk_from_chunk_def root_chunk_from_address_def upd_chunk_of)
  have ns: "root_chunk_from_chunk pmm x \<noteq> s" "root_chunk_from_chunk ?q x \<noteq> s" for x
    using s(2) rangeI [of "root_array pmm"] unfolding root_chunk_from_chunk_def root_chunk_from_address_def
        upd_chunk_lists
    by metis+
  have root: "root_ptr ?q x = root_ptr pmm x" for x
    using ns keep [of x] by (cases "x = s") (auto simp: root_ptr_def upd_chunk_of)
  have v: "valid_chunk ?q x = valid_chunk pmm x" if "x \<noteq> s" for x
    using that ns [of x] by (simp add: valid_chunk_def Let_def keep root upd_chunk_of)
  have fl: "find_free_list_chunk ?q x = find_free_list_chunk pmm x" if "x \<noteq> s" for x
    using that by (simp add: find_free_list_chunk_def find_free_list_def upd_chunk_of)
  have lo: "listed_ok E F ?q l x = listed_ok E F pmm l x" if "x \<noteq> s" for l x
    using that by (cases l) (simp_all add: v fl upd_chunk_of)
  show ?thesis
  proof (rule pmm_okI, unfold root upd_chunk_lists)
    show "listed_ok E F ?q l x" if x: "x \<in> set (pmm_lists pmm l)" for l x
    proof -
      have "x \<noteq> s" using x s(1) by (auto simp: on_list_def)
      then show ?thesis using ok_listed [OF ok x] by (simp add: lo)
    qed
  qed (use ok_distinct [OF ok] ok_unique [OF ok] ok_state [OF ok] ok_on_list [OF ok] in auto)
qed

lemma fresh_subchunks:
  assumes "alloc_subchunks alloc c chunk n sz is pmm = (b, subs, q)" "pmm_ok E F pmm"
    "\<And>i s. alloc i = Some s \<Longrightarrow> \<not> on_list pmm s \<and> s \<notin> range (root_array
        pmm) \<and> s \<noteq> chunk"
  shows "pmm_ok E F q \<and> pmm_lists q = pmm_lists pmm \<and> root_array q = root_array pmm \<and>
    pmm_chunk_sizes q = pmm_chunk_sizes pmm \<and>
    (\<forall>x. x = chunk \<or> x \<in> range (root_array pmm) \<longrightarrow> pmm_chunks q x = pmm_chunks pmm x)"
  using assms
proof (induction "is" arbitrary: pmm b subs)
  case (Cons i "is")
  show ?case
  proof (cases "c_inject_split_error c \<and> i = n - 1 \<or> alloc i = None")
    case True
    then have "q = pmm" using Cons.prems(1) by (auto split: if_splits)
    then show ?thesis using Cons.prems(2) by simp
  next
    case False
    then obtain s where s: "alloc i = Some s" "\<not> (c_inject_split_error c \<and> i = n - 1)" by auto
    let ?p = "upd_chunk s (\<lambda>_. subchunk_init c chunk i sz) pmm"
    obtain b' subs' where r: "alloc_subchunks alloc c chunk n sz is ?p = (b', subs', q)"
      using Cons.prems(1) s by (auto split: prod.splits)
    have "pmm_ok E F ?p" by (rule ok_fresh [OF Cons.prems(2)]) (use Cons.prems(3) [OF s(1)] in auto)
    from Cons.IH [OF r this] Cons.prems(3) show ?thesis using s(1) by (auto simp: upd_chunk_of)
  qed
qed auto

lemma upd_chunk_compose: "upd_chunk c f (upd_chunk c g pmm) = upd_chunk c (\<lambda>x. f (g x)) pmm"
  by (simp add: upd_chunk_def)

lemma root_in_array: "root_chunk_from_chunk pmm c \<in> range (root_array pmm)"
  by (simp add: root_chunk_from_chunk_def root_chunk_from_address_def)

lemma ok_split_gpu_chunk:
  assumes ok: "pmm_ok M {} pmm" and c: "valid_chunk pmm c" "freeable pmm c"
    and pinned: "c_state (chunk_of pmm c) = UVM_PMM_GPU_CHUNK_STATE_TEMP_PINNED \<Longrightarrow>
      root_pinned (chunk_of pmm (root_chunk_from_chunk pmm c)) \<or> root_chunk_from_chunk pmm c \<in> M"
    and fresh: "\<And>i s. alloc i = Some s \<Longrightarrow> \<not> on_list pmm s \<and> s \<notin> range
        (root_array pmm) \<and> s \<noteq> c"
    and split: "split_gpu_chunk suballoc_ok alloc pmm c = (status, q, freed)"
  shows "pmm_ok M {} q"
proof -
  let ?r = "root_chunk_from_chunk pmm c" and ?c = "chunk_of pmm c"
  let ?sz = "uvm_chunk_find_prev_size (pmm_chunk_sizes pmm (c_type ?c)) (uvm_gpu_chunk_get_size ?c)"
  let ?n = "unat (uvm_gpu_chunk_get_size ?c div ?sz)"
  obtain b subs p where a: "alloc_subchunks alloc ?c c ?n ?sz [0..<?n] pmm = (b, subs, p)" by (metis prod_cases3)
  have p: "pmm_ok M {} p" "pmm_lists p = pmm_lists pmm" "root_array p = root_array pmm" "chunk_of p c = ?c"
    "chunk_of p ?r = chunk_of pmm ?r" "pmm_chunk_sizes p = pmm_chunk_sizes pmm"
    using fresh_subchunks [OF a ok fresh] root_in_array [of pmm c] by auto
  have pr: "root_chunk_from_chunk p c = ?r"
    using p by (simp add: root_chunk_from_chunk_def root_chunk_from_address_def)
  have rp: "root_ptr p ?r = root_ptr pmm ?r"
    using p by (simp add: root_ptr_def root_chunk_from_chunk_def root_chunk_from_address_def)
  have vp: "valid_chunk p c" using c(1) unfolding valid_chunk_def Let_def pr rp p(4-6) .
  let ?sa = "\<lparr>sa_allocated = of_nat ?n, sa_pinned_leaf_chunks = 0, sa_subchunks = subs\<rparr>"
  let ?set = "upd_chunk c (\<lambda>c. c\<lparr>c_suballoc := Some ?sa\<rparr>)"
  let ?split = "upd_chunk c (\<lambda>c. c\<lparr>c_state := UVM_PMM_GPU_CHUNK_STATE_IS_SPLIT\<rparr>)"
  have alloc: "pmm_ok M {} (?split (upd_chunk c (\<lambda>c. c\<lparr>c_va_block := None, c_va_block_page_index
      := NO_PAGE,
      c_is_referenced := False\<rparr>) (?set p)))"
    if "c_state ?c = UVM_PMM_GPU_CHUNK_STATE_ALLOCATED"
    unfolding upd_chunk_compose
    by (rule ok_upd [OF p(1)]) (use that p(4) in \<open>auto simp: evictable_def root_pinned_def\<close>)
  have set: "pmm_ok (insert ?r M) {} (?set p)"
    by (rule ok_set_state [OF p(1) vp]) (use c(2) p(4) pr in auto)
  have vset: "valid_chunk (?set p) c" by (rule valid_upd_same_state [OF vp]) auto
  have split': "pmm_ok M {} (?split s)"
    if s: "pmm_ok (insert ?r M) {} s" "valid_chunk s c" "c_state (chunk_of s c) = UVM_PMM_GPU_CHUNK_STATE_TEMP_PINNED"
      "root_chunk_from_chunk s c = ?r" "pmm_lists s = pmm_lists pmm"
      "c_state ?c = UVM_PMM_GPU_CHUNK_STATE_TEMP_PINNED" for s
  proof (rule ok_recount [OF ok pinned [OF s(6)]])
    show "pmm_ok (insert ?r M) {} (?split s)" by (rule ok_set_state [OF s(1,2)]) (use s in auto)
  qed (use s(5) in simp)
  have temp: "pmm_ok M {} (?split (upd_suballoc ?r g (?set p)))" "pmm_ok M {} (?split (upd_suballoc ?r h
      (upd_suballoc ?r g (?set p))))"
    if st: "c_state ?c = UVM_PMM_GPU_CHUNK_STATE_TEMP_PINNED" for g h
    using ok_upd_suballoc [OF set, of ?r g] ok_upd_suballoc [OF ok_upd_suballoc [OF set, of ?r g], of ?r h]
      valid_upd_suballoc [OF vset, of ?r g] valid_upd_suballoc [OF valid_upd_suballoc [OF vset, of ?r g], of ?r
          h] st p pr
    by (auto intro!: split')
  show ?thesis
    using split ok p(1) c(2) alloc temp a by (auto simp: split_gpu_chunk_def Let_def split: if_splits)
qed

lemma hweight_mask:
  assumes "j \<le> 31"
  shows "hweight_long (m AND (push_bit j 1 - 1)) = card {i. i < j \<and> bit m i}"
proof -
  have "push_bit j 1 - 1 = (mask j :: NvU32)" by (simp add: mask_eq_exp_minus_1 push_bit_eq_mult)
  then have "hweight_long (m AND (push_bit j 1 - 1)) = card (set (filter (bit (m AND mask j)) [0..<32]))"
    unfolding hweight_long_def by (simp only: distinct_card distinct_filter distinct_upt)
  also have "set (filter (bit (m AND mask j)) [0..<32]) = {i. i < j \<and> bit m i}"
    using assms by (auto simp: bit_and_iff bit_mask_iff)
  finally show ?thesis .
qed

lemma free_list_exact:
  assumes c: "valid_chunk pmm c" and k: "k \<le> 21" "bit (pmm_chunk_sizes pmm ty) k"
    and eq: "find_free_list_chunk pmm c = find_free_list pmm ty (push_bit k 1) z"
  shows "c_type (chunk_of pmm c) = ty" "c_log2_size (chunk_of pmm c) = k"
    "c_is_zero (chunk_of pmm c) \<longleftrightarrow> z = UVM_PMM_LIST_ZERO"
proof -
  show ty: "c_type (chunk_of pmm c) = ty" using eq by (simp add: find_free_list_chunk_def find_free_list_def)
  let ?j = "c_log2_size (chunk_of pmm c)" and ?m = "pmm_chunk_sizes pmm ty"
  have j: "?j \<le> 21" "bit ?m ?j" using c ty by (auto simp: valid_chunk_def Let_def)
  have card: "card {i. i < ?j \<and> bit ?m i} = card {i. i < k \<and> bit ?m i}"
    using eq j(1) k(1) unfolding find_free_list_chunk_def find_free_list_def uvm_gpu_chunk_get_size_def ty
    by (simp add: hweight_mask del: push_bit_of_1)
  have less: "card {i. i < a \<and> bit ?m i} < card {i. i < b \<and> bit ?m i}" if "a < b" "bit ?m a" for a b
    using that by (intro psubset_card_mono) auto
  show "?j = k"
    using card less [of ?j k, OF _ j(2)] less [of k ?j, OF _ k(2)] by (cases rule: linorder_cases [of ?j k]) simp_all
  show "c_is_zero (chunk_of pmm c) \<longleftrightarrow> z = UVM_PMM_LIST_ZERO"
    using eq by (auto simp: find_free_list_chunk_def find_free_list_def split: if_splits)
qed

lemma max_size: "UVM_CHUNK_SIZE_MAX = push_bit 21 1"
  by simp

text \<open>On the lists of the largest size there are root chunks only.\<close>

lemma free_root_listed:
  assumes ok: "pmm_ok M {} pmm" and c: "c \<in> set (pmm_lists pmm (find_free_list pmm ty UVM_CHUNK_SIZE_MAX z))"
  shows "valid_chunk pmm c" "c_state (chunk_of pmm c) = UVM_PMM_GPU_CHUNK_STATE_FREE" "root_ptr pmm c"
    "c_type (chunk_of pmm c) = ty"
proof -
  note f = free_listed [OF ok c]
  show v: "valid_chunk pmm c" and "c_state (chunk_of pmm c) = UVM_PMM_GPU_CHUNK_STATE_FREE" by (rule f)+
  have t: "c_type (chunk_of pmm c) = ty" using f(3) by (simp add: find_free_list_chunk_def find_free_list_def)
  then show "c_type (chunk_of pmm c) = ty" .
  have b: "bit (pmm_chunk_sizes pmm ty) 21" using v t by (auto simp: valid_chunk_def Let_def)
  have "chunk_is_root_chunk (chunk_of pmm c)"
    using free_list_exact(2) [OF v _ b f(3) [unfolded max_size]] by (simp add: root_size)
  then show "root_ptr pmm c" using valid_root [OF v] by (simp add: root_ptr_def)
qed

lemma off_root:
  assumes ok: "pmm_ok E F pmm" and r: "c_state (chunk_of pmm r) \<noteq> UVM_PMM_GPU_CHUNK_STATE_IS_SPLIT"
      "\<not> on_list pmm r"
    and d: "on_list pmm d"
  shows "root_chunk_from_chunk pmm d \<noteq> r"
  using listed_splitD(2) [OF ok d] r d by metis

text \<open>A root chunk that is off the lists, with nothing below it, goes back to the physical allocator.\<close>

lemma ok_free_root_chunk:
  assumes ok: "pmm_ok M {} pmm" and r: "root_ptr pmm r" "c_state (chunk_of pmm r) =
      UVM_PMM_GPU_CHUNK_STATE_TEMP_PINNED"
    "\<not> on_list pmm r"
  shows "pmm_ok M {} (fst (free_root_chunk pmm r mode))"
proof -
  have off: False if "on_list pmm d" "root_chunk_from_chunk pmm d = r" for d
    using off_root [OF ok, of r d] r(2,3) that by simp
  have "pmm_ok M {} (upd_chunk r (\<lambda>c. c\<lparr>c_state := UVM_PMM_GPU_CHUNK_STATE_PMA_OWNED\<rparr>) pmm)"
  proof (rule ok_upd [OF ok])
    show "c_state (chunk_of pmm r\<lparr>c_state := UVM_PMM_GPU_CHUNK_STATE_PMA_OWNED\<rparr>) \<noteq>
        UVM_PMM_GPU_CHUNK_STATE_PMA_OWNED \<and>
        (d \<noteq> r \<longrightarrow> c_state (chunk_of pmm r\<lparr>c_state :=
            UVM_PMM_GPU_CHUNK_STATE_PMA_OWNED\<rparr>) =
          UVM_PMM_GPU_CHUNK_STATE_IS_SPLIT)"
      if "on_list pmm d" "root_chunk_from_chunk pmm d = r" for d using off [OF that] ..
  qed (use r(3) in \<open>auto simp: on_list_def\<close>)
  then show ?thesis
    using r(1) by (simp add: free_root_chunk_def chunk_unpin_def root_ptr_def Let_def)
qed

lemma zero_lists_empty:
  assumes "pmm_lists pmm (find_free_list pmm ty sz UVM_PMM_LIST_ZERO) = []"
    "pmm_lists pmm (find_free_list pmm ty sz UVM_PMM_LIST_NO_ZERO) = []"
  shows "pmm_lists pmm (find_free_list pmm ty sz z) = []"
  using assms by (cases z) simp_all

lemma free_next_cases:
  obtains (none) "free_next_available_root_chunk pmm ty = (False, pmm, [])"
      "\<And>z. pmm_lists pmm (find_free_list pmm ty UVM_CHUNK_SIZE_MAX z) = []"
    | (found) r z where "r \<in> set (pmm_lists pmm (find_free_list pmm ty UVM_CHUNK_SIZE_MAX z))"
        "free_next_available_root_chunk pmm ty = (True, release_root_chunk pmm r)"
proof -
  let ?l = "\<lambda>z. pmm_lists pmm (find_free_list pmm ty UVM_CHUNK_SIZE_MAX z)"
  note defs = free_next_available_root_chunk_def [of pmm ty] release_root_chunk_def Let_def list_first_chunk_def
  show thesis
  proof (cases "?l UVM_PMM_LIST_NO_ZERO")
    case (Cons c cs)
    then show thesis
      by (intro found [of c UVM_PMM_LIST_NO_ZERO]) (simp_all add: defs chunk_pin_eq split: prod.splits)
  next
    case Nil1: Nil
    show thesis
    proof (cases "?l UVM_PMM_LIST_ZERO")
      case (Cons c cs)
      then show thesis using Nil1
        by (intro found [of c UVM_PMM_LIST_ZERO]) (simp_all add: defs chunk_pin_eq split: prod.splits)
    next
      case Nil2: Nil
      show thesis by (rule none) (simp_all add: defs Nil1 Nil2 zero_lists_empty)
    qed
  qed
qed

lemma ok_release_root_chunk:
  assumes ok: "pmm_ok M {} pmm" and r: "r \<in> set (pmm_lists pmm (find_free_list pmm ty UVM_CHUNK_SIZE_MAX z))"
  shows "pmm_ok M {} (fst (release_root_chunk pmm r))"
proof -
  note fr = free_root_listed [OF ok r]
  let ?p = "uvm_pmm_root_list_update_locked pmm r None UVM_PMM_ROOT_LIST_NONE UVM_PMM_ROOT_LIST_OP_DEL_INIT"
  note p = ok_del [OF ok fr(1), of UVM_PMM_ROOT_LIST_NONE]
  have "pmm_ok (insert r (M - {r})) {r} (chunk_pin ?p r)"
    using ok_set_state_counting(1) [OF p(1), of r UVM_PMM_GPU_CHUNK_STATE_TEMP_PINNED] fr
    by (simp add: chunk_pin_eq root_ptrD)
  then have pin: "pmm_ok M {} (chunk_pin ?p r)"
    by (rule ok_mono) (use p(2) in \<open>auto simp: chunk_pin_eq\<close>)
  have "root_ptr (chunk_pin ?p r) r" using fr(3) by (simp add: chunk_pin_eq root_ptr_def)
  from ok_free_root_chunk [OF pin this] p(2) show ?thesis
    unfolding release_root_chunk_def root_ptrD(2) [OF fr(3)] by (simp add: chunk_pin_eq)
qed

lemma ok_free_next_available:
  assumes ok: "pmm_ok M {} pmm"
  shows "pmm_ok M {} (fst (snd (free_next_available_root_chunk pmm ty)))"
  by (cases rule: free_next_cases [of pmm ty]) (use ok ok_release_root_chunk [OF ok] in auto)

text \<open>A root chunk with nothing on the lists can be set up anew.\<close>

lemma ok_reset_root:
  assumes ok: "pmm_ok M {} pmm" and r: "root_ptr pmm r"
    and keep: "\<And>x. c_address (f x) = c_address x" "\<And>x. c_log2_size (f x) = c_log2_size x"
    and off: "\<And>d. on_list pmm d \<Longrightarrow> root_chunk_from_chunk pmm d \<noteq> r"
  shows "pmm_ok M {} (upd_chunk r f pmm)" (is "pmm_ok M {} ?p")
proof -
  have geo: "same_geometry pmm ?p" by (rule upd_chunk_geometry) (simp_all add: keep)
  show ?thesis
  proof (rule ok_store [OF ok geo])
    fix l c assume c: "c \<in> set (pmm_lists pmm l)" "listed_ok M {} pmm l c"
    have "root_chunk_from_chunk pmm c \<noteq> r" using c(1) by (intro off) (auto simp: on_list_def)
    moreover from this have "c \<noteq> r" using root_ptrD(2) [OF r] by auto
    ultimately have "valid_chunk ?p c = valid_chunk pmm c" "chunk_of ?p c = chunk_of pmm c"
      "find_free_list_chunk ?p c = find_free_list_chunk pmm c"
      by (simp_all add: valid_chunk_def Let_def geometry_eqs [OF geo] upd_chunk_of find_free_list_chunk_def
          find_free_list_def)
    then show "listed_ok M {} ?p l c" using c(2) by (cases l) simp_all
  qed simp_all
qed

lemma ok_init_root_chunk:
  assumes ok: "pmm_ok M {} pmm" and r: "root_ptr pmm r" "c_state (chunk_of pmm r) = UVM_PMM_GPU_CHUNK_STATE_PMA_OWNED"
    "\<not> c_in_eviction (chunk_of pmm r)" "bit (pmm_chunk_sizes pmm ty) 21"
    and st: "st \<in> {UVM_PMM_GPU_CHUNK_STATE_FREE, UVM_PMM_GPU_CHUNK_STATE_TEMP_PINNED}"
  shows "pmm_ok M {} (init_root_chunk mem slot pmm ty r st is_zero)"
proof -
  let ?f = "\<lambda>c. c\<lparr>c_type := ty, c_state := st, c_is_zero := is_zero\<rparr>"
  let ?p = "upd_chunk r ?f pmm"
  have geo: "same_geometry pmm ?p" by (rule upd_chunk_geometry) auto
  have p: "pmm_ok M {} ?p" by (rule ok_reset_root [OF ok r(1)]) (use listed_splitD(1) [OF ok] r(2) in auto)
  have v: "valid_chunk ?p r"
    using r st by (auto simp: valid_chunk_def Let_def geometry_eqs [OF geo] root_ptrD upd_chunk_of)
  have "pmm_ok (M - {r}) {} (chunk_update_lists_locked mem slot ?p r)"
    using ok_update_lists [OF p v, of mem slot] r(3) by (simp add: root_ptrD [OF r(1)])
  then show ?thesis unfolding init_root_chunk_def by (rule ok_subset) auto
qed

lemma ok_evicted_set_type:
  assumes ok: "pmm_ok M {} pmm" and r: "root_ptr pmm r" "c_state (chunk_of pmm r) =
      UVM_PMM_GPU_CHUNK_STATE_TEMP_PINNED"
    "\<not> on_list pmm r"
  shows "pmm_ok M {} (evicted_set_type pmm r ty)"
  unfolding evicted_set_type_def by (rule ok_reset_root [OF ok r(1)]) (use off_root [OF ok] r(2,3) in auto)

lemma ok_alloc_kernel_unpin:
  assumes ok: "pmm_ok M {} pmm" and c: "valid_chunk pmm c" "c_state (chunk_of pmm c) =
      UVM_PMM_GPU_CHUNK_STATE_TEMP_PINNED"
    "\<not> uvm_gpu_chunk_is_user (chunk_of pmm c)"
  shows "pmm_ok M {} (alloc_kernel_unpin pmm c)"
proof -
  let ?r = "root_chunk_from_chunk pmm c" and ?p = "chunk_unpin pmm c UVM_PMM_GPU_CHUNK_STATE_ALLOCATED"
  have "pmm_ok (insert ?r M) {} ?p"
    using ok_set_state_counting(1) [OF ok c(1), of UVM_PMM_GPU_CHUNK_STATE_ALLOCATED "\<lambda>n. n - 1"] c(2)
    by (simp add: chunk_unpin_eq)
  then have "pmm_ok (insert ?r M - {?r}) {} ?p"
    by (rule ok_kernel) (use c(3) valid_rootD(3) [OF c(1)] in \<open>simp add: chunk_unpin_eq
        uvm_gpu_chunk_is_user_def\<close>)
  then have "pmm_ok M {} ?p" by (rule ok_subset) auto
  then show ?thesis unfolding alloc_kernel_unpin_def by (rule ok_upd_same_state) auto
qed

lemma ok_pin_free_chunks_func:
  assumes ok: "pmm_ok M {} pmm" and c: "valid_chunk pmm c" "chunk_is_in_eviction pmm c"
  shows "pmm_ok M {} (pin_free_chunks_func pmm c)"
proof (cases "c_state (chunk_of pmm c) = UVM_PMM_GPU_CHUNK_STATE_FREE")
  case True
  let ?r = "root_chunk_from_chunk pmm c"
  let ?p = "uvm_pmm_root_list_update_locked pmm c None UVM_PMM_ROOT_LIST_EVICTION UVM_PMM_ROOT_LIST_OP_DEL_INIT"
  note p = ok_del [OF ok c(1), of UVM_PMM_ROOT_LIST_EVICTION]
  have "pmm_ok (insert ?r (M - {c})) {c} (chunk_pin ?p c)"
    using ok_set_state_counting(1) [OF p(1), of c UVM_PMM_GPU_CHUNK_STATE_TEMP_PINNED] c True by (simp add:
        chunk_pin_eq)
  then have "pmm_ok (insert ?r M) {} (chunk_pin ?p c)"
    by (rule ok_mono) (use p(2) in \<open>auto simp: chunk_pin_eq\<close>)
  then have "pmm_ok (insert ?r M - {?r}) {} (chunk_pin ?p c)"
    by (rule ok_in_eviction) (use c(2) in \<open>simp add: state_simps\<close>)
  then have "pmm_ok M {} (chunk_pin ?p c)" by (rule ok_subset) auto
  then show ?thesis
    using True by (simp add: pin_free_chunks_func_def Let_def) (rule ok_parent_allocated)
qed (use ok in \<open>simp add: pin_free_chunks_func_def\<close>)

lemma ok_clear_in_eviction:
  assumes ok: "pmm_ok M {} pmm"
  shows "pmm_ok M {} (uvm_gpu_chunk_set_in_eviction r False pmm)"
  unfolding uvm_gpu_chunk_set_in_eviction_def by (rule ok_upd [OF ok]) (use listed_splitD [OF ok] in auto)

lemma ok_evict_root_chunk_done:
  assumes ok: "pmm_ok M {} pmm" and r: "c_state (chunk_of pmm r) = UVM_PMM_GPU_CHUNK_STATE_TEMP_PINNED"
  shows "pmm_ok M {} (evict_root_chunk_done pmm r)"
  unfolding evict_root_chunk_done_def
  by (rule ok_upd_same_state [OF ok_clear_in_eviction [OF ok]]) (use r in \<open>auto simp:
      uvm_gpu_chunk_set_in_eviction_def\<close>)

lemma ok_evict_root_chunk_error:
  assumes ok: "pmm_ok M {} pmm" and r: "valid_chunk pmm r" "chunk_is_root_chunk (chunk_of pmm r)"
  shows "pmm_ok M {} (evict_root_chunk_error mem slot pmm r)"
proof -
  let ?p = "uvm_gpu_chunk_set_in_eviction r False pmm"
  have v: "valid_chunk ?p r" unfolding uvm_gpu_chunk_set_in_eviction_def by (rule valid_upd_same_state [OF r(1)]) auto
  have "root_chunk_from_chunk ?p r = r" using valid_root [OF r] by (simp add: uvm_gpu_chunk_set_in_eviction_def)
  then have "pmm_ok (M - {r}) {} (chunk_update_lists_locked mem slot ?p r)"
    using ok_update_lists [OF ok_clear_in_eviction [OF ok] v, of mem slot]
    by (simp add: uvm_gpu_chunk_set_in_eviction_def upd_chunk_of)
  then show ?thesis unfolding evict_root_chunk_error_def by (rule ok_subset) auto
qed

lemma ok_devmem_page_free:
  assumes ok: "pmm_ok M {} pmm" and c: "valid_chunk pmm c" "\<not> on_list pmm c"
  shows "pmm_ok M {} (devmem_page_free pmm c)"
proof -
  let ?p = "upd_chunk c (\<lambda>c. c\<lparr>c_is_referenced := False\<rparr>) pmm"
  have p: "pmm_ok M {} ?p" by (rule ok_upd_same_state [OF ok]) auto
  have v: "valid_chunk ?p c" by (rule valid_upd_same_state [OF c(1)]) auto
  show ?thesis
    using ok_put [OF p v, of Va_Block_Lazy_Free UVM_PMM_ROOT_LIST_OP_ADD_TAIL] v c(2)
    by (auto simp: devmem_page_free_def intro: ok_subset)
qed

lemma ok_lazy_free_first:
  assumes ok: "pmm_ok M {} pmm" and f: "lazy_free_first pmm = Some (c, q)"
  shows "pmm_ok M {} q"
proof -
  have c: "c \<in> set (pmm_lists pmm Va_Block_Lazy_Free)"
    and q: "q = uvm_pmm_root_list_update_locked pmm c None UVM_PMM_ROOT_LIST_NONE UVM_PMM_ROOT_LIST_OP_DEL_INIT"
    using f by (auto simp: lazy_free_first_def split: list.splits)
  show ?thesis unfolding q using ok_del(1) [OF ok listed_valid [OF ok_listed [OF ok c]]] by (auto intro: ok_subset)
qed

lemma pick_cases:
  obtains (none) "pick_root_chunk_to_evict pmm = (None, pmm)"
      "\<And>z. pmm_lists pmm (find_free_list pmm UVM_PMM_GPU_MEMORY_TYPE_USER UVM_CHUNK_SIZE_MAX z) = []"
      "pmm_lists pmm Va_Block_Unused = []" "pmm_lists pmm Va_Block_Used = []"
    | (free) c z where "c \<in> set (pmm_lists pmm (find_free_list pmm UVM_PMM_GPU_MEMORY_TYPE_USER
        UVM_CHUNK_SIZE_MAX z))"
        "pick_root_chunk_to_evict pmm = (Some (root_chunk_from_chunk pmm c), chunk_start_eviction pmm c)"
    | (listed) c l where "l \<in> {Va_Block_Unused, Va_Block_Used}" "c \<in> set (pmm_lists pmm l)"
        "\<And>z. pmm_lists pmm (find_free_list pmm UVM_PMM_GPU_MEMORY_TYPE_USER UVM_CHUNK_SIZE_MAX z) = []"
        "l = Va_Block_Used \<longrightarrow> pmm_lists pmm Va_Block_Unused = []" "c = hd (pmm_lists pmm l)"
        "pick_root_chunk_to_evict pmm = (Some (root_chunk_from_chunk pmm c), chunk_start_eviction pmm c)"
proof -
  have root: "root_chunk_from_chunk (chunk_start_eviction pmm c) d = root_chunk_from_chunk pmm d" for c d
    by (simp add: chunk_start_eviction_def Let_def uvm_gpu_chunk_set_in_eviction_def)
  let ?l = "\<lambda>z. pmm_lists pmm (find_free_list pmm UVM_PMM_GPU_MEMORY_TYPE_USER UVM_CHUNK_SIZE_MAX z)"
  note pick = pick_root_chunk_to_evict_def [of pmm] Let_def list_first_chunk_def root
  show thesis
  proof (cases "?l UVM_PMM_LIST_NO_ZERO")
    case (Cons c cs)
    then show thesis by (intro free [of c UVM_PMM_LIST_NO_ZERO]) (simp_all add: pick)
  next
    case Nil1: Nil
    show thesis
    proof (cases "?l UVM_PMM_LIST_ZERO")
      case (Cons c cs)
      then show thesis using Nil1 by (intro free [of c UVM_PMM_LIST_ZERO]) (simp_all add: pick)
    next
      case Nil2: Nil
      note e = zero_lists_empty [OF Nil2 Nil1]
      show thesis
      proof (cases "pmm_lists pmm Va_Block_Unused")
        case (Cons c cs)
        then show thesis using e by (intro listed [of Va_Block_Unused c]) (simp_all add: pick)
      next
        case Nil3: Nil
        then show thesis using e
          by (cases "pmm_lists pmm Va_Block_Used") (intro none, simp_all add: pick, intro listed [of
            Va_Block_Used], auto simp: pick)
      qed
    qed
  qed
qed

end
