(* ===== verification/Pmm_System.thy ===== *)
theory Pmm_System
  imports Pmm_Lists
begin

section \<open>The physical memory manager as a system of critical sections\<close>

text \<open>
  The runs of the manager: each step is one critical section under the list lock of
  \<^verbatim>\<open>uvm_pmm_gpu.c\<close>, with the assertions of the code as its guards, and any number of
  threads take steps in any order. A step that the code makes with the manager's mutex held needs that no
  other thread is merging: the first component of a state holds the root chunk below which a thread with the
  mutex is about to merge. Such a root chunk may stay on an eviction list although it is pinned, until the
  merges are done. The policy and its slot may change from step to step.
\<close>

subsection \<open>Steps\<close>

type_synonym pmm_sys = "chunk_ptr set \<times> uvm_pmm_gpu_t"

inductive pmm_step :: "pmm_sys \<Rightarrow> pmm_sys \<Rightarrow> bool" where
  init_root:
    "root_ptr pmm r \<Longrightarrow> c_state (chunk_of pmm r) = UVM_PMM_GPU_CHUNK_STATE_PMA_OWNED \<Longrightarrow>
     \<not> c_in_eviction (chunk_of pmm r) \<Longrightarrow> bit (pmm_chunk_sizes pmm ty) 21 \<Longrightarrow>
     st \<in> {UVM_PMM_GPU_CHUNK_STATE_FREE, UVM_PMM_GPU_CHUNK_STATE_TEMP_PINNED} \<Longrightarrow>
     pmm_step (M, pmm) (M, init_root_chunk mem slot pmm ty r st is_zero)"
| claim: "pmm_step (M, pmm) (M, snd (claim_free_chunk mem slot elevated pmm ty sz))"
| unpin:
    "valid_chunk pmm c \<Longrightarrow> c_state (chunk_of pmm c) = UVM_PMM_GPU_CHUNK_STATE_TEMP_PINNED
        \<Longrightarrow>
     uvm_gpu_chunk_is_user (chunk_of pmm c) \<Longrightarrow> \<not> chunk_is_in_eviction pmm c
         \<Longrightarrow> \<not> on_list pmm c \<Longrightarrow>
     pmm_step (M, pmm) (M, gpu_unpin_temp mem slot pmm c va_block is_referenced)"
| unpin_kernel:
    "valid_chunk pmm c \<Longrightarrow> c_state (chunk_of pmm c) = UVM_PMM_GPU_CHUNK_STATE_TEMP_PINNED
        \<Longrightarrow>
     \<not> uvm_gpu_chunk_is_user (chunk_of pmm c) \<Longrightarrow> pmm_step (M, pmm) (M, alloc_kernel_unpin pmm c)"
| mark_used:
    "valid_chunk pmm c \<Longrightarrow> chunk_is_root_chunk (chunk_of pmm c) \<Longrightarrow>
        uvm_gpu_chunk_is_user (chunk_of pmm c) \<Longrightarrow>
     freeable pmm c \<Longrightarrow> pmm_step (M, pmm) (M, uvm_pmm_gpu_mark_root_chunk_used mem slot pmm c)"
| mark_unused:
    "valid_chunk pmm c \<Longrightarrow> chunk_is_root_chunk (chunk_of pmm c) \<Longrightarrow>
        uvm_gpu_chunk_is_user (chunk_of pmm c) \<Longrightarrow>
     freeable pmm c \<Longrightarrow> pmm_step (M, pmm) (M, uvm_pmm_gpu_mark_root_chunk_unused mem slot pmm c)"
| try_free:
    "valid_chunk pmm c \<Longrightarrow> freeable pmm c \<Longrightarrow> pmm_step (M, pmm) (M, snd
        (try_chunk_free mem slot pmm c))"
| prepare_merge:
    "valid_chunk pmm c \<Longrightarrow> freeable pmm c \<Longrightarrow> M \<subseteq> {root_chunk_from_chunk
        pmm c} \<Longrightarrow>
     (\<And>p. c_parent (chunk_of pmm c) = Some p \<Longrightarrow>
        \<not> chunk_is_root_chunk (chunk_of pmm c) \<and> c_suballoc (chunk_of pmm p) \<noteq> None \<and>
        (\<forall>s\<in>set (sa_subchunks (the (c_suballoc (chunk_of pmm p)))).
           valid_chunk pmm s \<and> \<not> chunk_is_root_chunk (chunk_of pmm s))) \<Longrightarrow>
     free_or_prepare_for_merge mem slot pmm c = (res, pmm') \<Longrightarrow>
     pmm_step (M, pmm) (if res = None then {} else {root_chunk_from_chunk pmm c}, pmm')"
| merge:
    "M \<subseteq> {root_chunk_from_chunk pmm p} \<Longrightarrow> valid_chunk pmm p \<Longrightarrow>
     c_state (chunk_of pmm p) = UVM_PMM_GPU_CHUNK_STATE_IS_SPLIT \<Longrightarrow>
     freeable pmm (hd (sa_subchunks (the (c_suballoc (chunk_of pmm p))))) \<Longrightarrow>
     (c_state (chunk_of pmm (hd (sa_subchunks (the (c_suballoc (chunk_of pmm p)))))) =
        UVM_PMM_GPU_CHUNK_STATE_TEMP_PINNED \<Longrightarrow> chunk_is_root_chunk_pinned pmm p) \<Longrightarrow>
     (\<And>d. on_list pmm d \<Longrightarrow> root_chunk_from_chunk pmm d = p \<Longrightarrow> d = p)
         \<Longrightarrow>
     pmm_step (M, pmm) (M, fst (merge_gpu_chunk pmm p))"
| split:
    "valid_chunk pmm c \<Longrightarrow> freeable pmm c \<Longrightarrow>
     (c_state (chunk_of pmm c) = UVM_PMM_GPU_CHUNK_STATE_TEMP_PINNED \<Longrightarrow>
         chunk_is_root_chunk_pinned pmm c) \<Longrightarrow>
     (\<And>i s. alloc i = Some s \<Longrightarrow> \<not> on_list pmm s \<and> s \<notin> range (root_array
         pmm) \<and> s \<noteq> c) \<Longrightarrow>
     split_gpu_chunk suballoc_ok alloc pmm c = (status, pmm', freed) \<Longrightarrow>
     pmm_step ({}, pmm) ({}, pmm')"
| pick: "pmm_step ({}, pmm) ({}, snd (pick_root_chunk_to_evict pmm))"
| range_start: "root_ptr pmm r \<Longrightarrow> valid_chunk pmm r \<Longrightarrow> pmm_step (M, pmm) (M, snd
    (pma_evict_range_start pmm r))"
| pin_free: "valid_chunk pmm c \<Longrightarrow> chunk_is_in_eviction pmm c \<Longrightarrow> pmm_step ({},
    pmm) ({}, pin_free_chunks_func pmm c)"
| mark_evicted:
    "valid_chunk pmm c \<Longrightarrow> chunk_is_in_eviction pmm c \<Longrightarrow> c_state (chunk_of pmm c)
        = UVM_PMM_GPU_CHUNK_STATE_ALLOCATED \<Longrightarrow>
     pmm_step (M, pmm) (M, uvm_pmm_gpu_mark_chunk_evicted pmm c)"
| evict_done:
    "c_state (chunk_of pmm r) = UVM_PMM_GPU_CHUNK_STATE_TEMP_PINNED \<Longrightarrow>
     pmm_step ({}, pmm) ({}, evict_root_chunk_done pmm r)"
| evicted_type:
    "root_ptr pmm r \<Longrightarrow> c_state (chunk_of pmm r) = UVM_PMM_GPU_CHUNK_STATE_TEMP_PINNED
        \<Longrightarrow> \<not> on_list pmm r \<Longrightarrow>
     pmm_step ({}, pmm) ({}, evicted_set_type pmm r ty)"
| evict_error:
    "valid_chunk pmm r \<Longrightarrow> chunk_is_root_chunk (chunk_of pmm r) \<Longrightarrow>
     pmm_step ({}, pmm) ({}, evict_root_chunk_error mem slot pmm r)"
| free_root:
    "root_ptr pmm r \<Longrightarrow> c_state (chunk_of pmm r) = UVM_PMM_GPU_CHUNK_STATE_TEMP_PINNED
        \<Longrightarrow> \<not> on_list pmm r \<Longrightarrow>
     pmm_step (M, pmm) (M, fst (free_root_chunk pmm r mode))"
| free_next: "pmm_step (M, pmm) (M, fst (snd (free_next_available_root_chunk pmm ty)))"
| lazy_free: "valid_chunk pmm c \<Longrightarrow> \<not> on_list pmm c \<Longrightarrow> pmm_step (M, pmm) (M,
    devmem_page_free pmm c)"
| lazy_first: "lazy_free_first pmm = Some (c, pmm') \<Longrightarrow> pmm_step (M, pmm) (M, pmm')"

inductive pmm_initial :: "pmm_sys \<Rightarrow> bool" where
  "uvm_pmm_gpu_init gpu_index mmu kern max_address caches array bit_locks pma pmm0 = (NV_OK, pmm) \<Longrightarrow>
   pmm_initial ({}, pmm)"

definition sample_pmm_memory :: uvm_pmm_gpu_t where
  "sample_pmm_memory = \<lparr>pmm_addr = 0x1000, pmm_chunk_sizes = (\<lambda>_. 0), root_array = (\<lambda>_.
      0), pmm_chunks = (\<lambda>_. zero_chunk),
     root_list_state = (\<lambda>_. UVM_PMM_ROOT_LIST_NONE), root_list_generation = (\<lambda>_. 0), pmm_lists
         = (\<lambda>_. [])\<rparr>"

text \<open>A manager of two root chunks, at the pointers 1 and 2, whose sizes are 4 KiB, 64 KiB and 2 MiB.\<close>

definition sample_pmm :: uvm_pmm_gpu_t where
  "sample_pmm = snd (uvm_pmm_gpu_init 0 (\<lambda>_. 0x11000) 0x1000 0x400000 NV_OK (Some (\<lambda>i. of_nat i
      + 1)) NV_OK NV_OK
     sample_pmm_memory)"

text \<open>A policy that asks for every activated chunk to be put at the head of the unused list.\<close>

definition sample_mem_policy :: "uvm_pmm_gpu_t mem_ops_mem" where
  "sample_mem_policy = (\<lambda>_. \<lparr>gpu_test_trigger = None, gpu_page_prefetch = None,
      gpu_page_prefetch_iter = None,
     gpu_block_activate = Some (\<lambda>_ _. Request_Reorder 2 1 (\<lambda>_. Reorder_Return 0)),
         gpu_block_access = None,
     gpu_evict_prepare = None\<rparr>)"

definition sample_pmm_pinned :: uvm_pmm_gpu_t where
  "sample_pmm_pinned = init_root_chunk sample_mem_policy (Some 5) sample_pmm UVM_PMM_GPU_MEMORY_TYPE_USER 1
     UVM_PMM_GPU_CHUNK_STATE_TEMP_PINNED False"

definition sample_pmm_mapped :: uvm_pmm_gpu_t where
  "sample_pmm_mapped = gpu_unpin_temp sample_mem_policy (Some 5) sample_pmm_pinned 1 0x77 True"

definition sample_root :: "NvU64 \<Rightarrow> uvm_gpu_chunk_t" where
  "sample_root addr = zero_chunk\<lparr>c_address := addr, c_log2_size := 21, c_va_block_page_index := 512\<rparr>"

definition sample_pmm_free :: uvm_pmm_gpu_t where
  "sample_pmm_free = init_root_chunk sample_mem_policy None sample_pmm UVM_PMM_GPU_MEMORY_TYPE_USER 1
     UVM_PMM_GPU_CHUNK_STATE_FREE False"

subsection \<open>Lemmas\<close>

lemma init_root_entry_lists:
  "pmm_lists (init_root_entry g array i pmm) = pmm_lists pmm"
  "root_list_state pmm = (\<lambda>_. UVM_PMM_ROOT_LIST_NONE) \<Longrightarrow>
     root_list_state (init_root_entry g array i pmm) = (\<lambda>_. UVM_PMM_ROOT_LIST_NONE)"
  by (simp_all add: init_root_entry_def Let_def update_fields(6) fun_eq_iff)

lemma init_root_entries_lists:
  "pmm_lists (fold (init_root_entry g array) is pmm) = pmm_lists pmm \<and>
   (root_list_state pmm = (\<lambda>_. UVM_PMM_ROOT_LIST_NONE) \<longrightarrow>
     root_list_state (fold (init_root_entry g array) is pmm) = (\<lambda>_. UVM_PMM_ROOT_LIST_NONE))"
  by (induction "is" arbitrary: pmm) (simp_all add: init_root_entry_lists)

lemma ok_uvm_pmm_gpu_init:
  assumes "uvm_pmm_gpu_init gpu_index mmu kern max_address caches array bit_locks pma pmm0 = (NV_OK, pmm)"
  shows "pmm_ok {} {} pmm"
proof -
  have "pmm_lists pmm = (\<lambda>_. []) \<and> root_list_state pmm = (\<lambda>_. UVM_PMM_ROOT_LIST_NONE)"
    using assms init_root_entries_lists
    by (auto simp: uvm_pmm_gpu_init_def Let_def split: if_splits option.splits)
  then show ?thesis using list_code_range(1) by (intro pmm_okI) auto
qed

lemma ok_pick:
  assumes ok: "pmm_ok M {} pmm"
  shows "pmm_ok M {} (snd (pick_root_chunk_to_evict pmm))"
proof (cases rule: pick_cases [of pmm])
  case (free c z)
  then show ?thesis using ok_chunk_start_eviction(1) [OF ok free_root_listed(1) [OF ok]] by simp
next
  case (listed c l)
  then show ?thesis using ok_chunk_start_eviction(1) [OF ok listed_valid [OF ok_listed [OF ok]]] by simp
qed (use ok in simp)

lemma ok_pma_evict_range_start:
  "pmm_ok M {} pmm \<Longrightarrow> valid_chunk pmm r \<Longrightarrow> pmm_ok M {} (snd
      (pma_evict_range_start pmm r))"
  by (simp add: pma_evict_range_start_def ok_chunk_start_eviction)

lemma pmm_step_ok:
  assumes "pmm_step s t" "pmm_ok (fst s) {} (snd s)"
  shows "pmm_ok (fst t) {} (snd t)"
  using assms
proof (induction rule: pmm_step.induct)
  case (prepare_merge pmm c M mem slot res pmm')
  then have ok: "pmm_ok M {} pmm" by simp
  have "pmm_ok (if res = None then {} else {root_chunk_from_chunk pmm c}) {} pmm'"
    by (rule ok_free_or_prepare_for_merge [OF ok prepare_merge(1-3) _ _ prepare_merge(5)])
      (use prepare_merge(4) in blast)+
  then show ?case by simp
next
  case (merge M pmm p)
  then show ?case by (auto intro!: ok_merge_gpu_chunk simp: root_chunk_pinned_eq)
next
  case (split pmm c alloc suballoc_ok status pmm' freed)
  then show ?case using ok_split_gpu_chunk [of "{}" pmm c alloc suballoc_ok status pmm' freed]
    by (simp add: root_chunk_pinned_eq)
next
  case (claim M pmm mem slot elevated ty sz)
  then show ?case using ok_claim_free_chunk(1) [of M pmm mem slot elevated ty sz] by (metis prod.collapse
      fst_conv snd_conv)
qed (auto intro: ok_init_root_chunk ok_gpu_unpin_temp ok_try_chunk_free(1) ok_pick ok_pma_evict_range_start
    ok_pin_free_chunks_func ok_mark_chunk_evicted ok_evict_root_chunk_done ok_evict_root_chunk_error
        ok_free_root_chunk
    ok_free_next_available ok_devmem_page_free ok_lazy_free_first ok_alloc_kernel_unpin ok_evicted_set_type
    ok_root_chunk_update_eviction_list [of _ _ _ Va_Block_Used, simplified]
    ok_root_chunk_update_eviction_list [of _ _ _ Va_Block_Unused, simplified]
    simp: uvm_pmm_gpu_mark_root_chunk_used_def uvm_pmm_gpu_mark_root_chunk_unused_def)

interpretation pmm_sys: step_invariant pmm_initial pmm_step "\<lambda>s. pmm_ok (fst s) {} (snd s)"
  by unfold_locales (auto elim!: pmm_initial.cases intro: ok_uvm_pmm_gpu_init pmm_step_ok)

lemma sample_count: "unat (UVM_ALIGN_UP 0x400000 0x200000 div 0x200000) = 2"
  by code_simp

lemma sample_initial: "pmm_initial ({}, sample_pmm)"
proof -
  have "uvm_pmm_gpu_init 0 (\<lambda>_. 0x11000) 0x1000 0x400000 NV_OK (Some (\<lambda>i. of_nat i + 1)) NV_OK
      NV_OK sample_pmm_memory =
    (NV_OK, sample_pmm)"
    by (simp add: sample_pmm_def uvm_pmm_gpu_init_def Let_def)
  then show ?thesis by (rule pmm_initial.intros)
qed

lemma init_root_entry_eq:
  assumes "root_list_state pmm = (\<lambda>_. UVM_PMM_ROOT_LIST_NONE)"
  shows "init_root_entry g array i pmm =
    pmm\<lparr>pmm_chunks := (pmm_chunks pmm)(array i := (pmm_chunks pmm (array i))\<lparr>c_gpu_index := g,
      c_state := UVM_PMM_GPU_CHUNK_STATE_PMA_OWNED, c_log2_size := 21, c_address := of_nat i * 0x200000,
      c_va_block_page_index := 512\<rparr>)\<rparr>"
proof -
  have i: "ilog2 0x200000 = 21" by (simp add: ilog2.simps)
  have s: "(\<lambda>_. UVM_PMM_ROOT_LIST_NONE)(r := UVM_PMM_ROOT_LIST_NONE) = (\<lambda>_.
      UVM_PMM_ROOT_LIST_NONE)" for r :: chunk_ptr
    by (simp add: fun_eq_iff)
  show ?thesis
    using assms by (simp add: init_root_entry_def Let_def upd_chunk_def uvm_gpu_chunk_set_size_def i s
        uvm_pmm_root_list_update_locked_def)
qed

lemma sample_pmm_eq:
  "sample_pmm = \<lparr>pmm_addr = 0x1000,
     pmm_chunk_sizes = (\<lambda>ty. 0x200000 OR 0x11000 OR (if ty = UVM_PMM_GPU_MEMORY_TYPE_KERNEL then 0x1000
         else 0)),
     root_array = (\<lambda>i. of_nat i + 1),
     pmm_chunks = (\<lambda>_. zero_chunk)(1 := sample_root 0, 2 := sample_root 0x200000),
     root_list_state = (\<lambda>_. UVM_PMM_ROOT_LIST_NONE), root_list_generation = (\<lambda>_. 0), pmm_lists
         = (\<lambda>_. [])\<rparr>"
proof -
  have l: "[0..<2] = [0, Suc 0]" by (simp add: upt_rec)
  have "snd (uvm_pmm_gpu_init g mmu kern 0x400000 NV_OK (Some array) NV_OK NV_OK m) =
    init_root_entry g array (Suc 0) (init_root_entry g array 0 (m\<lparr>pmm_chunk_sizes := (\<lambda>ty.
        0x200000 OR mmu ty OR
      (if ty = UVM_PMM_GPU_MEMORY_TYPE_KERNEL then kern else 0)), root_array := array,
      pmm_chunks := (\<lambda>p. if p \<in> array ` {0..<2} then zero_chunk else pmm_chunks m p),
      root_list_state := (\<lambda>_. UVM_PMM_ROOT_LIST_NONE), root_list_generation := (\<lambda>_. 0),
          pmm_lists := (\<lambda>_. [])\<rparr>))"
    for g mmu kern array m
    by (cases m) (simp add: uvm_pmm_gpu_init_def Let_def sample_count l cong: if_cong)
  then show ?thesis
    unfolding sample_pmm_def
    by (simp add: init_root_entry_eq sample_pmm_memory_def sample_root_def zero_chunk_def fun_eq_iff)
qed

lemmas sample_defs = upd_chunk_def upd_suballoc_def uvm_pmm_root_list_update_locked_def root_list_apply_def
  pmm_list_del_def chunk_is_root_chunk_pinned_def root_chunk_from_chunk_def root_chunk_from_address_def
  chunk_is_root_chunk_def uvm_gpu_chunk_get_size_def uvm_gpu_chunk_is_user_def chunk_update_lists_locked_def

lemma sample_pmm_pinned_eq:
  "sample_pmm_pinned = sample_pmm\<lparr>pmm_chunks := (pmm_chunks sample_pmm)
     (1 := (sample_root 0)\<lparr>c_state := UVM_PMM_GPU_CHUNK_STATE_TEMP_PINNED\<rparr>)\<rparr>"
  by (simp add: sample_pmm_pinned_def init_root_chunk_def sample_defs Let_def sample_pmm_eq sample_root_def
      zero_chunk_def
      fun_eq_iff)

lemma sample_pmm_mapped_eq:
  "sample_pmm_mapped = sample_pmm\<lparr>pmm_chunks := (pmm_chunks sample_pmm)
     (1 := (sample_root 0)\<lparr>c_state := UVM_PMM_GPU_CHUNK_STATE_ALLOCATED, c_is_referenced := True,
         c_va_block := Some 0x77\<rparr>),
     root_list_state := (root_list_state sample_pmm)(1 := UVM_PMM_ROOT_LIST_VA_BLOCK_UNUSED),
     root_list_generation := (root_list_generation sample_pmm)(1 := 2),
     pmm_lists := (pmm_lists sample_pmm)(Va_Block_Unused := [1])\<rparr>"
  by (simp add: sample_pmm_mapped_def gpu_unpin_temp_def chunk_unpin_def sample_defs Let_def
      sample_pmm_pinned_eq sample_pmm_eq
      sample_root_def zero_chunk_def fun_eq_iff uvm_bpf_call_gpu_block_activate_def sample_mem_policy_def
      bpf_gpu_request_reorder_def request_defs nv_gpu_transition_record_pmm_def uvm_pmm_bpf_apply_activate_locked_def
      pmm_bpf_validate_reorder_locked_def decision_ctx_init_def nv_gpu_transition_validate_pmm_def pmm_snapshot_def
      nv_gpu_transition_pmm_activate_effect_def pmm_bpf_commit_reorder_locked_def)

lemma sample_valid:
  "valid_chunk sample_pmm_pinned 1" "valid_chunk sample_pmm_mapped 1" "root_ptr sample_pmm 1" "root_ptr
      sample_pmm_mapped 1"
  by (simp_all add: valid_chunk_def root_ptr_def sample_pmm_pinned_eq sample_pmm_mapped_eq sample_pmm_eq
      sample_root_def
      zero_chunk_def root_size root_chunk_from_chunk_def root_chunk_from_address_def Let_def bit_or_iff)

lemma sample_run: "rtranclp pmm_step ({}, sample_pmm) ({}, sample_pmm_mapped)"
proof -
  have "pmm_step ({}, sample_pmm) ({}, sample_pmm_pinned)"
    unfolding sample_pmm_pinned_def
    by (rule pmm_step.init_root [OF sample_valid(3)]) (simp_all add: sample_pmm_eq sample_root_def
        zero_chunk_def bit_or_iff)
  moreover have "pmm_step ({}, sample_pmm_pinned) ({}, sample_pmm_mapped)"
    unfolding sample_pmm_mapped_def
    by (rule pmm_step.unpin [OF sample_valid(1)])
      (simp_all add: sample_pmm_pinned_eq sample_pmm_eq sample_root_def zero_chunk_def
        uvm_gpu_chunk_is_user_def chunk_is_in_eviction_def on_list_def root_chunk_from_chunk_def
            root_chunk_from_address_def)
  ultimately show ?thesis by (meson converse_rtranclp_into_rtranclp rtranclp.rtrancl_refl)
qed

lemma sample_lists: "pmm_lists sample_pmm_mapped Va_Block_Unused = [1]" "pmm_lists sample_pmm_mapped
    Va_Block_Used = []"
  "root_list_state sample_pmm_mapped 1 = UVM_PMM_ROOT_LIST_VA_BLOCK_UNUSED"
  by (simp_all add: sample_pmm_mapped_eq sample_pmm_eq)

lemma listed_evictable:
  assumes ok: "pmm_ok M {} pmm" and l: "l \<in> {Va_Block_Used, Va_Block_Unused}" "c \<in> set (pmm_lists pmm
      l)" "c \<notin> M"
  shows "chunk_is_evictable pmm c"
    "c_state (chunk_of pmm c) \<in> {UVM_PMM_GPU_CHUNK_STATE_ALLOCATED, UVM_PMM_GPU_CHUNK_STATE_IS_SPLIT}"
proof -
  have c: "valid_chunk pmm c" "chunk_is_root_chunk (chunk_of pmm c)" "\<not> c_in_eviction (chunk_of pmm c)"
    "evictable (chunk_of pmm c)"
    using ok_listed [OF ok l(2)] l(1,3) by auto
  then show "chunk_is_evictable pmm c"
    "c_state (chunk_of pmm c) \<in> {UVM_PMM_GPU_CHUNK_STATE_ALLOCATED, UVM_PMM_GPU_CHUNK_STATE_IS_SPLIT}"
    using valid_root [OF c(1,2)]
    by (auto simp: chunk_is_evictable_def root_chunk_pinned_eq chunk_is_in_eviction_def evictable_def)
qed

lemma chunk_start_eviction_lists:
  "pmm_lists (chunk_start_eviction pmm c) l = removeAll (root_chunk_from_chunk pmm c) (pmm_lists pmm l)"
  "root_chunk_from_chunk (chunk_start_eviction pmm c) d = root_chunk_from_chunk pmm d"
  by (simp_all add: chunk_start_eviction_def uvm_gpu_chunk_set_in_eviction_def Let_def root_list_apply_def
      pmm_list_del_def)

lemma start_eviction_root:
  assumes ok: "pmm_ok M {} pmm" and c: "valid_chunk pmm c" "root_ptr pmm c"
  shows "\<not> on_list (chunk_start_eviction pmm c) c" "chunk_is_in_eviction (chunk_start_eviction pmm c) c"
    "pmm_lists (chunk_start_eviction pmm c) l = removeAll c (pmm_lists pmm l)"
  using ok_chunk_start_eviction(2,3) [OF ok c(1)]
  by (simp_all add: root_ptrD [OF c(2)] chunk_is_in_eviction_def chunk_start_eviction_lists)

lemma free_root_evictable:
  assumes ok: "pmm_ok M {} pmm"
    and c: "c \<in> set (pmm_lists pmm (find_free_list pmm UVM_PMM_GPU_MEMORY_TYPE_USER UVM_CHUNK_SIZE_MAX z))"
  shows "chunk_is_evictable pmm c"
proof -
  note f = free_root_listed [OF ok c]
  have "\<not> c_in_eviction (chunk_of pmm c)"
    using ok_listed [OF ok c] f(3,4) by (auto simp: find_free_list_def root_ptr_def uvm_gpu_chunk_is_user_def)
  then show ?thesis
    using f(2) root_ptrD [OF f(3)] by (simp add: chunk_is_evictable_def root_chunk_pinned_eq root_pinned_def
        chunk_is_in_eviction_def)
qed

lemma sample_pmm_free_fields:
  "root_ptr sample_pmm_free 1" "c_state (chunk_of sample_pmm_free 1) = UVM_PMM_GPU_CHUNK_STATE_FREE"
  "\<not> c_in_eviction (chunk_of sample_pmm_free 1)" "c_parent (chunk_of sample_pmm_free 1) = None"
  by (simp_all add: sample_pmm_free_def init_root_chunk_def root_ptr_def root_chunk_from_chunk_def root_size
      root_chunk_from_address_def upd_chunk_of sample_pmm_eq sample_root_def zero_chunk_def)

subsection \<open>Properties\<close>

text \<open>
  C36: The activation and access hooks of the memory manager follow the policy exactly. A chunk is moved if all
  requests of the call agree on a known list and end of it and the chunk is a root chunk on one of the two eviction
  lists; then it goes there and its recorded state with it. In every other case nothing changes, and the driver's
  own move on access is made only if the policy asked for nothing and answered with the default action.
\<close>

theorem block_hooks_follow_policy:
  "uvm_bpf_call_gpu_block_activate mem slot pmm chunk =
     (case granted_move (activate_requests mem slot pmm chunk) of
        Some (d, op) \<Rightarrow>
          if movable pmm chunk then uvm_pmm_root_list_update_locked pmm chunk (Some d) (list_code d) op else pmm
      | None \<Rightarrow> pmm) \<and>
   uvm_bpf_call_gpu_block_access mem slot pmm chunk =
     (if sint (access_action mem slot pmm chunk) \<notin> {NV_GPU_TRANSITION_ACTION_DEFAULT,
         NV_GPU_TRANSITION_ACTION_BYPASS}
        then (NV_GPU_PMM_ACCESS_PRESERVE, pmm)
      else
        (case granted_move (access_requests mem slot pmm chunk) of
           Some (d, op) \<Rightarrow>
             if movable pmm chunk
               then (NV_GPU_PMM_ACCESS_COMMIT, uvm_pmm_root_list_update_locked pmm chunk (Some d) (list_code d) op)
             else (NV_GPU_PMM_ACCESS_PRESERVE, pmm)
         | None \<Rightarrow>
             (if access_requests mem slot pmm chunk = [] \<and> root_ptr pmm chunk \<and>
                 sint (access_action mem slot pmm chunk) = NV_GPU_TRANSITION_ACTION_DEFAULT
                then NV_GPU_PMM_ACCESS_NATIVE else NV_GPU_PMM_ACCESS_PRESERVE, pmm)))"
  unfolding activate_ctx access_ctx apply_activate_order apply_access_order by blast

text \<open>
  C37: In every run, whatever the policies ask for and however the critical sections interleave, no chunk is on two
  lists or twice on one; the eviction lists hold only root chunks with user memory that are neither given back to the
  physical allocator nor being evicted, and, unless a thread is merging below them, are evictable; a free list holds
  only free chunks of its own type, size and content; and the recorded state of each root chunk is the list it is on.
\<close>

theorem pmm_lists_consistent:
  assumes "pmm_initial s" "rtranclp pmm_step s (M, pmm)"
  shows "(\<forall>l. distinct (pmm_lists pmm l)) \<and>
    (\<forall>l l' c. c \<in> set (pmm_lists pmm l) \<and> c \<in> set (pmm_lists pmm l') \<longrightarrow> l =
        l') \<and>
    (\<forall>l\<in>{Va_Block_Used, Va_Block_Unused}. \<forall>c\<in>set (pmm_lists pmm l).
       root_ptr pmm c \<and> uvm_gpu_chunk_is_user (chunk_of pmm c) \<and>
       c_state (chunk_of pmm c) \<noteq> UVM_PMM_GPU_CHUNK_STATE_PMA_OWNED \<and> \<not> c_in_eviction
           (chunk_of pmm c) \<and>
       (c \<notin> M \<longrightarrow> chunk_is_evictable pmm c)) \<and>
    (\<forall>ty i z. \<forall>c\<in>set (pmm_lists pmm (Free_List ty i z)).
       c_state (chunk_of pmm c) = UVM_PMM_GPU_CHUNK_STATE_FREE \<and> find_free_list_chunk pmm c = Free_List ty
           i z) \<and>
    (\<forall>r. root_ptr pmm r \<longrightarrow>
       (\<forall>l. r \<in> set (pmm_lists pmm l) \<longrightarrow> root_list_state pmm r = list_code l) \<and>
       (root_list_state pmm r \<in> range list_code \<longrightarrow> on_list pmm r))"
proof -
  have ok: "pmm_ok M {} pmm" using pmm_sys.reachable_inv [OF assms(2,1)] by simp
  have evict: "root_ptr pmm c \<and> uvm_gpu_chunk_is_user (chunk_of pmm c) \<and>
       c_state (chunk_of pmm c) \<noteq> UVM_PMM_GPU_CHUNK_STATE_PMA_OWNED \<and> \<not> c_in_eviction
           (chunk_of pmm c) \<and>
       (c \<notin> M \<longrightarrow> chunk_is_evictable pmm c)"
    if l: "l \<in> {Va_Block_Used, Va_Block_Unused}" "c \<in> set (pmm_lists pmm l)" for l c
  proof -
    have c: "valid_chunk pmm c" "chunk_is_root_chunk (chunk_of pmm c)" using ok_listed [OF ok l(2)] l(1) by auto
    then show ?thesis
      using ok_listed [OF ok l(2)] l(1) listed_evictable(1) [OF ok l] valid_rootD(1,5) [OF c(1)] valid_root [OF
          c] by auto
  qed
  have free: "c_state (chunk_of pmm c) = UVM_PMM_GPU_CHUNK_STATE_FREE \<and> find_free_list_chunk pmm c =
      Free_List ty i z"
    if "c \<in> set (pmm_lists pmm (Free_List ty i z))" for ty i z c
    using ok_listed [OF ok that] by simp
  note parts = ok [unfolded pmm_ok_def]
  show ?thesis
    by (intro conjI ballI allI impI) (use parts evict free in \<open>elim conjE, metis\<close>)+
qed

theorem pmm_lists_consistent_witness:
  "chunk_is_evictable sample_pmm_mapped 1 \<and> root_ptr sample_pmm_mapped 1"
  using pmm_lists_consistent [OF sample_initial sample_run] by (simp add: sample_lists)

text \<open>
  C38: When the manager looks for a root chunk to evict, it finds none only if there is no root chunk on the user free
  lists and both eviction lists are empty. Otherwise it takes a chunk that is evictable, as the code asserts, free
  ones first, then the head of the unused list, then the head of the used list; the chunk is marked and taken off its
  list, and the other chunks keep their order.
\<close>

theorem pick_takes_evictable:
  assumes "pmm_initial s" "rtranclp pmm_step s ({}, pmm)"
  shows "case pick_root_chunk_to_evict pmm of
      (None, pmm') \<Rightarrow>
        pmm' = pmm \<and> pmm_lists pmm Va_Block_Unused = [] \<and> pmm_lists pmm Va_Block_Used = [] \<and>
        (\<forall>z. pmm_lists pmm (find_free_list pmm UVM_PMM_GPU_MEMORY_TYPE_USER UVM_CHUNK_SIZE_MAX z) = [])
    | (Some r, pmm') \<Rightarrow>
        root_ptr pmm r \<and> uvm_gpu_chunk_is_user (chunk_of pmm r) \<and> chunk_is_evictable pmm r \<and>
        chunk_is_in_eviction pmm' r \<and> \<not> on_list pmm' r \<and> (\<forall>l. pmm_lists pmm' l =
            removeAll r (pmm_lists pmm l)) \<and>
        (if \<exists>z. pmm_lists pmm (find_free_list pmm UVM_PMM_GPU_MEMORY_TYPE_USER UVM_CHUNK_SIZE_MAX z)
            \<noteq> []
           then c_state (chunk_of pmm r) = UVM_PMM_GPU_CHUNK_STATE_FREE
         else if pmm_lists pmm Va_Block_Unused \<noteq> [] then r = hd (pmm_lists pmm Va_Block_Unused)
         else r = hd (pmm_lists pmm Va_Block_Used))"
proof -
  have ok: "pmm_ok {} {} pmm" using pmm_sys.reachable_inv [OF assms(2,1)] by simp
  show ?thesis
  proof (cases rule: pick_cases [of pmm])
    case none
    then show ?thesis by simp
  next
    case (free c z)
    note f = free_root_listed [OF ok free(1)]
    have "\<exists>z. pmm_lists pmm (find_free_list pmm UVM_PMM_GPU_MEMORY_TYPE_USER UVM_CHUNK_SIZE_MAX z)
        \<noteq> []"
      using free(1) by (metis empty_iff list.set(1))
    then show ?thesis
      using f free_root_evictable [OF ok free(1)] start_eviction_root [OF ok f(1,3)]
      by (simp add: free(2) root_ptrD [OF f(3)] uvm_gpu_chunk_is_user_def)
  next
    case (listed c l)
    have l: "l \<in> {Va_Block_Used, Va_Block_Unused}" using listed(1) by blast
    have c: "valid_chunk pmm c" "chunk_is_root_chunk (chunk_of pmm c)" "uvm_gpu_chunk_is_user (chunk_of pmm c)"
      using ok_listed [OF ok listed(2)] l by auto
    have r: "root_ptr pmm c" using valid_root [OF c(1,2)] c(2) by (simp add: root_ptr_def)
    have "if pmm_lists pmm Va_Block_Unused \<noteq> [] then c = hd (pmm_lists pmm Va_Block_Unused)
        else c = hd (pmm_lists pmm Va_Block_Used)"
      using listed(1,2,4,5) by auto
    then show ?thesis
      using c r listed_evictable(1) [OF ok l listed(2)] start_eviction_root [OF ok c(1) r] listed(3)
      by (simp add: listed(6) root_ptrD [OF r])
  qed
qed

theorem pick_takes_evictable_witness:
  "case pick_root_chunk_to_evict sample_pmm_mapped of
      (None, pmm') \<Rightarrow> False
    | (Some r, pmm') \<Rightarrow> r = 1 \<and> chunk_is_evictable sample_pmm_mapped 1 \<and> pmm_lists pmm'
        Va_Block_Unused = []"
  using pick_takes_evictable [OF sample_initial sample_run]
  by (auto simp: sample_lists sample_pmm_mapped_eq sample_pmm_eq find_free_list_def split: prod.splits option.splits)

text \<open>
  C40: A free root chunk that is evicted for a range of the physical allocator is given back with the recorded list
  state of an eviction, although it is on no list. Deinitialisation asserts that the recorded state of every root
  chunk is the one of no list.
\<close>

theorem evicted_root_list_state:
  assumes "root_ptr pmm r" "c_state (chunk_of pmm r) = UVM_PMM_GPU_CHUNK_STATE_FREE"
    "\<not> c_in_eviction (chunk_of pmm r)" "c_parent (chunk_of pmm r) = None"
  shows "let pmm = snd (pma_evict_range_start pmm r);
      pmm = pin_free_chunks_func pmm r;
      pmm = evict_root_chunk_done pmm r;
      pmm = fst (free_root_chunk pmm r FREE_ROOT_CHUNK_MODE_PMA_EVICTION)
    in c_state (chunk_of pmm r) = UVM_PMM_GPU_CHUNK_STATE_PMA_OWNED \<and> \<not> on_list pmm r \<and>
       root_list_state pmm r = UVM_PMM_ROOT_LIST_EVICTION"
proof -
  have e: "chunk_is_evictable pmm r"
    using assms by (simp add: chunk_is_evictable_def root_chunk_pinned_eq root_pinned_def
        chunk_is_in_eviction_def root_ptrD)
  let ?p = "chunk_start_eviction pmm r"
  have p: "root_ptr ?p r" "c_state (chunk_of ?p r) = UVM_PMM_GPU_CHUNK_STATE_FREE" "c_parent (chunk_of ?p r) = None"
    using assms by (simp_all add: chunk_start_eviction_def uvm_gpu_chunk_set_in_eviction_def Let_def root_ptr_def)
  let ?u = "uvm_pmm_root_list_update_locked ?p r None UVM_PMM_ROOT_LIST_EVICTION UVM_PMM_ROOT_LIST_OP_DEL_INIT"
  have q: "pin_free_chunks_func ?p r = set_state_counting ?u r UVM_PMM_GPU_CHUNK_STATE_TEMP_PINNED (\<lambda>n.
      n + 1)"
    using p by (simp add: pin_free_chunks_func_def Let_def chunk_pin_eq)
  have u: "\<not> on_list ?u r" "root_list_state ?u r = UVM_PMM_ROOT_LIST_EVICTION" "chunk_is_root_chunk
      (chunk_of ?u r)"
    using p(1) by (auto simp: on_list_def root_list_apply_def update_fields(6) root_ptr_def)
  show ?thesis
    using assms(2) e u
    by (simp add: pma_evict_range_start_def Let_def q evict_root_chunk_done_def uvm_gpu_chunk_set_in_eviction_def
        free_root_chunk_def chunk_unpin_eq)
qed

theorem evicted_root_list_state_witness:
  "root_list_state (fst (free_root_chunk (evict_root_chunk_done (pin_free_chunks_func
     (snd (pma_evict_range_start sample_pmm_free 1)) 1) 1) 1 FREE_ROOT_CHUNK_MODE_PMA_EVICTION)) 1 =
   UVM_PMM_ROOT_LIST_EVICTION"
  using evicted_root_list_state [OF sample_pmm_free_fields] by (simp add: Let_def)

end
