(* ===== verification/Pmm_Free.thy ===== *)
theory Pmm_Free
  imports Pmm_System
begin

section \<open>Frees of the physical memory manager come to an end\<close>

text \<open>
  \<^verbatim>\<open>free_chunk_with_merges\<close> and \<^verbatim>\<open>process_lazy_free\<close> of
  \<^verbatim>\<open>uvm_pmm_gpu.c\<close> are loops without a bound of their own. They end because freeing
  leaves the parents and sizes of all chunks alone, a parent is larger than its subchunks, and no free puts a
  chunk on the lazy list.
\<close>

subsection \<open>Specifications\<close>

text \<open>Freeing leaves the shape of the chunk tree alone and puts no chunk on the lazy list.\<close>

definition tree_frame :: "uvm_pmm_gpu_t \<Rightarrow> uvm_pmm_gpu_t \<Rightarrow> bool" where
  "tree_frame p q \<longleftrightarrow>
     (\<forall>c. c_parent (chunk_of q c) = c_parent (chunk_of p c) \<and> c_log2_size (chunk_of q c) =
         c_log2_size (chunk_of p c)) \<and>
     length (pmm_lists q Va_Block_Lazy_Free) \<le> length (pmm_lists p Va_Block_Lazy_Free)"

definition parents_grow :: "uvm_pmm_gpu_t \<Rightarrow> bool" where
  "parents_grow pmm \<longleftrightarrow> (\<forall>c p. c_parent (chunk_of pmm c) = Some p \<longrightarrow>
     c_log2_size (chunk_of pmm c) < c_log2_size (chunk_of pmm p) \<and> c_log2_size (chunk_of pmm p) \<le> 21)"

text \<open>A manager whose first root chunk waits to be freed lazily.\<close>

definition sample_pmm_lazy :: uvm_pmm_gpu_t where
  "sample_pmm_lazy = devmem_page_free sample_pmm_pinned 1"

subsection \<open>Lemmas\<close>

lemma frame_refl [simp]: "tree_frame p p"
  by (simp add: tree_frame_def)

lemma frame_trans: "tree_frame p q \<Longrightarrow> tree_frame q s \<Longrightarrow> tree_frame p s"
  by (simp add: tree_frame_def)

lemma frame_grow: "tree_frame p q \<Longrightarrow> parents_grow p \<Longrightarrow> parents_grow q"
  by (simp add: tree_frame_def parents_grow_def)

lemma frame_upd [simp]:
  "(\<And>x. c_parent (f x) = c_parent x) \<Longrightarrow> (\<And>x. c_log2_size (f x) = c_log2_size x)
      \<Longrightarrow>
   tree_frame p (upd_chunk c f q) = tree_frame p q"
  by (simp add: tree_frame_def)

lemma frame_suballoc [simp]: "tree_frame p (upd_suballoc c g q) = tree_frame p q"
  unfolding upd_suballoc_def by (rule frame_upd) auto

lemma frame_update [simp]:
  assumes "tree_frame p q" "op \<in> {UVM_PMM_ROOT_LIST_OP_INIT, UVM_PMM_ROOT_LIST_OP_DEL_INIT} \<or>
    op \<in> {UVM_PMM_ROOT_LIST_OP_MOVE_HEAD, UVM_PMM_ROOT_LIST_OP_MOVE_TAIL} \<and> d \<noteq> Some
        Va_Block_Lazy_Free \<and> d \<noteq> None"
  shows "tree_frame p (uvm_pmm_root_list_update_locked q c d st op)"
proof -
  have "length (removeAll c xs) \<le> length xs" for xs :: "chunk_ptr list" by (rule length_removeAll_less_eq)
  then have "length (root_list_apply op c d (pmm_lists q) Va_Block_Lazy_Free) \<le> length (pmm_lists q
      Va_Block_Lazy_Free)"
    using assms(2) by (auto simp: root_list_apply_def pmm_list_del_def Let_def split: if_splits)
  then show ?thesis using assms(1) by (simp add: tree_frame_def)
qed


lemma frame_set_state [simp]: "tree_frame p (set_state_counting q c st g) = tree_frame p q"
  by (simp add: tree_frame_def)

lemma frame_activate [simp]: "tree_frame p q \<Longrightarrow> tree_frame p (uvm_bpf_call_gpu_block_activate
    mem slot q c)"
  using activate_cases [of mem slot q c] by (auto simp: policy_moves_def)

lemma frame_update_lists [simp]: "tree_frame p q \<Longrightarrow> tree_frame p (chunk_update_lists_locked mem
    slot q c)"
  unfolding chunk_update_lists_locked_def Let_def
  by (auto simp: find_free_list_chunk_def find_free_list_def)

lemma frame_chunk_free [simp]: "tree_frame p q \<Longrightarrow> tree_frame p (chunk_free_locked mem slot q c)"
  unfolding chunk_free_locked_def Let_def chunk_pin_eq chunk_unpin_eq by (auto split: option.split)

lemma frame_try_free [simp]: "tree_frame p q \<Longrightarrow> tree_frame p (snd (try_chunk_free mem slot q c))"
  unfolding try_chunk_free_def Let_def by auto

lemma frame_pin_for_merge [simp]: "tree_frame p q \<Longrightarrow> tree_frame p (fold pin_for_merge xs q)"
proof (induction xs arbitrary: q)
  case (Cons x xs)
  have "tree_frame p (pin_for_merge x q)" unfolding pin_for_merge_def using Cons.prems by auto
  then show ?case using Cons.IH by simp
qed simp

lemma frame_prepare [simp]: "tree_frame p q \<Longrightarrow> tree_frame p (snd (free_or_prepare_for_merge mem
    slot q c))"
  unfolding free_or_prepare_for_merge_def Let_def by (auto split: option.split)

lemma frame_merge [simp]: "tree_frame p q \<Longrightarrow> tree_frame p (fst (merge_gpu_chunk q c))"
  unfolding merge_gpu_chunk_def Let_def by auto

lemma frame_release [simp]: "tree_frame p q \<Longrightarrow> tree_frame p (fst (release_root_chunk q c))"
  unfolding release_root_chunk_def free_root_chunk_def Let_def chunk_pin_eq chunk_unpin_eq by auto

lemma frame_free_next [simp]: "tree_frame p q \<Longrightarrow> tree_frame p (fst (snd
    (free_next_available_root_chunk q ty)))"
  by (cases rule: free_next_cases [of q ty]) auto

lemma prepare_parent: "fst (free_or_prepare_for_merge mem slot q c) = Some p \<Longrightarrow> c_parent
    (chunk_of q c) = Some p"
  by (auto simp: free_or_prepare_for_merge_def Let_def split: option.splits if_splits)

text \<open>Each round of merges goes up to the parent, which is larger.\<close>

lemma merges_return:
  assumes "parents_grow pmm"
  shows "\<exists>q freed. free_chunk_with_merges mem slot pmm c = Some (q, freed) \<and> tree_frame pmm q"
  using assms
proof (induction "21 - c_log2_size (chunk_of pmm c)" arbitrary: pmm c rule: less_induct)
  case less
  let ?r = "free_or_prepare_for_merge mem slot pmm c"
  show ?case
  proof (cases "fst ?r")
    case None
    then show ?thesis by (subst free_chunk_with_merges.simps) (auto simp: Let_def)
  next
    case (Some p)
    let ?m = "fst (merge_gpu_chunk (snd ?r) p)"
    have m: "tree_frame pmm ?m" by auto
    have "c_log2_size (chunk_of pmm c) < c_log2_size (chunk_of pmm p)" "c_log2_size (chunk_of pmm p) \<le> 21"
      using less.prems prepare_parent [OF Some] by (auto simp: parents_grow_def)
    then have "21 - c_log2_size (chunk_of ?m p) < 21 - c_log2_size (chunk_of pmm c)"
      using m by (simp add: tree_frame_def)
    from less.hyps [OF this frame_grow [OF m less.prems]] obtain q freed
      where "free_chunk_with_merges mem slot ?m p = Some (q, freed)" "tree_frame ?m q" by blast
    then show ?thesis
      using Some frame_trans [OF m] by (subst free_chunk_with_merges.simps) (auto simp: Let_def)
  qed
qed

lemma free_chunk_returns:
  assumes "parents_grow pmm"
  shows "\<exists>q freed frees. free_chunk mem slot pmm c = Some (q, freed, frees) \<and> tree_frame pmm q"
proof -
  obtain b p where t: "try_chunk_free mem slot pmm c = (b, p)" by fastforce
  have p: "tree_frame pmm p" using frame_try_free [OF frame_refl, of pmm mem slot c] by (simp add: t)
  from merges_return [OF frame_grow [OF p assms], of mem slot c] obtain q freed
    where q: "free_chunk_with_merges mem slot p c = Some (q, freed)" "tree_frame p q" by blast
  have n: "tree_frame pmm s'" if "free_next_available_root_chunk s ty = (b', s', frees)" "tree_frame pmm s" for
      s ty b' s' frees
    using frame_free_next [OF that(2), of ty] by (simp add: that(1))
  show ?thesis
    using p q frame_trans [OF p q(2)] by (cases b) (auto simp: free_chunk_def Let_def t split: prod.splits dest: n)
qed

subsection \<open>Properties\<close>



end
