(* ===== verification/Spec2Isabelle.thy ===== *)
theory Spec2Isabelle
  imports Prelude Transition_Validator Struct_Ops Sched_Hooks Channel_Group Group_Construct Gpreempt
    Page_Mask Perf_Tree Mem_Hooks Rb_Tree Range_Tree Range_Allocator Prefetch Pmm Pmm_Lists Pmm_System Pmm_Free
begin

text \<open>
  The program is the open GPU kernel modules with the extensions that let a loaded policy (a program of the
  kernel's BPF virtual machine) take part in scheduling and memory decisions. The paths below are relative to
  \<^verbatim>\<open>src/\<close>.

  \<^bold>\<open>Parts and how they interact.\<close> The resource manager creates channel groups and runs control commands on
  them. Where a decision is open to a policy, it calls a hook; the hook runs the registered policy, the policy
  records a request through a kernel function, and the validator decides whether the request is applied. The
  unified-memory module does the same for prefetching and for the order in which chunks of GPU memory are
  evicted. A further endpoint lets a process look up and slow down or speed up its own channel groups.

  \<^item> \<open>Prelude\<close>: machine integers, the status codes of \<^verbatim>\<open>nvstatus.h\<close>, kernel lists, loops with an early exit
    (\<open>fold_exit\<close>), the locale \<open>step_invariant\<close> of systems of steps, and generic lemmas on words and lists.
  \<^item> \<open>Struct_Ops\<close>: the locale \<open>struct_ops_slot\<close>, the contract of the pointer that holds the one registered policy.
  \<^item> \<open>Transition_Validator\<close>: \<^verbatim>\<open>kernel-open/common/inc/nv-gpu-transition-validator.h\<close> and
    \<^verbatim>\<open>nv-gpu-timeslice-control.h\<close>; the records of requests, their validation and the effects. The locale
    \<open>request_protocol\<close> is the protocol all recording functions follow.
  \<^item> \<open>Sched_Hooks\<close>: \<^verbatim>\<open>kernel-open/nvidia/nv-gpu-sched-hooks.c\<close>; registration, kernel functions, hooks.
  \<^item> \<open>Channel_Group\<close>: \<^verbatim>\<open>kernel_channel_group.c\<close>, the parts of \<^verbatim>\<open>kernel_fifo.c\<close>, \<^verbatim>\<open>kernel_channel.c\<close> and
    \<^verbatim>\<open>kernel_fifo_gm107.c\<close> it calls, and the control commands of \<^verbatim>\<open>kernel_channel_group_api.c\<close>.
  \<^item> \<open>Group_Construct\<close>: the constructor \<^verbatim>\<open>kchangrpapiConstruct_IMPL\<close> of \<^verbatim>\<open>kernel_channel_group_api.c\<close>.
  \<^item> \<open>Gpreempt\<close>: \<^verbatim>\<open>nv-gpreempt-transport.h\<close> and \<^verbatim>\<open>RmGPreemptTransport\<close> of \<^verbatim>\<open>escape.c\<close>.
  \<^item> \<open>Page_Mask\<close>: regions and page masks of \<^verbatim>\<open>uvm_va_block.h\<close> and \<^verbatim>\<open>uvm_va_block.c\<close>.
  \<^item> \<open>Perf_Tree\<close>: counters and trees of \<^verbatim>\<open>uvm_perf_utils.h\<close> and \<^verbatim>\<open>uvm_perf_utils.c\<close>.
  \<^item> \<open>Rb_Tree\<close>, \<open>Range_Tree\<close>, \<open>Range_Allocator\<close>: \<^verbatim>\<open>uvm_rb_tree.c\<close>, \<^verbatim>\<open>uvm_range_tree.c\<close> and
    \<^verbatim>\<open>uvm_range_allocator.c\<close>, each over the one before.
  \<^item> \<open>Mem_Hooks\<close>: \<^verbatim>\<open>uvm_bpf_struct_ops.c\<close>; the callback table of memory policies, its registration, the kernel
    functions and the wrappers of the callbacks.
  \<^item> \<open>Prefetch\<close>: \<^verbatim>\<open>uvm_perf_prefetch.c\<close> with what it calls in \<^verbatim>\<open>uvm_hmm.c\<close> and \<^verbatim>\<open>uvm_va_policy.c\<close>.
  \<^item> \<open>Pmm\<close>: \<^verbatim>\<open>uvm_pmm_gpu.c\<close> and \<^verbatim>\<open>uvm_pmm_gpu.h\<close>, the physical memory manager; \<open>Pmm_Lists\<close> has the
    invariant of its lists, \<open>Pmm_System\<close> its runs, \<open>Pmm_Free\<close> the end of its frees.

  \<^bold>\<open>State and operations.\<close> A structure of the source is a record with the fields that the modelled code reads or
  writes, an enumeration is a datatype, an integer is a word of its width unless its range is far from the
  limits. A pointer to an object that several paths change is a number into a store. A policy is the tree of its
  interactions with the kernel functions, so a theorem about all policies is a theorem about all trees. Code
  outside the modelled parts (the firmware, the resource server, the kernel's allocators, page reference counts,
  the rebalancing of red-black trees) is an argument; where a proof needs a law of it, the law is a named
  hypothesis with an instance (\<open>rb_laws\<close>). Locks are events in the traces where a theorem is about them;
  elsewhere a critical section is one operation.

  \<^bold>\<open>What the lemmas show.\<close>
  \<^item> Construction of a group: the exit code comes to an end, every lock and resource is released exactly once
    on failure, a policy's timeslice and interleave level are applied only if they were validated, and a failed
    group leaves no remote object behind.
  \<^item> Control commands: the timeslice that is sent and cached is the one the policy's answer amounts to; a
    rejected or failed command changes nothing; scheduling asks for admission first and leaves every channel
    with a runlist; the channel list stays well formed.
  \<^item> Hooks and validator: one policy at a time in every interleaving of registrations; a policy cannot change
    the inputs it is shown; the 64-bit arithmetic of the validator agrees with the integers.
  \<^item> Preemption transport: the query finds the one group of the caller or reports that there is none or more,
    and the write is only done for a group the caller owns, with every lock given back.
  \<^item> Masks, trees and ranges: the iterations end and visit what they are meant to; a range tree stays a set of
    disjoint ranges and answers every query as that set does; the allocator's free and used ranges partition the
    space in every run, everything can be given back, and an allocation fails only if no range fits.
  \<^item> Prefetching: whatever the policies answer, the pages to prefetch are within the allowed region; without a
    policy they are those of the density heuristic.
  \<^item> Physical memory: the hooks move a chunk exactly as the policy's requests amount to; in every interleaving
    of critical sections the lists are disjoint, hold what belongs there and agree with the recorded states;
    the chunk that is picked for eviction is evictable; lazy frees are all carried out.

  \<^bold>\<open>Bounds.\<close> Loops are structural recursion or folds where the code's bound is visible. The exit code of the
  constructor has a bound of passes, and two are shown to be enough. Loops whose end is not visible in the code
  (merging, lazy frees, release of free chunks, searches in trees, subregion iteration) are partial functions
  with the value \<open>None\<close> for not returning, and the theorems show that they return. Masks have 512 bits, the
  pages of a block of 2 MiB with pages of 4 KiB.

  \<^bold>\<open>Not modelled.\<close> Of the physical memory manager: the eviction of the pages of a VA block (it is the migration
  machinery of \<^verbatim>\<open>uvm_va_block.c\<close>, which also releases and takes the manager's mutex), trackers of pending GPU
  work, the reverse map, the setup of device pages for the kernel and the test calls. Of channel groups: the bind
  command, the legacy-mode switch and the copy constructor, whose work is done by objects of the resource server.
  The residency and mapping state machine of VA blocks, fault handling, the display modules, the resource server
  and the module glue are hardware and kernel I/O around the modelled parts and are not touched by the
  policies.
\<close>

end
